(* ===== verification/Prelude.thy ===== *)
theory Prelude
  imports Main "HOL-Library.Word" "HOL-Library.AList" "HOL-Library.Multiset"
    "HOL-Library.Monad_Syntax"
begin

section \<open>Shared vocabulary and automation\<close>

text \<open>
  What every component uses: the collections of rewrite rules the proofs name, the names of
  the machine types, decimal numerals as \<open>printf\<close> writes and \<open>atoi\<close> reads them, and
  generic facts on lists and association lists.

  A C++ \<open>std::string\<close> or byte buffer is a \<^typ>\<open>string\<close>, a list of 8-bit
  characters. A C++ \<open>int\<close> is an \<^typ>\<open>int\<close> in the 32-bit range; where the code
  narrows a wider value the narrowing \<open>to_int32\<close> is written out.
\<close>

named_theorems total_intros \<comment> \<open>operations that always return\<close>
named_theorems svc_simps \<comment> \<open>the chat service's operations on its state\<close>

subsection \<open>32-bit integers\<close>

definition to_int32 :: "int \<Rightarrow> int" where
  "to_int32 n = (n + 2 ^ 31) mod 2 ^ 32 - 2 ^ 31"

definition is_int32 :: "int \<Rightarrow> bool" where
  "is_int32 n \<longleftrightarrow> - (2 ^ 31) \<le> n \<and> n < 2 ^ 31"

lemma to_int32_id [simp]: "is_int32 n \<Longrightarrow> to_int32 n = n"
  by (simp add: to_int32_def is_int32_def)

lemma is_int32_to_int32 [simp, intro]: "is_int32 (to_int32 n)"
proof -
  have "0 \<le> (n + 2 ^ 31) mod 2 ^ 32" and "(n + 2 ^ 31) mod 2 ^ 32 < 2 ^ 32"
    by simp_all
  then show ?thesis by (simp add: to_int32_def is_int32_def)
qed

lemma is_int32_small [simp]: "is_int32 (- 1)" "is_int32 0" "is_int32 1"
  by (simp_all add: is_int32_def)

subsection \<open>Decimal numerals: printf's d conversion and atoi\<close>

definition digit :: "nat \<Rightarrow> char" where
  "digit d = char_of (48 + d)"

definition is_digit :: "char \<Rightarrow> bool" where
  "is_digit c \<longleftrightarrow> 48 \<le> (of_char c :: nat) \<and> (of_char c :: nat) \<le> 57"

definition digit_val :: "char \<Rightarrow> nat" where
  "digit_val c = of_char c - 48"

fun dec_nat :: "nat \<Rightarrow> string" where
  "dec_nat n = (if n < 10 then [digit n] else dec_nat (n div 10) @ [digit (n mod 10)])"

declare dec_nat.simps [simp del]

definition dec_int :: "int \<Rightarrow> string" where
  "dec_int n = (if n < 0 then CHR ''-'' # dec_nat (nat (- n)) else dec_nat (nat n))"

definition digits_val :: "string \<Rightarrow> nat" where
  "digits_val s = foldl (\<lambda>a c. 10 * a + digit_val c) 0 s"

text \<open>\<open>atoi\<close>: white space, an optional sign, then the longest run of digits.\<close>

definition is_space :: "char \<Rightarrow> bool" where
  "is_space c \<longleftrightarrow> c = CHR '' '' \<or> (9 \<le> (of_char c :: nat) \<and> (of_char c :: nat) \<le> 13)"

definition atoi :: "string \<Rightarrow> int" where
  "atoi s = (case dropWhile is_space s of
      [] \<Rightarrow> 0
    | c # cs \<Rightarrow>
        if c = CHR ''-'' then - int (digits_val (takeWhile is_digit cs))
        else if c = CHR ''+'' then int (digits_val (takeWhile is_digit cs))
        else int (digits_val (takeWhile is_digit (c # cs))))"

text \<open>The same on numbers of any length: the nearest \<open>long\<close>, cut to an \<open>int\<close>.\<close>

definition c_atoi :: "string \<Rightarrow> int" where
  "c_atoi s = to_int32 (max (-(2 ^ 63)) (min (2 ^ 63 - 1) (atoi s)))"

lemma digit_facts [simp]:
  assumes "d < 10"
  shows "is_digit (digit d)" "digit_val (digit d) = d"
  using assms by (simp_all add: is_digit_def digit_val_def digit_def)

lemma is_digit_not:
  "is_digit c \<Longrightarrow> c \<noteq> CHR ''-''" "is_digit c \<Longrightarrow> c \<noteq> CHR ''+''" "is_digit c \<Longrightarrow> \<not> is_space c"
  by (auto simp: is_digit_def is_space_def)

lemma dec_nat_digits: "c \<in> set (dec_nat n) \<Longrightarrow> is_digit c"
proof (induction n rule: dec_nat.induct)
  case (1 n)
  then show ?case
    by (subst (asm) (2) dec_nat.simps) (auto split: if_splits)
qed

lemma dec_nat_nonempty [simp]: "dec_nat n \<noteq> []"
  by (subst dec_nat.simps) simp

lemma digits_val_snoc: "digits_val (s @ [c]) = 10 * digits_val s + digit_val c"
  by (simp add: digits_val_def)

lemma digits_val_dec_nat [simp]: "digits_val (dec_nat n) = n"
proof (induction n rule: dec_nat.induct)
  case (1 n)
  show ?case
  proof (cases "n < 10")
    case True
    then show ?thesis by (subst dec_nat.simps) (simp add: digits_val_def)
  next
    case False
    with 1 show ?thesis
      by (subst dec_nat.simps) (simp add: digits_val_snoc)
  qed
qed

lemma takeWhile_dec_nat: "\<not> is_digit (hd (r @ [CHR 0x00])) \<Longrightarrow>
    takeWhile is_digit (dec_nat n @ r) = dec_nat n"
  by (cases r) (auto simp: takeWhile_append dest: dec_nat_digits)

lemma takeWhile_dec_nat_all [simp]: "takeWhile is_digit (dec_nat n) = dec_nat n"
  by (auto simp: takeWhile_eq_all_conv dest: dec_nat_digits)

lemma dec_nat_hd: "\<exists>c cs. dec_nat n = c # cs \<and> is_digit c"
  by (metis dec_nat_digits dec_nat_nonempty list.exhaust list.set_intros(1))

lemma atoi_dec_int [simp]: "atoi (dec_int n) = n"
proof (cases "n < 0")
  case True
  then show ?thesis by (simp add: atoi_def dec_int_def is_space_def)
next
  case False
  obtain c cs where c: "dec_nat (nat n) = c # cs" "is_digit c" using dec_nat_hd by blast
  have "digits_val (takeWhile is_digit (c # cs)) = nat n"
    by (simp flip: c(1))
  with False c show ?thesis
    by (simp add: atoi_def dec_int_def is_digit_not)
qed

lemma dec_nat_inj: "dec_nat m = dec_nat n \<Longrightarrow> m = n"
  by (metis digits_val_dec_nat)

lemma dec_int_inj [simp]: "dec_int m = dec_int n \<longleftrightarrow> m = n"
  by (metis atoi_dec_int)

lemma dec_nat_length_bound: "n < 10 ^ Suc k \<Longrightarrow> length (dec_nat n) \<le> Suc k"
proof (induction k arbitrary: n)
  case 0
  then show ?case by (subst dec_nat.simps) simp
next
  case (Suc k)
  then have "length (dec_nat (n div 10)) \<le> Suc k" by auto
  then show ?case by (subst dec_nat.simps) simp
qed

lemma dec_int_length: "is_int32 n \<Longrightarrow> length (dec_int n) \<le> 11"
proof -
  assume n: "is_int32 n"
  then have "nat n < 10 ^ Suc 9" "nat (- n) < 10 ^ Suc 9" by (auto simp: is_int32_def)
  then have "length (dec_nat (nat n)) \<le> Suc 9" "length (dec_nat (nat (- n))) \<le> Suc 9"
    by (blast intro: dec_nat_length_bound)+
  then show ?thesis by (simp add: dec_int_def)
qed

lemma dec_int_chars: "c \<in> set (dec_int n) \<Longrightarrow> is_digit c \<or> c = CHR ''-''"
  by (auto simp: dec_int_def dest: dec_nat_digits split: if_splits)

subsection \<open>Lists and association lists\<close>

lemma map_of_filter_neq:
  "map_of (filter (\<lambda>p. fst p \<noteq> k) xs) = (map_of xs)(k := None)"
  by (induction xs) (auto simp: fun_eq_iff)

lemma foldl_snoc_map: "foldl (\<lambda>acc x. acc @ [f x]) acc xs = acc @ map f xs"
  by (induction xs arbitrary: acc) auto

lemma distinct_fst_update [intro]:
  "distinct (map fst xs) \<Longrightarrow> distinct (map fst (AList.update k v xs))"
  by (rule distinct_update)

lemma distinct_fst_delete [intro]:
  "distinct (map fst xs) \<Longrightarrow> distinct (map fst (AList.delete k xs))"
  by (rule distinct_delete)

text \<open>A computation that returns. The rules decompose a sequence of steps.\<close>

definition returns :: "'a option \<Rightarrow> bool" where
  "returns m \<longleftrightarrow> m \<noteq> None"

lemma returns_simps [simp]: "returns (Some x)" "\<not> returns None"
  by (simp_all add: returns_def)

lemma returnsE: "returns m \<Longrightarrow> (\<And>x. m = Some x \<Longrightarrow> P) \<Longrightarrow> P"
  by (auto simp: returns_def)

lemma returns2E: "returns m \<Longrightarrow> (\<And>x y. m = Some (x, y) \<Longrightarrow> P) \<Longrightarrow> P"
  by (cases m) auto

lemma returns_bind: "returns m \<Longrightarrow> (\<And>x. m = Some x \<Longrightarrow> returns (f x)) \<Longrightarrow> returns (Option.bind m f)"
  by (cases m) auto

text \<open>The keys of an association list.\<close>

definition keys :: "('k \<times> 'v) list \<Rightarrow> 'k set" where
  "keys xs = fst ` set xs"

lemma keys_fold: "fst ` set xs = keys xs"
  by (simp add: keys_def)

lemma keys_dom: "keys xs = dom (map_of xs)"
  by (simp add: keys_def dom_map_of_conv_image_fst)

lemma keys_simps [simp]:
  "keys [] = {}"
  "keys (x # xs) = insert (fst x) (keys xs)"
  "keys (xs @ ys) = keys xs \<union> keys ys"
  by (auto simp: keys_def)

lemma keys_update [simp]: "keys (AList.update k v xs) = insert k (keys xs)"
  by (simp add: keys_dom update_conv')

lemma keys_delete [simp]: "keys (AList.delete k xs) = keys xs - {k}"
  by (simp add: keys_dom delete_conv')

lemma keys_map_of: "map_of xs k = None \<longleftrightarrow> k \<notin> keys xs"
  by (simp add: keys_def map_of_eq_None_iff)

lemma set_update_cases: "e \<in> set (AList.update k v xs) \<Longrightarrow> e = (k, v) \<or> e \<in> set xs"
  by (induction xs) (auto split: if_splits)

lemma set_delete_subset: "e \<in> set (AList.delete k xs) \<Longrightarrow> e \<in> set xs"
  by (simp add: AList.delete_eq)

text \<open>The values present in a list of optional values, in order.\<close>

fun somes :: "'a option list \<Rightarrow> 'a list" where
  "somes [] = []"
| "somes (None # xs) = somes xs"
| "somes (Some x # xs) = x # somes xs"

lemma length_somes: "length (somes xs) \<le> length xs"
  by (induction xs rule: somes.induct) auto

lemma set_somes: "set (somes xs) = {x. Some x \<in> set xs}"
  by (induction xs rule: somes.induct) auto

lemma distinct_somes_take: "distinct (somes xs) \<Longrightarrow> distinct (somes (take n xs))"
proof (induction xs arbitrary: n rule: somes.induct)
  case (2 xs)
  then show ?case by (cases n) auto
next
  case (3 x xs)
  then show ?case by (cases n) (auto simp: set_somes dest: in_set_takeD)
qed simp

end
