(* ===== verification/Wire.thy ===== *)
theory Wire
  imports Prelude
begin

section \<open>The wire protocol: length-prefixed frames\<close>

text \<open>
  Every packet is a 4-byte big-endian length followed by that many bytes of JSON text.
  Both ends write packets with \<open>sendJson\<close> (\<open>chatservice.cpp\<close>, \<open>chatclient.cpp\<close>) and cut the
  byte stream of the TCP connection back into bodies with a loop over the receive buffer
  (\<open>ChatServer::onMessage\<close>, \<open>ChatClient::onReadyRead\<close>). The loops are modelled over an
  arbitrary handler of one body. What both loops do with a stream is proved once, in the
  locale \<open>framed_stream\<close>, against the reference \<open>parse_stream\<close>.
\<close>

subsection \<open>The header\<close>

text \<open>
  \<open>htonl\<close> (\<open>qToBigEndian\<close>) leaves the most significant byte first in memory, on every host;
  \<open>ntohl\<close> (\<open>qFromBigEndian\<close>) reads the four bytes back.
\<close>

definition be32 :: "32 word \<Rightarrow> string" where
  "be32 n = [char_of (unat n div 2 ^ 24), char_of (unat n div 2 ^ 16),
             char_of (unat n div 2 ^ 8), char_of (unat n)]"

definition rd32 :: "string \<Rightarrow> 32 word" where
  "rd32 buf = (case buf of
      a # b # c # d # _ \<Rightarrow>
        word_of_nat (of_char a * 2 ^ 24 + of_char b * 2 ^ 16 + of_char c * 2 ^ 8 + of_char d)
    | _ \<Rightarrow> 0)"

lemma length_be32 [simp]: "length (be32 n) = 4"
  by (simp add: be32_def)

lemma be_digits:
  fixes n :: nat
  assumes "n < 2 ^ 32"
  shows "(n div 2 ^ 24 mod 256) * 2 ^ 24 + (n div 2 ^ 16 mod 256) * 2 ^ 16
    + (n div 2 ^ 8 mod 256) * 2 ^ 8 + n mod 256 = n"
proof -
  have "n div 2 ^ 24 < 256" using assms by (simp add: less_mult_imp_div_less)
  then have top: "n div 2 ^ 24 mod 256 = n div 2 ^ 24" by simp
  have a: "n div 2 ^ 8 = 256 * (n div 2 ^ 16) + n div 2 ^ 8 mod 256"
    using mult_div_mod_eq [of 256 "n div 2 ^ 8"] by (simp flip: div_mult2_eq)
  have b: "n div 2 ^ 16 = 256 * (n div 2 ^ 24) + n div 2 ^ 16 mod 256"
    using mult_div_mod_eq [of 256 "n div 2 ^ 16"] by (simp flip: div_mult2_eq)
  have hi: "(n div 2 ^ 24) * 2 ^ 24 + (n div 2 ^ 16 mod 256) * 2 ^ 16 = (n div 2 ^ 16) * 2 ^ 16"
    using b by (simp add: algebra_simps)
  have lo: "(n div 2 ^ 16) * 2 ^ 16 + (n div 2 ^ 8 mod 256) * 2 ^ 8 = (n div 2 ^ 8) * 2 ^ 8"
    using a by (simp add: algebra_simps)
  show ?thesis
    unfolding top hi lo using div_mult_mod_eq [of n 256] by simp
qed

lemma rd32_be32 [simp]: "rd32 (be32 n @ r) = n"
proof -
  have "unat n < 2 ^ 32" using unsigned_less [of n] by simp
  note sum = be_digits [OF this]
  show ?thesis
    unfolding rd32_def be32_def append_Cons append_Nil list.case of_char_of sum
    by simp
qed

text \<open>\<open>sendJson\<close>: the length of the body as a \<open>uint32_t\<close>, then the body.\<close>

definition packet :: "string \<Rightarrow> string" where
  "packet body = be32 (word_of_nat (length body)) @ body"

definition max_body :: nat where
  "max_body = 1024 * 1024"

lemma max_body_val [simp]: "unat (1048576 :: 32 word) = max_body"
  by (simp add: max_body_def)

text \<open>The bodies both receivers accept: between one byte and one mebibyte.\<close>

definition body_ok :: "string \<Rightarrow> bool" where
  "body_ok b \<longleftrightarrow> b \<noteq> [] \<and> length b \<le> max_body"

subsection \<open>The receive loops\<close>

text \<open>
  \<open>ChatServer::onMessage\<close>. The handler \<open>h\<close> processes one body on the state \<open>w\<close>; it may fail
  to return a defined result (\<open>None\<close>). A length of zero or above one mebibyte empties the
  buffer (\<open>retrieveAll\<close>) and leaves the loop.
\<close>

function onMessage_loop :: "(string \<Rightarrow> 'w \<Rightarrow> 'w option) \<Rightarrow> string \<Rightarrow> 'w \<Rightarrow> ('w \<times> string) option"
  where
  "onMessage_loop h buffer w =
     (if length buffer \<ge> 4 then
        (let totalLen = rd32 buffer in
         if totalLen > 1024 * 1024 \<or> totalLen = 0 then Some (w, [])
         else if length buffer < 4 + unat totalLen then Some (w, buffer)
         else (case h (take (unat totalLen) (drop 4 buffer)) w of
                 None \<Rightarrow> None
               | Some w' \<Rightarrow> onMessage_loop h (drop (unat totalLen) (drop 4 buffer)) w'))
      else Some (w, buffer))"
  by pat_completeness auto
termination
  by (relation "measure (\<lambda>(h, b, w). length b)") auto

declare onMessage_loop.simps [simp del]

text \<open>
  \<open>ChatClient::onReadyRead\<close>. A bad length empties the buffer and aborts the socket, which the
  third component of the result reports.
\<close>

function readyRead_loop :: "(string \<Rightarrow> 'w \<Rightarrow> 'w) \<Rightarrow> string \<Rightarrow> 'w \<Rightarrow> 'w \<times> string \<times> bool" where
  "readyRead_loop h recvBuf w =
     (if length recvBuf \<ge> 4 then
        (let len = rd32 recvBuf in
         if len = 0 \<or> len > 1024 * 1024 then (w, [], True)
         else if length recvBuf < 4 + unat len then (w, recvBuf, False)
         else readyRead_loop h (drop (4 + unat len) recvBuf) (h (take (unat len) (drop 4 recvBuf)) w))
      else (w, recvBuf, False))"
  by pat_completeness auto
termination
  by (relation "measure (\<lambda>(h, b, w). length b)") auto

declare readyRead_loop.simps [simp del]

subsection \<open>The reference: one frame, and a whole stream\<close>

datatype scan_result = More | Bad | Frame string string

definition scan :: "string \<Rightarrow> scan_result" where
  "scan buf =
     (if length buf < 4 then More
      else if unat (rd32 buf) = 0 \<or> max_body < unat (rd32 buf) then Bad
      else if length buf < 4 + unat (rd32 buf) then More
      else Frame (take (unat (rd32 buf)) (drop 4 buf)) (drop (4 + unat (rd32 buf)) buf))"

lemma scan_Frame_length: "scan buf = Frame b r \<Longrightarrow> length r < length buf"
  by (auto simp: scan_def split: if_splits)

function parse_stream :: "string \<Rightarrow> string list \<times> string" where
  "parse_stream buf =
     (case scan buf of
        Frame b r \<Rightarrow> (b # fst (parse_stream r), snd (parse_stream r))
      | _ \<Rightarrow> ([], buf))"
  by pat_completeness auto
termination
  by (relation "measure length") (auto dest: scan_Frame_length)

declare parse_stream.simps [simp del]

lemma parse_stream_simps [simp]:
  "scan buf = More \<Longrightarrow> parse_stream buf = ([], buf)"
  "scan buf = Bad \<Longrightarrow> parse_stream buf = ([], buf)"
  "scan buf = Frame b r \<Longrightarrow> parse_stream buf = (b # fst (parse_stream r), snd (parse_stream r))"
  by (subst parse_stream.simps, simp)+

lemma length_ge_4: "4 \<le> length x \<longleftrightarrow> (\<exists>a b c d r. x = a # b # c # d # r)"
  by (simp add: numeral_eq_Suc Suc_le_length_iff, blast)

lemma rd32_append: "4 \<le> length x \<Longrightarrow> rd32 (x @ y) = rd32 x"
  unfolding length_ge_4 by (clarsimp simp: rd32_def)

lemma scan_FrameD:
  assumes "scan x = Frame b r"
  shows "4 \<le> length x" "unat (rd32 x) \<noteq> 0" "unat (rd32 x) \<le> max_body"
    "4 + unat (rd32 x) \<le> length x" "b = take (unat (rd32 x)) (drop 4 x)"
    "r = drop (4 + unat (rd32 x)) x"
  using assms unfolding scan_def
  by (simp_all split: if_split_asm del: unat_eq_zero unsigned_eq_0_iff)

lemma scan_append_Frame: "scan x = Frame b r \<Longrightarrow> scan (x @ y) = Frame b (r @ y)"
  using scan_FrameD [of x b r] by (simp add: scan_def rd32_append)

lemma scan_append_Bad: "scan x = Bad \<Longrightarrow> scan (x @ y) = Bad"
  unfolding scan_def by (cases "unat (rd32 x) = 0") (simp_all add: rd32_append split: if_split_asm)

lemma scan_rest: "scan (snd (parse_stream x)) \<noteq> Frame b r"
proof (induction x rule: parse_stream.induct)
  case (1 x)
  then show ?case by (cases "scan x") simp_all
qed

lemma parse_stream_append:
  "parse_stream (x @ y) =
    (fst (parse_stream x) @ fst (parse_stream (snd (parse_stream x) @ y)),
     snd (parse_stream (snd (parse_stream x) @ y)))"
proof (induction x rule: parse_stream.induct)
  case (1 x)
  show ?case
  proof (cases "scan x")
    case (Frame b r)
    with 1 show ?thesis by (simp add: scan_append_Frame [OF Frame])
  qed simp_all
qed

lemma scan_packet: "body_ok b \<Longrightarrow> scan (packet b @ r) = Frame b r"
proof -
  assume b: "body_ok b"
  then have "length b < 2 ^ 32" by (simp add: body_ok_def max_body_def)
  then have "unat (word_of_nat (length b) :: 32 word) = length b"
    by (simp add: unat_of_nat)
  with b show ?thesis
    by (simp add: scan_def packet_def body_ok_def)
qed

lemma parse_stream_packets:
  "\<forall>b \<in> set bs. body_ok b \<Longrightarrow> scan t = More \<Longrightarrow>
    parse_stream (concat (map packet bs) @ t) = (bs, t)"
  by (induction bs) (simp_all add: scan_packet)

lemma scan_Nil [simp]: "scan [] = More"
  by (simp add: scan_def)

subsection \<open>Any receiver that works frame by frame\<close>

text \<open>
  A receiver keeps the bytes not consumed yet (\<open>pend\<close>) and the bodies delivered so far
  (\<open>got\<close>); \<open>feed\<close> is the arrival of a chunk of bytes. The laws speak of one frame at a time.
\<close>

locale framed_stream =
  fixes feed :: "'s \<Rightarrow> string \<Rightarrow> 's"
    and pend :: "'s \<Rightarrow> string"
    and got :: "'s \<Rightarrow> string list"
  assumes feed_more: "scan (pend s @ d) = More \<Longrightarrow> pend (feed s d) = pend s @ d \<and> got (feed s d) = got s"
    and feed_frame: "scan (pend s @ d) = Frame b r \<Longrightarrow>
      \<exists>s'. pend s' = [] \<and> got s' = got s @ [b] \<and> feed s d = feed s' r"
    and feed_bad: "scan (pend s @ d) = Bad \<Longrightarrow> pend (feed s d) = [] \<and> got (feed s d) = got s"
begin

lemma feed_parse:
  assumes "scan (snd (parse_stream (pend s @ d))) = More"
  shows "got (feed s d) = got s @ fst (parse_stream (pend s @ d)) \<and>
    pend (feed s d) = snd (parse_stream (pend s @ d))"
proof -
  have "\<forall>s d. x = pend s @ d \<longrightarrow> scan (snd (parse_stream x)) = More \<longrightarrow>
    got (feed s d) = got s @ fst (parse_stream x) \<and> pend (feed s d) = snd (parse_stream x)" for x
  proof (induction x rule: parse_stream.induct)
    case (1 x)
    show ?case
    proof (cases "scan x")
      case (Frame b r)
      with 1 have IH: "\<And>s d. r = pend s @ d \<Longrightarrow> scan (snd (parse_stream r)) = More \<Longrightarrow>
        got (feed s d) = got s @ fst (parse_stream r) \<and> pend (feed s d) = snd (parse_stream r)"
        by blast
      show ?thesis
      proof (intro allI impI)
        fix s d
        assume x: "x = pend s @ d" and m: "scan (snd (parse_stream x)) = More"
        then obtain s' where s': "pend s' = []" "got s' = got s @ [b]" "feed s d = feed s' r"
          using feed_frame Frame by blast
        with IH [of s' r] m Frame show "got (feed s d) = got s @ fst (parse_stream x) \<and>
            pend (feed s d) = snd (parse_stream x)"
          by simp
      qed
    qed (auto dest: feed_more)
  qed
  with assms show ?thesis by blast
qed

text \<open>Where the stream is cut into chunks does not matter.\<close>

lemma stream_chunks:
  assumes "scan (pend s) = More"
    and "scan (snd (parse_stream (pend s @ concat cs))) = More"
  shows "got (foldl feed s cs) = got s @ fst (parse_stream (pend s @ concat cs)) \<and>
    pend (foldl feed s cs) = snd (parse_stream (pend s @ concat cs))"
  using assms
proof (induction cs arbitrary: s)
  case Nil
  then show ?case by simp
next
  case (Cons c cs)
  let ?t = "snd (parse_stream (pend s @ c))"
  have app: "parse_stream (pend s @ concat (c # cs)) =
    (fst (parse_stream (pend s @ c)) @ fst (parse_stream (?t @ concat cs)),
     snd (parse_stream (?t @ concat cs)))"
    using parse_stream_append [of "pend s @ c" "concat cs"] by simp
  have "scan ?t \<noteq> Bad"
    using Cons.prems(2) app scan_append_Bad [of ?t "concat cs"] by fastforce
  then have t: "scan ?t = More"
    using scan_rest by (metis scan_result.exhaust)
  from feed_parse [OF this] Cons.IH [of "feed s c"] t Cons.prems(2) app
  show ?case by simp
qed

lemma packets_received:
  assumes "\<forall>b \<in> set bs. body_ok b" and "scan t = More" and "pend s = []"
    and "concat cs = concat (map packet bs) @ t"
  shows "got (foldl feed s cs) = got s @ bs \<and> pend (foldl feed s cs) = t"
  using stream_chunks [of s cs] assms by (simp add: parse_stream_packets)

end

subsection \<open>Both ends are such receivers\<close>

lemma bad_length:
  fixes n :: "32 word"
  shows "(n > 1024 * 1024 \<or> n = 0) \<longleftrightarrow> (unat n = 0 \<or> max_body < unat n)"
    and "(n = 0 \<or> n > 1024 * 1024) \<longleftrightarrow> (unat n = 0 \<or> max_body < unat n)"
proof -
  have "n > 1024 * 1024 \<longleftrightarrow> max_body < unat n"
    unfolding word_less_nat_alt by (simp add: max_body_def)
  moreover have "n = 0 \<longleftrightarrow> unat n = 0"
    by (metis unsigned_0 unsigned_eq_0_iff)
  ultimately show "(n > 1024 * 1024 \<or> n = 0) \<longleftrightarrow> (unat n = 0 \<or> max_body < unat n)"
    and "(n = 0 \<or> n > 1024 * 1024) \<longleftrightarrow> (unat n = 0 \<or> max_body < unat n)"
    by auto
qed

lemma onMessage_loop_scan:
  "onMessage_loop h buf w = (case scan buf of
      More \<Rightarrow> Some (w, buf)
    | Bad \<Rightarrow> Some (w, [])
    | Frame b r \<Rightarrow> (case h b w of None \<Rightarrow> None | Some w' \<Rightarrow> onMessage_loop h r w'))"
  unfolding onMessage_loop.simps [of h buf w] scan_def Let_def bad_length drop_drop
  by (simp only: not_le if_split add.commute scan_result.case split: if_split) force

lemma readyRead_loop_scan:
  "readyRead_loop h buf w = (case scan buf of
      More \<Rightarrow> (w, buf, False)
    | Bad \<Rightarrow> (w, [], True)
    | Frame b r \<Rightarrow> readyRead_loop h r (h b w))"
  unfolding readyRead_loop.simps [of h buf w] scan_def Let_def bad_length
  by (simp only: not_le if_split scan_result.case split: if_split) force

lemma onMessage_loop_total:
  assumes "\<And>b w. h b w \<noteq> None"
  shows "onMessage_loop h buf w \<noteq> None"
proof (induction buf arbitrary: w rule: parse_stream.induct)
  case (1 buf)
  show ?case
  proof (cases "scan buf")
    case (Frame b r)
    obtain w' where "h b w = Some w'" using assms [of b w] by blast
    with 1 Frame show ?thesis by (subst onMessage_loop_scan) simp
  qed (subst onMessage_loop_scan, simp)+
qed

text \<open>The server end: the buffer and the bodies handed to the dispatcher, in order.\<close>

definition server_feed :: "string \<times> string list \<Rightarrow> string \<Rightarrow> string \<times> string list" where
  "server_feed s d =
     (case onMessage_loop (\<lambda>b got. Some (got @ [b])) (fst s @ d) (snd s) of
        None \<Rightarrow> s | Some (got, buf) \<Rightarrow> (buf, got))"

interpretation srv: framed_stream server_feed fst snd
proof unfold_locales
  fix s :: "string \<times> string list" and d b r
  assume "scan (fst s @ d) = Frame b r"
  then have "server_feed s d = server_feed ([], snd s @ [b]) r"
    using onMessage_loop_total [of "\<lambda>b got. Some (got @ [b])" r "snd s @ [b]"]
    by (auto simp: server_feed_def onMessage_loop_scan [of _ "fst s @ d"] split: option.split)
  then show "\<exists>s'. fst s' = [] \<and> snd s' = snd s @ [b] \<and> server_feed s d = server_feed s' r"
    by force
qed (simp_all add: server_feed_def onMessage_loop_scan)

text \<open>The client end: the buffer, the bodies parsed, and whether the socket was aborted.\<close>

definition client_feed :: "string \<times> string list \<times> bool \<Rightarrow> string \<Rightarrow> string \<times> string list \<times> bool" where
  "client_feed s d =
     (case readyRead_loop (\<lambda>b got. got @ [b]) (fst s @ d) (fst (snd s)) of
        (got, buf, ab) \<Rightarrow> (buf, got, snd (snd s) \<or> ab))"

interpretation cli: framed_stream client_feed fst "\<lambda>s. fst (snd s)"
proof unfold_locales
  fix s :: "string \<times> string list \<times> bool" and d b r
  assume "scan (fst s @ d) = Frame b r"
  then have "client_feed s d = client_feed ([], fst (snd s) @ [b], snd (snd s)) r"
    by (simp add: client_feed_def readyRead_loop_scan [of _ "fst s @ d"])
  then show "\<exists>s'. fst s' = [] \<and> fst (snd s') = fst (snd s) @ [b] \<and> client_feed s d = client_feed s' r"
    by force
qed (simp_all add: client_feed_def readyRead_loop_scan)

subsection \<open>Properties\<close>

text \<open>
  (C6) Sticky and split packets: however TCP cuts a sequence of well-sized packets into
  chunks, the server's loop hands exactly the bodies that were sent to the dispatcher, in
  order and each once, and keeps no bytes back.
\<close>
theorem server_stream_exact:
  assumes "\<forall>b \<in> set bodies. body_ok b"
    and "concat chunks = concat (map packet bodies)"
  shows "foldl server_feed ([], []) chunks = ([], bodies)"
  using srv.packets_received [of bodies "[]" "([], [])" chunks] assms
  by (simp add: prod_eq_iff)

theorem server_stream_exact_witness:
  "foldl server_feed ([], []) [take 5 (packet ''{}'' @ packet ''[1]''), drop 5 (packet ''{}'' @ packet ''[1]'')]
    = ([], [''{}'', ''[1]''])"
  by (rule server_stream_exact) (simp_all add: body_ok_def max_body_def packet_def be32_def)

text \<open>
  The client's loop delivers a sequence of well-sized packets the same way, and keeps
  exactly the bytes of an incomplete last packet for the next read.
\<close>
theorem client_stream_exact:
  assumes "\<forall>b \<in> set bodies. body_ok b" and "body_ok lst" and "n < length (packet lst)"
    and "concat chunks = concat (map packet bodies) @ take n (packet lst)"
  shows "fst (foldl client_feed ([], [], False) chunks) = take n (packet lst) \<and>
    fst (snd (foldl client_feed ([], [], False) chunks)) = bodies"
proof -
  have "scan (take n (packet lst)) = More"
  proof (rule ccontr)
    assume "scan (take n (packet lst)) \<noteq> More"
    then consider "scan (take n (packet lst)) = Bad"
      | b r where "scan (take n (packet lst)) = Frame b r"
      by (cases "scan (take n (packet lst))") auto
    then show False
    proof cases
      case 1
      from scan_append_Bad [OF this, of "drop n (packet lst)"] scan_packet [OF assms(2), of "[]"]
      show False by simp
    next
      case 2
      from scan_append_Frame [OF this, of "drop n (packet lst)"] scan_packet [OF assms(2), of "[]"]
      show False using assms(3) by simp
    qed
  qed
  then show ?thesis
    using cli.packets_received [of bodies "take n (packet lst)" "([], [], False)" chunks] assms
    by simp
qed

theorem client_stream_exact_witness:
  "fst (foldl client_feed ([], [], False) [packet ''{}'', take 3 (packet ''[]'')]) = take 3 (packet ''[]'') \<and>
   fst (snd (foldl client_feed ([], [], False) [packet ''{}'', take 3 (packet ''[]'')])) = [''{}'']"
  by (rule client_stream_exact) (simp_all add: body_ok_def max_body_def packet_def)

text \<open>
  A sender never checks the length of a body, but both receivers do: a packet whose body
  is longer than one mebibyte makes the client discard it together with everything behind it
  in the buffer and abort the connection, and makes the server silently discard everything it
  has buffered, the well-formed packets behind it included.
\<close>
theorem oversized_packet_discarded:
  assumes "max_body < length b" and "length b < 2 ^ 32"
  shows "client_feed ([], got, False) (packet b @ r) = ([], got, True) \<and>
    server_feed ([], got) (packet b @ r) = ([], got)"
proof -
  have "unat (word_of_nat (length b) :: 32 word) = length b"
    using assms(2) by (simp add: unat_of_nat)
  with assms(1) have "scan (packet b @ r) = Bad"
    by (simp add: scan_def packet_def max_body_def)
  then show ?thesis
    by (simp add: client_feed_def server_feed_def onMessage_loop_scan readyRead_loop_scan)
qed

theorem oversized_packet_discarded_witness:
  "client_feed ([], [], False) (packet (replicate (Suc max_body) CHR ''x'') @ packet ''{}'') = ([], [], True) \<and>
   server_feed ([], []) (packet (replicate (Suc max_body) CHR ''x'') @ packet ''{}'') = ([], [])"
  by (rule oversized_packet_discarded) (simp_all add: max_body_def)

end
