(* ===== verification/Json.thy ===== *)
theory Json
  imports Prelude "HOL-Library.Char_ord" "HOL-Library.List_Lexorder"
begin

section \<open>JSON values as the code uses them\<close>

text \<open>
  The values of \<open>nlohmann::json\<close> and the few operations the repository calls on them.
  Integers cover the library's 64-bit signed and unsigned numbers; a floating point number
  is kept as an opaque 64-bit pattern. An object is an association list in the order of
  \<open>std::map\<close>. Serialising (\<open>dump\<close>), parsing and the truncation of a float are the library's
  own and stay parameters, the fields of \<open>json_lib\<close>; \<open>json_lib_ok\<close> states the one fact of
  them that the message routing relies on.
\<close>

datatype json =
    JNull
  | JBool bool
  | JInt int
  | JFloat "64 word"
  | JStr string
  | JArr "json list"
  | JObj "(string \<times> json) list"

text \<open>Both kinds of exception are caught in one place, \<open>ChatServer::onMessage\<close>.\<close>

datatype json_error = Parse_error | Type_error

record json_lib =
  dump :: "json \<Rightarrow> string"
  parse :: "string \<Rightarrow> json option"
  float_int :: "64 word \<Rightarrow> int"

text \<open>Serialising a value that was parsed and parsing it again gives the value back.\<close>

definition json_lib_ok :: "json_lib \<Rightarrow> bool" where
  "json_lib_ok J \<longleftrightarrow> (\<forall>s j. parse J s = Some j \<longrightarrow> parse J (dump J j) = Some j)"

subsection \<open>Access\<close>

definition contains :: "json \<Rightarrow> string \<Rightarrow> bool" where
  "contains j k = (case j of JObj kvs \<Rightarrow> map_of kvs k \<noteq> None | _ \<Rightarrow> False)"

text \<open>
  \<open>operator[]\<close> on a non-const value: null turns into an object, a missing key is inserted
  with null, any other type throws. Only the value read matters to the callers.
\<close>

definition jindex :: "json \<Rightarrow> string \<Rightarrow> json_error + json" where
  "jindex j k = (case j of
      JObj kvs \<Rightarrow> Inr (case map_of kvs k of Some v \<Rightarrow> v | None \<Rightarrow> JNull)
    | JNull \<Rightarrow> Inr JNull
    | _ \<Rightarrow> Inl Type_error)"

text \<open>\<open>get<int>\<close>: any number and any boolean, narrowed to 32 bits.\<close>

definition get_int :: "json_lib \<Rightarrow> json \<Rightarrow> json_error + int" where
  "get_int J j = (case j of
      JInt n \<Rightarrow> Inr (to_int32 n)
    | JBool b \<Rightarrow> Inr (if b then 1 else 0)
    | JFloat f \<Rightarrow> Inr (to_int32 (float_int J f))
    | _ \<Rightarrow> Inl Type_error)"

definition get_string :: "json \<Rightarrow> json_error + string" where
  "get_string j = (case j of JStr s \<Rightarrow> Inr s | _ \<Rightarrow> Inl Type_error)"

text \<open>The two compositions the handlers use: \<open>js[k].get<int>()\<close> and \<open>string s = js[k]\<close>.\<close>

definition int_field :: "json_lib \<Rightarrow> json \<Rightarrow> string \<Rightarrow> json_error + int" where
  "int_field J j k = (case jindex j k of Inl e \<Rightarrow> Inl e | Inr v \<Rightarrow> get_int J v)"

definition string_field :: "json \<Rightarrow> string \<Rightarrow> json_error + string" where
  "string_field j k = (case jindex j k of Inl e \<Rightarrow> Inl e | Inr v \<Rightarrow> get_string v)"

subsection \<open>Building objects\<close>

text \<open>\<open>response[k] = v\<close>: insert or overwrite, keeping the keys of \<open>std::map\<close> in order.\<close>

fun put_field :: "string \<Rightarrow> json \<Rightarrow> (string \<times> json) list \<Rightarrow> (string \<times> json) list" where
  "put_field k v [] = [(k, v)]"
| "put_field k v ((k', v') # kvs) =
     (if k = k' then (k, v) # kvs
      else if k < k' then (k, v) # (k', v') # kvs
      else (k', v') # put_field k v kvs)"

definition jput :: "string \<Rightarrow> json \<Rightarrow> json \<Rightarrow> json" where
  "jput k v j = (case j of JObj kvs \<Rightarrow> JObj (put_field k v kvs) | _ \<Rightarrow> JObj [(k, v)])"

text \<open>An object built by a sequence of assignments to a fresh value.\<close>

definition jobj :: "(string \<times> json) list \<Rightarrow> json" where
  "jobj kvs = foldl (\<lambda>j kv. jput (fst kv) (snd kv) j) JNull kvs"

definition jstrings :: "string list \<Rightarrow> json" where
  "jstrings ss = JArr (map JStr ss)"

subsection \<open>Facts\<close>

lemma map_of_put_field [simp]: "map_of (put_field k v kvs) = (map_of kvs)(k \<mapsto> v)"
  by (induction k v kvs rule: put_field.induct) (auto simp: fun_eq_iff)

lemma jobj_obj:
  "kvs \<noteq> [] \<Longrightarrow> \<exists>fs. jobj kvs = JObj fs \<and> map_of fs = map_of (rev kvs)"
proof (induction kvs rule: rev_induct)
  case (snoc kv kvs)
  show ?case
  proof (cases "kvs = []")
    case True
    then show ?thesis by (cases kv) (simp add: jobj_def jput_def fun_eq_iff)
  next
    case False
    with snoc.IH obtain fs where fs: "jobj kvs = JObj fs" "map_of fs = map_of (rev kvs)" by blast
    then have "jobj (kvs @ [kv]) = JObj (put_field (fst kv) (snd kv) fs)"
      by (simp add: jobj_def jput_def)
    with fs(2) show ?thesis by (cases kv) (auto simp: fun_eq_iff)
  qed
qed simp

lemma jindex_jobj:
  "kvs \<noteq> [] \<Longrightarrow> jindex (jobj kvs) k = Inr (case map_of (rev kvs) k of Some v \<Rightarrow> v | None \<Rightarrow> JNull)"
  using jobj_obj [of kvs] by (auto simp: jindex_def)

lemma contains_jobj: "kvs \<noteq> [] \<Longrightarrow> contains (jobj kvs) k \<longleftrightarrow> k \<in> fst ` set kvs"
  using jobj_obj [of kvs] map_of_eq_None_iff [of "rev kvs" k]
  by (auto simp: contains_def simp del: not_None_eq)

lemma get_int_32: "get_int J j = Inr n \<Longrightarrow> is_int32 n"
  by (auto simp: get_int_def split: json.splits if_splits)

lemma int_field_32: "int_field J j k = Inr n \<Longrightarrow> is_int32 n"
  by (auto simp: int_field_def dest: get_int_32 split: sum.splits)

lemma int_field_jobj:
  "kvs \<noteq> [] \<Longrightarrow> map_of (rev kvs) k = Some (JInt n) \<Longrightarrow> int_field J (jobj kvs) k = Inr (to_int32 n)"
  by (simp add: int_field_def jindex_jobj get_int_def)

lemma string_field_jobj:
  "kvs \<noteq> [] \<Longrightarrow> map_of (rev kvs) k = Some (JStr s) \<Longrightarrow> string_field (jobj kvs) k = Inr s"
  by (simp add: string_field_def jindex_jobj get_string_def)

text \<open>A value whose \<open>msgid\<close> was read as an integer is an object.\<close>

lemma int_field_is_obj: "int_field J j k = Inr n \<Longrightarrow> \<exists>kvs. j = JObj kvs"
  by (cases j) (auto simp: int_field_def jindex_def get_int_def)

end
