(* ===== verification/Mysql.thy ===== *)
theory Mysql
  imports Prelude
begin

section \<open>The MySQL server and the code's SQL statements\<close>

text \<open>
  The statements are built as in the model classes: a \<open>printf\<close> format with user data escaped
  by \<open>MySQL::escape\<close>, written into a fixed buffer. The server itself (and its client library,
  \<open>mysql_query\<close>, \<open>mysql_real_escape_string\<close>, \<open>mysql_insert_id\<close>) is not part of the
  repository: it is the parameter \<open>M\<close> of every operation, and the locale \<open>mysql_server\<close> states
  what the code relies on, for the five tables of the README.
\<close>

subsection \<open>printf\<close>

datatype cval = CInt int | CStr string

text \<open>The conversions the code uses: \<open>d\<close> and \<open>s\<close>. A missing argument prints nothing.\<close>

fun sprintf :: "string \<Rightarrow> cval list \<Rightarrow> string" where
  "sprintf [] vs = []"
| "sprintf [c] vs = [c]"
| "sprintf (c # d # f) vs =
     (if c = CHR ''%'' \<and> d = CHR ''d'' then
        (case vs of CInt n # vs' \<Rightarrow> dec_int n @ sprintf f vs' | _ \<Rightarrow> sprintf f vs)
      else if c = CHR ''%'' \<and> d = CHR ''s'' then
        (case vs of CStr s # vs' \<Rightarrow> s @ sprintf f vs' | _ \<Rightarrow> sprintf f vs)
      else c # sprintf (d # f) vs)"

text \<open>
  \<open>sprintf\<close> into \<open>char sql[n]\<close>: a text that does not fit with its terminating zero byte
  overruns the array, which has no defined result. \<open>snprintf\<close> cuts the text.
\<close>

definition sprintf_buf :: "nat \<Rightarrow> string \<Rightarrow> cval list \<Rightarrow> string option" where
  "sprintf_buf n fmt vs = (let s = sprintf fmt vs in if length s < n then Some s else None)"

definition snprintf_buf :: "nat \<Rightarrow> string \<Rightarrow> cval list \<Rightarrow> string" where
  "snprintf_buf n fmt vs = take (n - 1) (sprintf fmt vs)"

text \<open>Reading a \<open>char *\<close> into a \<open>std::string\<close> stops at the first zero byte.\<close>

definition c_str :: "string \<Rightarrow> string" where
  "c_str s = takeWhile (\<lambda>c. c \<noteq> CHR 0x00) s"

lemma c_str_id [simp]: "CHR 0x00 \<notin> set s \<Longrightarrow> c_str s = s"
  by (auto simp: c_str_def takeWhile_eq_all_conv)

subsection \<open>The parameter\<close>

text \<open>
  \<open>acquire\<close> and \<open>release\<close> are \<open>PooledMySQL::acquire\<close> (did it return a connection) and the
  destructor at the end of the scope, on the state \<open>'db\<close> that holds the server and the pool.
\<close>

record 'db mysql =
  acquire :: "'db \<Rightarrow> bool \<times> 'db"
  release :: "'db \<Rightarrow> 'db"
  real_escape :: "string \<Rightarrow> string"
  mysql_update :: "string \<Rightarrow> 'db \<Rightarrow> bool \<times> 'db"
  mysql_select :: "string \<Rightarrow> 'db \<Rightarrow> string list list option \<times> 'db"
  insert_id :: "'db \<Rightarrow> int"

text \<open>\<open>MySQL::escape\<close>, \<open>MySQL::update\<close> and \<open>PooledMySQL::query\<close>.\<close>

definition escape :: "'db mysql \<Rightarrow> string \<Rightarrow> string" where
  "escape M str = c_str (real_escape M str)"

definition update_sql :: "'db mysql \<Rightarrow> string \<Rightarrow> 'db \<Rightarrow> bool \<times> 'db" where
  "update_sql M sql db = mysql_update M (c_str sql) db"

definition query_sql :: "'db mysql \<Rightarrow> string \<Rightarrow> 'db \<Rightarrow> string list list option \<times> 'db" where
  "query_sql M sql db = mysql_select M (c_str sql) db"

subsection \<open>The statements\<close>

definition fmt_insert_user :: string where
  "fmt_insert_user = ''insert into User(name, password, state) values('%s', '%s', '%s')''"
definition fmt_select_user :: string where
  "fmt_select_user = ''select * from User where id = %d''"
definition fmt_update_state :: string where
  "fmt_update_state = ''update User set state = '%s' where id = %d''"
definition fmt_update_name :: string where
  "fmt_update_name = ''update User set name = '%s' where id = %d''"
definition sql_reset_state :: string where
  "sql_reset_state = ''update User set state = 'offline' where state = 'online'' @ [CHR 0x27]"
definition fmt_insert_friend :: string where
  "fmt_insert_friend = ''insert ignore into Friend values(%d, %d)''"
definition fmt_select_friends :: string where
  "fmt_select_friends =
     ''select a.id,a.name,a.state from User a inner join Friend b on b.friendid = a.id where b.userid=%d''"
definition fmt_insert_group :: string where
  "fmt_insert_group = ''insert into AllGroup(groupname, groupdesc) values('%s', '%s')''"
definition fmt_insert_member :: string where
  "fmt_insert_member = ''insert into GroupUser values(%d, %d, '%s')''"
definition fmt_select_groups :: string where
  "fmt_select_groups =
     ''select a.id,a.groupname,a.groupdesc from AllGroup a inner join          GroupUser b on a.id = b.groupid where b.userid=%d''"
definition fmt_select_members :: string where
  "fmt_select_members =
     ''select a.id,a.name,a.state,b.grouprole from User a             inner join GroupUser b on b.userid = a.id where b.groupid=%d''"
definition fmt_select_member_ids :: string where
  "fmt_select_member_ids = ''select userid from GroupUser where groupid = %d and userid != %d''"
definition fmt_select_group :: string where
  "fmt_select_group = ''select id, groupname, groupdesc from AllGroup where id=%d''"
definition fmt_insert_offline :: string where
  "fmt_insert_offline = ''insert into OfflineMessage values(%d, '%s')''"
definition fmt_delete_offline :: string where
  "fmt_delete_offline = ''delete from OfflineMessage where userid=%d''"
definition fmt_select_offline :: string where
  "fmt_select_offline = ''select message from OfflineMessage where userid = %d''"

subsection \<open>The tables\<close>

text \<open>
  The five tables of the schema. \<open>members\<close> is keyed by group and user; the rows of
  \<open>OfflineMessage\<close> have no key and no order, so the messages of a user are a multiset.
\<close>

record tables =
  users :: "int \<rightharpoonup> string \<times> string \<times> string"
  friends :: "(int \<times> int) set"
  groups :: "int \<rightharpoonup> string \<times> string"
  members :: "int \<times> int \<rightharpoonup> string"
  offline :: "int \<Rightarrow> string multiset"

definition set_state :: "int \<Rightarrow> string \<Rightarrow> tables \<Rightarrow> tables" where
  "set_state uid st t = (case users t uid of
      None \<Rightarrow> t | Some (n, p, _) \<Rightarrow> t\<lparr>users := (users t)(uid \<mapsto> (n, p, st))\<rparr>)"

definition set_name :: "int \<Rightarrow> string \<Rightarrow> tables \<Rightarrow> tables" where
  "set_name uid n t = (case users t uid of
      None \<Rightarrow> t | Some (_, p, st) \<Rightarrow> t\<lparr>users := (users t)(uid \<mapsto> (n, p, st))\<rparr>)"

definition all_offline :: "tables \<Rightarrow> tables" where
  "all_offline t = t\<lparr>users := (\<lambda>i. map_option (\<lambda>(n, p, st).
      (n, p, if st = ''online'' then ''offline'' else st)) (users t i))\<rparr>"

definition add_friend :: "int \<Rightarrow> int \<Rightarrow> tables \<Rightarrow> tables" where
  "add_friend u f t = (if u \<in> dom (users t) \<and> f \<in> dom (users t)
      then t\<lparr>friends := insert (u, f) (friends t)\<rparr> else t)"

definition add_offline :: "int \<Rightarrow> string \<Rightarrow> tables \<Rightarrow> tables" where
  "add_offline u m t = t\<lparr>offline := (offline t)(u := add_mset m (offline t u))\<rparr>"

definition clear_offline :: "int \<Rightarrow> tables \<Rightarrow> tables" where
  "clear_offline u t = t\<lparr>offline := (offline t)(u := {#})\<rparr>"

subsection \<open>What the code relies on\<close>

text \<open>
  Each law is the documented effect of one statement under the README's schema. A statement
  may fail (the server is gone, a constraint is violated) and then changes nothing. \<open>T\<close> reads
  the tables off the state; names are compared up to the collation \<open>K\<close>.
\<close>

locale mysql_server =
  fixes M :: "'db mysql" and T :: "'db \<Rightarrow> tables" and K :: "string \<Rightarrow> string"
  assumes tabs_acquire: "T (snd (acquire M db)) = T db"
    and tabs_release: "T (release M db) = T db"
    and tabs_select: "take 7 q = ''select '' \<Longrightarrow> T (snd (query_sql M q db)) = T db"
    and update_failed: "update_sql M q db = (False, db') \<Longrightarrow> T db' = T db"
    and escape_length: "length (escape M s) \<le> 2 * length s"
    and user_inserted: "update_sql M (sprintf fmt_insert_user
          [CStr (escape M n), CStr (escape M p), CStr (escape M st)]) db = (True, db') \<Longrightarrow>
        insert_id M db' \<notin> dom (users (T db)) \<and> 0 < insert_id M db' \<and> is_int32 (insert_id M db') \<and>
        (\<forall>i row. users (T db) i = Some row \<longrightarrow> K (fst row) \<noteq> K n) \<and>
        T db' = (T db)\<lparr>users := (users (T db))(insert_id M db' \<mapsto> (n, p, st))\<rparr>"
    and state_updated: "update_sql M (sprintf fmt_update_state [CStr (escape M st), CInt uid]) db = (True, db') \<Longrightarrow>
        T db' = set_state uid st (T db)"
    and name_updated: "update_sql M (sprintf fmt_update_name [CStr (escape M n), CInt uid]) db = (True, db') \<Longrightarrow>
        T db' = set_name uid n (T db) \<and> (uid \<in> dom (users (T db)) \<longrightarrow>
          (\<forall>i row. users (T db) i = Some row \<longrightarrow> K (fst row) = K n \<longrightarrow> i = uid))"
    and states_reset: "update_sql M sql_reset_state db = (True, db') \<Longrightarrow> T db' = all_offline (T db)"
    and friend_inserted: "update_sql M (sprintf fmt_insert_friend [CInt u, CInt f]) db = (True, db') \<Longrightarrow>
        T db' = add_friend u f (T db)"
    and group_inserted: "update_sql M (sprintf fmt_insert_group
          [CStr (escape M n), CStr (escape M d)]) db = (True, db') \<Longrightarrow>
        insert_id M db' \<notin> dom (groups (T db)) \<and> 0 < insert_id M db' \<and> is_int32 (insert_id M db') \<and>
        T db' = (T db)\<lparr>groups := (groups (T db))(insert_id M db' \<mapsto> (n, d))\<rparr>"
    and member_inserted: "update_sql M (sprintf fmt_insert_member
          [CInt g, CInt u, CStr (escape M r)]) db = (True, db') \<Longrightarrow>
        g \<in> dom (groups (T db)) \<and> u \<in> dom (users (T db)) \<and> (g, u) \<notin> dom (members (T db)) \<and>
        T db' = (T db)\<lparr>members := (members (T db))((g, u) \<mapsto> r)\<rparr>"
    and offline_inserted: "update_sql M (sprintf fmt_insert_offline [CInt u, CStr (escape M m)]) db = (True, db') \<Longrightarrow>
        u \<in> dom (users (T db)) \<and> T db' = add_offline u m (T db)"
    and offline_cut: "k < length (sprintf fmt_insert_offline [CInt u, CStr (escape M m)]) \<Longrightarrow>
        \<not> fst (update_sql M (take k (sprintf fmt_insert_offline [CInt u, CStr (escape M m)])) db)"
    and offline_deleted: "update_sql M (sprintf fmt_delete_offline [CInt u]) db = (True, db') \<Longrightarrow>
        T db' = clear_offline u (T db)"
    and user_selected: "query_sql M (sprintf fmt_select_user [CInt u]) db = (Some rows, db') \<Longrightarrow>
        rows = (case users (T db) u of None \<Rightarrow> [] | Some (n, p, st) \<Rightarrow> [[dec_int u, n, p, st]])"
    and friends_selected: "query_sql M (sprintf fmt_select_friends [CInt u]) db = (Some rows, db') \<Longrightarrow>
        distinct rows \<and> set rows = {[dec_int f, n, st] | f n p st.
          (u, f) \<in> friends (T db) \<and> users (T db) f = Some (n, p, st)}"
    and groups_selected: "query_sql M (sprintf fmt_select_groups [CInt u]) db = (Some rows, db') \<Longrightarrow>
        distinct rows \<and> set rows = {[dec_int g, n, d] | g n d.
          (g, u) \<in> dom (members (T db)) \<and> groups (T db) g = Some (n, d)}"
    and members_selected: "query_sql M (sprintf fmt_select_members [CInt g]) db = (Some rows, db') \<Longrightarrow>
        distinct rows \<and> set rows = {[dec_int u, n, st, r] | u n p st r.
          members (T db) (g, u) = Some r \<and> users (T db) u = Some (n, p, st)}"
    and member_ids_selected: "query_sql M (sprintf fmt_select_member_ids [CInt g, CInt u]) db = (Some rows, db') \<Longrightarrow>
        distinct rows \<and> set rows = {[dec_int v] | v. (g, v) \<in> dom (members (T db)) \<and> v \<noteq> u}"
    and group_selected: "query_sql M (sprintf fmt_select_group [CInt g]) db = (Some rows, db') \<Longrightarrow>
        rows = (case groups (T db) g of None \<Rightarrow> [] | Some (n, d) \<Rightarrow> [[dec_int g, n, d]])"
    and offline_selected: "query_sql M (sprintf fmt_select_offline [CInt u]) db = (Some rows, db') \<Longrightarrow>
        mset rows = image_mset (\<lambda>m. [m]) (offline (T db) u)"

text \<open>
  A server that is up: from a \<open>ready\<close> state a connection is acquired, and while it is
  held (\<open>busy\<close>) every statement that violates no constraint succeeds.
\<close>

locale reliable_mysql = mysql_server M T K
  for M :: "'db mysql" and T :: "'db \<Rightarrow> tables" and K :: "string \<Rightarrow> string" +
  fixes ready :: "'db \<Rightarrow> bool" and busy :: "'db \<Rightarrow> bool"
  assumes acquire_ok: "ready db \<Longrightarrow> fst (acquire M db) \<and> busy (snd (acquire M db))"
    and release_ok: "busy db \<Longrightarrow> ready (release M db)"
    and update_busy: "busy db \<Longrightarrow> busy (snd (update_sql M q db))"
    and select_busy: "busy db \<Longrightarrow> busy (snd (query_sql M q db))"
    and select_ok: "busy db \<Longrightarrow> q \<in>
        {sprintf fmt_select_user [CInt u], sprintf fmt_select_friends [CInt u],
         sprintf fmt_select_groups [CInt u], sprintf fmt_select_members [CInt u],
         sprintf fmt_select_member_ids [CInt u, CInt v], sprintf fmt_select_group [CInt u],
         sprintf fmt_select_offline [CInt u]} \<Longrightarrow> fst (query_sql M q db) \<noteq> None"
    and user_insert_ok: "busy db \<Longrightarrow> dom (users (T db)) \<subseteq> {..<2 ^ 31 - 1} \<Longrightarrow> length n \<le> 50 \<Longrightarrow> length p \<le> 100 \<Longrightarrow> st \<in> {''online'', ''offline''} \<Longrightarrow>
        (\<And>i row. users (T db) i = Some row \<Longrightarrow> K (fst row) \<noteq> K n) \<Longrightarrow>
        fst (update_sql M (sprintf fmt_insert_user [CStr (escape M n), CStr (escape M p), CStr (escape M st)]) db)"
    and state_update_ok: "busy db \<Longrightarrow> st \<in> {''online'', ''offline''} \<Longrightarrow>
        fst (update_sql M (sprintf fmt_update_state [CStr (escape M st), CInt uid]) db)"
    and reset_ok: "busy db \<Longrightarrow> fst (update_sql M sql_reset_state db)"
    and friend_ok: "busy db \<Longrightarrow> fst (update_sql M (sprintf fmt_insert_friend [CInt u, CInt f]) db)"
    and offline_ok: "busy db \<Longrightarrow> u \<in> dom (users (T db)) \<Longrightarrow> length m \<le> 65535 \<Longrightarrow>
        fst (update_sql M (sprintf fmt_insert_offline [CInt u, CStr (escape M m)]) db)"
    and delete_ok: "busy db \<Longrightarrow> fst (update_sql M (sprintf fmt_delete_offline [CInt u]) db)"

end
