(* ===== verification/Models.thy ===== *)
theory Models
  imports Mysql
begin

section \<open>The model classes: users, friends, groups and offline messages\<close>

text \<open>
  \<open>usermodel.cpp\<close>, \<open>friendmoel.cpp\<close>, \<open>groupmodel.cpp\<close>, \<open>offlinemessagemodel.cpp\<close> and the
  value classes of \<open>include/server/model\<close>. Every operation takes a pooled connection, runs
  its statements and gives the connection back at the end of the scope (\<open>with_conn\<close>); when no
  connection comes it returns its default. The result \<open>None\<close> stands for the undefined
  behaviour of a \<open>sprintf\<close> past the end of \<open>sql\<close>.
\<close>

subsection \<open>The value classes\<close>

record user =
  uid :: int
  uname :: string
  upwd :: string
  ustate :: string

definition new_user :: user where
  "new_user = \<lparr>uid = -1, uname = [], upwd = [], ustate = ''offline''\<rparr>"

text \<open>\<open>GroupUser\<close> derives from \<open>User\<close>.\<close>

record group_user = user +
  urole :: string

record group =
  gid :: int
  gname :: string
  gdesc :: string
  gusers :: "group_user list"

definition new_group :: group where
  "new_group = \<lparr>gid = -1, gname = [], gdesc = [], gusers = []\<rparr>"

subsection \<open>Connections and rows\<close>

definition with_conn ::
  "'db mysql \<Rightarrow> 'a \<Rightarrow> ('db \<Rightarrow> ('a \<times> 'db) option) \<Rightarrow> 'db \<Rightarrow> ('a \<times> 'db) option" where
  "with_conn M fail body db =
     (let (got, db1) = acquire M db in
      if \<not> got then Some (fail, db1)
      else do { (x, db2) \<leftarrow> body db1; Some (x, release M db2) })"

text \<open>A column of a row, as a \<open>std::string\<close> is made from it.\<close>

definition col :: "string list \<Rightarrow> nat \<Rightarrow> string" where
  "col row i = (if i < length row then c_str (row ! i) else [])"

text \<open>\<open>mysql_query\<close> and the fetch loop, one value per row; a failed query has no rows.\<close>

definition select_rows :: "'db mysql \<Rightarrow> string \<Rightarrow> (string list \<Rightarrow> 'a) \<Rightarrow> 'db \<Rightarrow> 'a list \<times> 'db" where
  "select_rows M sql f db =
     (let (res, db') = query_sql M sql db in
      ((case res of None \<Rightarrow> [] | Some rows \<Rightarrow> map f rows), db'))"

subsection \<open>UserModel\<close>

definition UserModel_insert :: "'db mysql \<Rightarrow> user \<Rightarrow> 'db \<Rightarrow> ((bool \<times> user) \<times> 'db) option" where
  "UserModel_insert M u = with_conn M (False, u) (\<lambda>db. do {
     sql \<leftarrow> sprintf_buf 1024 fmt_insert_user
       [CStr (escape M (uname u)), CStr (escape M (upwd u)), CStr (escape M (ustate u))];
     let (ok, db') = update_sql M sql db;
     Some (if ok then (True, u\<lparr>uid := to_int32 (insert_id M db')\<rparr>) else (False, u), db')
   })"

definition UserModel_query :: "'db mysql \<Rightarrow> int \<Rightarrow> 'db \<Rightarrow> (user \<times> 'db) option" where
  "UserModel_query M userid = with_conn M new_user (\<lambda>db.
     let (rows, db') = select_rows M (sprintf fmt_select_user [CInt userid])
           (\<lambda>row. \<lparr>uid = atoi (col row 0), uname = col row 1, upwd = col row 2, ustate = col row 3\<rparr>) db in
     Some (case rows of [] \<Rightarrow> new_user | u # _ \<Rightarrow> u, db'))"

definition UserModel_updateState :: "'db mysql \<Rightarrow> user \<Rightarrow> 'db \<Rightarrow> (bool \<times> 'db) option" where
  "UserModel_updateState M u = with_conn M False (\<lambda>db. do {
     sql \<leftarrow> sprintf_buf 1024 fmt_update_state [CStr (escape M (ustate u)), CInt (uid u)];
     Some (update_sql M sql db)
   })"

definition UserModel_updateName :: "'db mysql \<Rightarrow> int \<Rightarrow> string \<Rightarrow> 'db \<Rightarrow> (bool \<times> 'db) option" where
  "UserModel_updateName M userid name = with_conn M False (\<lambda>db. do {
     sql \<leftarrow> sprintf_buf 1024 fmt_update_name [CStr (escape M name), CInt userid];
     Some (update_sql M sql db)
   })"

definition UserModel_resetState :: "'db mysql \<Rightarrow> 'db \<Rightarrow> (unit \<times> 'db) option" where
  "UserModel_resetState M = with_conn M () (\<lambda>db. Some ((), snd (update_sql M sql_reset_state db)))"

subsection \<open>FriendModel\<close>

definition FriendModel_insert :: "'db mysql \<Rightarrow> int \<Rightarrow> int \<Rightarrow> 'db \<Rightarrow> (unit \<times> 'db) option" where
  "FriendModel_insert M userid friendid = with_conn M () (\<lambda>db.
     Some ((), snd (update_sql M (sprintf fmt_insert_friend [CInt userid, CInt friendid]) db)))"

definition FriendModel_query :: "'db mysql \<Rightarrow> int \<Rightarrow> 'db \<Rightarrow> (user list \<times> 'db) option" where
  "FriendModel_query M userid = with_conn M [] (\<lambda>db.
     Some (select_rows M (sprintf fmt_select_friends [CInt userid])
       (\<lambda>row. new_user\<lparr>uid := atoi (col row 0), uname := col row 1, ustate := col row 2\<rparr>) db))"

subsection \<open>GroupModel\<close>

definition GroupModel_createGroup :: "'db mysql \<Rightarrow> group \<Rightarrow> 'db \<Rightarrow> ((bool \<times> group) \<times> 'db) option" where
  "GroupModel_createGroup M g = with_conn M (False, g) (\<lambda>db. do {
     sql \<leftarrow> sprintf_buf 1024 fmt_insert_group [CStr (escape M (gname g)), CStr (escape M (gdesc g))];
     let (ok, db') = update_sql M sql db;
     Some (if ok then (True, g\<lparr>gid := to_int32 (insert_id M db')\<rparr>) else (False, g), db')
   })"

definition GroupModel_addGroup :: "'db mysql \<Rightarrow> int \<Rightarrow> int \<Rightarrow> string \<Rightarrow> 'db \<Rightarrow> (unit \<times> 'db) option" where
  "GroupModel_addGroup M userid groupid role = with_conn M () (\<lambda>db. do {
     sql \<leftarrow> sprintf_buf 1024 fmt_insert_member [CInt groupid, CInt userid, CStr (escape M role)];
     Some ((), snd (update_sql M sql db))
   })"

text \<open>The second loop of \<open>queryGroups\<close>: the members of each group, on the same connection.\<close>

fun fill_groups :: "'db mysql \<Rightarrow> group list \<Rightarrow> 'db \<Rightarrow> group list \<times> 'db" where
  "fill_groups M [] db = ([], db)"
| "fill_groups M (g # gs) db =
     (let (us, db1) = select_rows M (sprintf fmt_select_members [CInt (gid g)])
            (\<lambda>row. \<lparr>uid = atoi (col row 0), uname = col row 1, upwd = [], ustate = col row 2,
               urole = col row 3\<rparr>) db;
          (gs', db2) = fill_groups M gs db1
      in (g\<lparr>gusers := gusers g @ us\<rparr> # gs', db2))"

definition GroupModel_queryGroups :: "'db mysql \<Rightarrow> int \<Rightarrow> 'db \<Rightarrow> (group list \<times> 'db) option" where
  "GroupModel_queryGroups M userid = with_conn M [] (\<lambda>db.
     let (gs, db') = select_rows M (sprintf fmt_select_groups [CInt userid])
           (\<lambda>row. new_group\<lparr>gid := atoi (col row 0), gname := col row 1, gdesc := col row 2\<rparr>) db
     in Some (fill_groups M gs db'))"

definition GroupModel_queryGroupUsers :: "'db mysql \<Rightarrow> int \<Rightarrow> int \<Rightarrow> 'db \<Rightarrow> (int list \<times> 'db) option" where
  "GroupModel_queryGroupUsers M userid groupid = with_conn M [] (\<lambda>db.
     Some (select_rows M (sprintf fmt_select_member_ids [CInt groupid, CInt userid])
       (\<lambda>row. atoi (col row 0)) db))"

definition GroupModel_queryGroup :: "'db mysql \<Rightarrow> int \<Rightarrow> 'db \<Rightarrow> (group \<times> 'db) option" where
  "GroupModel_queryGroup M groupid = with_conn M new_group (\<lambda>db.
     let (rows, db') = select_rows M (sprintf fmt_select_group [CInt groupid])
           (\<lambda>row. new_group\<lparr>gid := atoi (col row 0), gname := col row 1, gdesc := col row 2\<rparr>) db in
     Some (case rows of [] \<Rightarrow> new_group | g # _ \<Rightarrow> g, db'))"

subsection \<open>OfflineMsgModel\<close>

definition OfflineMsgModel_insert :: "'db mysql \<Rightarrow> int \<Rightarrow> string \<Rightarrow> 'db \<Rightarrow> (unit \<times> 'db) option" where
  "OfflineMsgModel_insert M userid msg = with_conn M () (\<lambda>db.
     Some ((), snd (update_sql M
       (snprintf_buf 2048 fmt_insert_offline [CInt userid, CStr (escape M msg)]) db)))"

definition OfflineMsgModel_remove :: "'db mysql \<Rightarrow> int \<Rightarrow> 'db \<Rightarrow> (unit \<times> 'db) option" where
  "OfflineMsgModel_remove M userid = with_conn M () (\<lambda>db.
     Some ((), snd (update_sql M (sprintf fmt_delete_offline [CInt userid]) db)))"

definition OfflineMsgModel_query :: "'db mysql \<Rightarrow> int \<Rightarrow> 'db \<Rightarrow> (string list \<times> 'db) option" where
  "OfflineMsgModel_query M userid = with_conn M [] (\<lambda>db.
     Some (select_rows M (sprintf fmt_select_offline [CInt userid]) (\<lambda>row. col row 0) db))"

lemmas model_defs = UserModel_insert_def UserModel_query_def UserModel_updateState_def
  UserModel_updateName_def UserModel_resetState_def FriendModel_insert_def FriendModel_query_def
  GroupModel_createGroup_def GroupModel_addGroup_def GroupModel_queryGroups_def
  GroupModel_queryGroupUsers_def GroupModel_queryGroup_def OfflineMsgModel_insert_def
  OfflineMsgModel_remove_def OfflineMsgModel_query_def

subsection \<open>The texts of the statements\<close>

lemma select_prefix [simp]:
  "take 7 (sprintf fmt_select_user vs) = ''select ''"
  "take 7 (sprintf fmt_select_friends vs) = ''select ''"
  "take 7 (sprintf fmt_select_groups vs) = ''select ''"
  "take 7 (sprintf fmt_select_members vs) = ''select ''"
  "take 7 (sprintf fmt_select_member_ids vs) = ''select ''"
  "take 7 (sprintf fmt_select_group vs) = ''select ''"
  "take 7 (sprintf fmt_select_offline vs) = ''select ''"
  by (simp_all add: fmt_select_user_def fmt_select_friends_def fmt_select_groups_def
    fmt_select_members_def fmt_select_member_ids_def fmt_select_group_def fmt_select_offline_def)

text \<open>The statements whose only arguments are \<open>int\<close>s always fit into \<open>char sql[1024]\<close>.\<close>

lemma int_statements_fit:
  assumes "is_int32 a" and "is_int32 b"
  shows "length (sprintf fmt_select_user [CInt a]) < 1024"
    "length (sprintf fmt_insert_friend [CInt a, CInt b]) < 1024"
    "length (sprintf fmt_select_friends [CInt a]) < 1024"
    "length (sprintf fmt_select_groups [CInt a]) < 1024"
    "length (sprintf fmt_select_members [CInt a]) < 1024"
    "length (sprintf fmt_select_member_ids [CInt a, CInt b]) < 1024"
    "length (sprintf fmt_select_group [CInt a]) < 1024"
    "length (sprintf fmt_delete_offline [CInt a]) < 1024"
    "length (sprintf fmt_select_offline [CInt a]) < 1024"
  using dec_int_length [OF assms(1)] dec_int_length [OF assms(2)]
  by (simp_all add: fmt_select_user_def fmt_insert_friend_def fmt_select_friends_def
    fmt_select_groups_def fmt_select_members_def fmt_select_member_ids_def fmt_select_group_def
    fmt_delete_offline_def fmt_select_offline_def)

lemma statement_lengths:
  "length (sprintf fmt_insert_user [CStr a, CStr b, CStr c]) = 58 + length a + length b + length c"
  "length (sprintf fmt_update_state [CStr a, CInt i]) = 38 + length a + length (dec_int i)"
  "length (sprintf fmt_update_name [CStr a, CInt i]) = 37 + length a + length (dec_int i)"
  "length (sprintf fmt_insert_group [CStr a, CStr b]) = 57 + length a + length b"
  "length (sprintf fmt_insert_member [CInt i, CInt j, CStr a]) = 36 + length (dec_int i) + length (dec_int j) + length a"
  "length (sprintf fmt_insert_offline [CInt i, CStr a]) = 39 + length (dec_int i) + length a"
  by (simp_all add: fmt_insert_user_def fmt_update_state_def fmt_update_name_def fmt_insert_group_def
    fmt_insert_member_def fmt_insert_offline_def)

subsection \<open>What the operations do to the tables\<close>

text \<open>The rows as the classes see them: \<open>char *\<close> columns end at the first zero byte.\<close>

definition user_of :: "tables \<Rightarrow> int \<Rightarrow> user" where
  "user_of t i = (case users t i of
      None \<Rightarrow> new_user
    | Some (n, p, st) \<Rightarrow> \<lparr>uid = i, uname = c_str n, upwd = c_str p, ustate = c_str st\<rparr>)"

definition friend_of :: "tables \<Rightarrow> int \<Rightarrow> user" where
  "friend_of t f = (user_of t f)\<lparr>upwd := []\<rparr>"

definition friend_ids :: "tables \<Rightarrow> int \<Rightarrow> int set" where
  "friend_ids t u = {f. (u, f) \<in> friends t \<and> f \<in> dom (users t)}"

definition group_of :: "tables \<Rightarrow> int \<Rightarrow> group" where
  "group_of t g = (case groups t g of
      None \<Rightarrow> new_group
    | Some (n, d) \<Rightarrow> \<lparr>gid = g, gname = c_str n, gdesc = c_str d, gusers = []\<rparr>)"

definition member_ids :: "tables \<Rightarrow> int \<Rightarrow> int \<Rightarrow> int set" where
  "member_ids t g u = {v. (g, v) \<in> dom (members t) \<and> v \<noteq> u}"

definition group_ids :: "tables \<Rightarrow> int \<Rightarrow> int set" where
  "group_ids t u = {g. (g, u) \<in> dom (members t) \<and> g \<in> dom (groups t)}"

definition user_ids_of_group :: "tables \<Rightarrow> int \<Rightarrow> int set" where
  "user_ids_of_group t g = {v. (g, v) \<in> dom (members t) \<and> v \<in> dom (users t)}"

definition member_of :: "tables \<Rightarrow> int \<Rightarrow> int \<Rightarrow> group_user" where
  "member_of t g v = \<lparr>uid = v, uname = uname (user_of t v), upwd = [], ustate = ustate (user_of t v),
     urole = c_str (the (members t (g, v)))\<rparr>"

text \<open>Rows without repetition that encode the elements of a set list that set.\<close>

lemma rows_of_set:
  assumes "distinct rows" and "set rows = r ` A" and "inj_on r A"
  obtains as where "distinct as" "set as = A" "rows = map r as"
proof (rule that)
  have sub: "\<And>x. x \<in> set rows \<Longrightarrow> r (inv_into A r x) = x" using assms(2) by (auto simp: f_inv_into_f)
  show "rows = map r (map (inv_into A r) rows)" using sub by (simp add: comp_def map_idI)
  show "set (map (inv_into A r) rows) = A" using assms(2,3) by (auto simp: image_image)
  have "distinct (map r (map (inv_into A r) rows))" using assms(1) sub by (simp add: comp_def map_idI)
  then show "distinct (map (inv_into A r) rows)" by (metis distinct_map)
qed

lemma member_rows_set: "{[dec_int u, n, st, r] | u n p st r. members t (g, u) = Some r \<and> users t u = Some (n, p, st)}
   = (\<lambda>v. [dec_int v, fst (the (users t v)), snd (snd (the (users t v))), the (members t (g, v))]) ` user_ids_of_group t g"
  (is "?L = ?f ` ?A")
proof
  show "?L \<subseteq> ?f ` ?A" by (auto simp: user_ids_of_group_def image_iff dom_def)
  show "?f ` ?A \<subseteq> ?L" by (auto simp: user_ids_of_group_def)
qed

lemma group_rows_set: "{[dec_int g, n, d] | g n d. (g, u) \<in> dom (members t) \<and> groups t g = Some (n, d)}
   = (\<lambda>g. [dec_int g, fst (the (groups t g)), snd (the (groups t g))]) ` group_ids t u"
  (is "?L = ?f ` ?A")
proof
  show "?L \<subseteq> ?f ` ?A" by (auto simp: group_ids_def image_iff dom_def)
  show "?f ` ?A \<subseteq> ?L" by (auto simp: group_ids_def)
qed
lemma uid_user_of: "uid (user_of t i) = i \<or> user_of t i = new_user"
  by (auto simp: user_of_def split: option.split)

lemma c_str_dec_int [simp]: "c_str (dec_int n) = dec_int n"
  by (rule c_str_id) (auto dest!: dec_int_chars simp: is_digit_def)

text \<open>No connection, or one on which the statement fails.\<close>

definition unavailable :: "'db mysql \<Rightarrow> string \<Rightarrow> 'db \<Rightarrow> bool" where
  "unavailable M q db \<longleftrightarrow> \<not> fst (acquire M db) \<or> fst (query_sql M q (snd (acquire M db))) = None"

lemma with_conn_Some:
  assumes "with_conn M fail body db = Some (x, db')"
  obtains (none) "x = fail" "db' = snd (acquire M db)" "\<not> fst (acquire M db)"
    | (conn) db2 where "fst (acquire M db)" "body (snd (acquire M db)) = Some (x, db2)" "db' = release M db2"
  using assms by (auto simp: with_conn_def Let_def split: prod.splits if_splits bind_splits)

lemma with_conn_total:
  "(\<And>db. returns (body db)) \<Longrightarrow> returns (with_conn M fail body db)"
  by (auto simp: with_conn_def Let_def intro!: returns_bind split: prod.splits)

text \<open>The operations without \<open>sprintf\<close> of a text always return.\<close>

lemma model_returns [total_intros, simp]:
  "returns (UserModel_query M i db)" "returns (UserModel_resetState M db)"
  "returns (FriendModel_insert M u f db)" "returns (FriendModel_query M u db)"
  "returns (GroupModel_queryGroups M u db)" "returns (GroupModel_queryGroupUsers M u g db)"
  "returns (GroupModel_queryGroup M g db)" "returns (OfflineMsgModel_insert M u m db)"
  "returns (OfflineMsgModel_remove M u db)" "returns (OfflineMsgModel_query M u db)"
  by (auto simp: model_defs Let_def intro!: with_conn_total split: prod.split)

lemma sprintf_buf_returns [simp]: "returns (sprintf_buf n fmt vs) \<longleftrightarrow> length (sprintf fmt vs) < n"
  by (simp add: sprintf_buf_def Let_def)

lemma insert_returns:
  assumes "length (escape M (uname u)) + length (escape M (upwd u)) + length (escape M (ustate u)) < 966"
  shows "returns (UserModel_insert M u db)"
  using assms unfolding UserModel_insert_def
  by (auto intro!: with_conn_total returns_bind simp: statement_lengths split: prod.split)

lemma createGroup_returns:
  assumes "length (escape M (gname g)) + length (escape M (gdesc g)) < 967"
  shows "returns (GroupModel_createGroup M g db)"
  using assms unfolding GroupModel_createGroup_def
  by (auto intro!: with_conn_total returns_bind simp: statement_lengths split: prod.split)

lemma updateName_returns:
  assumes "is_int32 i" and "length (escape M n) < 976"
  shows "returns (UserModel_updateName M i n db)"
  using assms dec_int_length [OF assms(1)] unfolding UserModel_updateName_def
  by (auto intro!: with_conn_total returns_bind simp: statement_lengths split: prod.split)

context mysql_server begin

lemma updateState_returns:
  assumes "is_int32 (uid u)" and "ustate u \<in> {''online'', ''offline''}"
  shows "returns (UserModel_updateState M u db)"
  using assms(2) dec_int_length [OF assms(1)] escape_length [of "ustate u"] unfolding UserModel_updateState_def
  by (auto intro!: with_conn_total returns_bind simp: statement_lengths)

lemma addGroup_returns:
  assumes "is_int32 u" and "is_int32 g" and "length r \<le> 100"
  shows "returns (GroupModel_addGroup M u g r db)"
  using dec_int_length [OF assms(1)] dec_int_length [OF assms(2)] assms(3) escape_length [of r]
  unfolding GroupModel_addGroup_def
  by (auto intro!: with_conn_total returns_bind simp: statement_lengths)

lemma with_conn_tabs:
  assumes "with_conn M fail body db = Some (x, db')"
  obtains (none) "x = fail" "T db' = T db"
    | (conn) db1 db2 where "T db1 = T db" "body db1 = Some (x, db2)" "T db' = T db2"
  using assms
proof (cases rule: with_conn_Some)
  case none
  then show ?thesis by (intro that(1)) (simp_all add: tabs_acquire)
next
  case (conn db2)
  then show ?thesis by (intro that(2)) (simp_all add: tabs_acquire tabs_release)
qed

lemma update_cases:
  assumes "update_sql M q db = (ok, db')"
  shows "if ok then update_sql M q db = (True, db') else T db' = T db"
  using assms update_failed [of q db db'] by (cases ok) auto

lemma tabs_select_rows:
  "take 7 q = ''select '' \<Longrightarrow> T (snd (select_rows M q f db)) = T db"
  using tabs_select [of q db] by (cases "query_sql M q db") (simp add: select_rows_def)

lemma user_insert:
  assumes "UserModel_insert M u db = Some ((ok, u'), db')"
  shows "if ok then
      (\<exists>i. i \<notin> dom (users (T db)) \<and> 0 < i \<and> is_int32 i \<and> u' = u\<lparr>uid := i\<rparr> \<and>
        (\<forall>j row. users (T db) j = Some row \<longrightarrow> K (fst row) \<noteq> K (uname u)) \<and>
        T db' = (T db)\<lparr>users := (users (T db))(i \<mapsto> (uname u, upwd u, ustate u))\<rparr>)
    else u' = u \<and> T db' = T db"
  using assms unfolding UserModel_insert_def
proof (cases rule: with_conn_tabs)
  case (conn db1 db2)
  obtain b db3 where up: "update_sql M (sprintf fmt_insert_user
      [CStr (escape M (uname u)), CStr (escape M (upwd u)), CStr (escape M (ustate u))]) db1 = (b, db3)"
    by fastforce
  have "b = ok" "db2 = db3" "u' = (if ok then u\<lparr>uid := to_int32 (insert_id M db3)\<rparr> else u)"
    using conn(2) up by (auto simp: sprintf_buf_def Let_def split: if_splits)
  with conn(1,3) up user_inserted [of "uname u" "upwd u" "ustate u" db1 db3] update_cases [OF up]
  show ?thesis by (cases ok) auto
qed auto

text \<open>
  An operation that runs one selection: its result is computed from the rows, or from no rows
  when no connection came or the statement failed.
\<close>

lemma select_op:
  assumes "with_conn M (h []) (\<lambda>db. let (rows, db') = select_rows M q f db in Some (h rows, db')) db = Some (x, db')"
    and "take 7 q = ''select ''"
  obtains (none) "T db' = T db" "unavailable M q db" "x = h []"
    | (rows) rows db1 db2 where "T db' = T db" "T db1 = T db" "query_sql M q db1 = (Some rows, db2)" "x = h (map f rows)"
proof -
  let ?db1 = "snd (acquire M db)"
  obtain res db2 where q: "query_sql M q ?db1 = (res, db2)" by fastforce
  have t: "T db2 = T db" "T ?db1 = T db" using tabs_select [OF assms(2), of ?db1] q by (simp_all add: tabs_acquire)
  from assms(1) show thesis
  proof (cases rule: with_conn_Some)
    case none
    with t show thesis by (intro that(1)) (simp_all add: unavailable_def)
  next
    case (conn db3)
    show thesis
    proof (cases res)
      case None
      with conn q t show thesis by (intro that(1)) (auto simp: unavailable_def select_rows_def tabs_release)
    next
      case (Some rows)
      with conn q t show thesis by (intro that(2) [of ?db1 rows db2]) (auto simp: select_rows_def tabs_release)
    qed
  qed
qed

lemmas select_op_rows = select_op [where h = "\<lambda>rows. rows", unfolded Let_def case_prod_eta]

lemma user_query:
  assumes "UserModel_query M i db = Some (u, db')"
  shows "T db' = T db \<and> (u = user_of (T db) i \<or> (unavailable M (sprintf fmt_select_user [CInt i]) db \<and> u = new_user))"
  using assms unfolding UserModel_query_def
  by (rule select_op [where h = "\<lambda>rows. case rows of [] \<Rightarrow> new_user | u # _ \<Rightarrow> u", unfolded list.case])
    (auto dest!: user_selected simp: user_of_def col_def split: option.splits)

lemma user_updateState:
  assumes "UserModel_updateState M u db = Some (ok, db')"
  shows "T db' = (if ok then set_state (uid u) (ustate u) (T db) else T db)"
  using assms unfolding UserModel_updateState_def
proof (cases rule: with_conn_tabs)
  case (conn db1 db2)
  then have "update_sql M (sprintf fmt_update_state [CStr (escape M (ustate u)), CInt (uid u)]) db1 = (ok, db2)"
    by (auto simp: sprintf_buf_def Let_def split: if_splits)
  with conn update_cases [OF this] state_updated [of "ustate u" "uid u" db1 db2]
  show ?thesis by (cases ok) auto
qed auto

lemma user_updateName:
  assumes "UserModel_updateName M i n db = Some (ok, db')"
  shows "T db' = (if ok then set_name i n (T db) else T db)"
    and "ok \<Longrightarrow> i \<in> dom (users (T db)) \<Longrightarrow> users (T db) j = Some row \<Longrightarrow> K (fst row) = K n \<Longrightarrow> j = i"
proof -
  have "T db' = (if ok then set_name i n (T db) else T db) \<and>
    (ok \<longrightarrow> i \<in> dom (users (T db)) \<longrightarrow> users (T db) j = Some row \<longrightarrow> K (fst row) = K n \<longrightarrow> j = i)"
    using assms unfolding UserModel_updateName_def
  proof (cases rule: with_conn_tabs)
    case (conn db1 db2)
    then have "update_sql M (sprintf fmt_update_name [CStr (escape M n), CInt i]) db1 = (ok, db2)"
      by (auto simp: sprintf_buf_def Let_def split: if_splits)
    with conn(1,3) update_cases [OF this] name_updated [of n i db1 db2]
    show ?thesis by (cases ok; cases row) auto
  qed auto
  then show "T db' = (if ok then set_name i n (T db) else T db)"
    and "ok \<Longrightarrow> i \<in> dom (users (T db)) \<Longrightarrow> users (T db) j = Some row \<Longrightarrow> K (fst row) = K n \<Longrightarrow> j = i"
    by auto
qed

lemma update_or_not:
  assumes "with_conn M () (\<lambda>db. Some ((), snd (update_sql M q db))) db = Some (x, db')"
    and "\<And>db1 db2. update_sql M q db1 = (True, db2) \<Longrightarrow> T db2 = f (T db1)"
  shows "T db' = T db \<or> T db' = f (T db)"
  using assms(1)
proof (cases rule: with_conn_tabs)
  case (conn db1 db2)
  obtain ok where "update_sql M q db1 = (ok, db2)" using conn(2) by (cases "update_sql M q db1") auto
  with conn(1,3) assms(2) [of db1 db2] update_failed [of q db1 db2] show ?thesis
    by (cases ok) auto
qed auto

lemma user_resetState:
  "UserModel_resetState M db = Some (x, db') \<Longrightarrow> T db' = T db \<or> T db' = all_offline (T db)"
  unfolding UserModel_resetState_def by (rule update_or_not) (auto dest: states_reset)

lemma friend_insert:
  "FriendModel_insert M u f db = Some (x, db') \<Longrightarrow> T db' = T db \<or> T db' = add_friend u f (T db)"
  unfolding FriendModel_insert_def by (rule update_or_not) (auto dest: friend_inserted)

lemma offline_remove:
  "OfflineMsgModel_remove M u db = Some (x, db') \<Longrightarrow> T db' = T db \<or> T db' = clear_offline u (T db)"
  unfolding OfflineMsgModel_remove_def by (rule update_or_not) (auto dest: offline_deleted)

text \<open>An offline message is stored whole or not at all: a statement cut at 2047 bytes fails.\<close>

lemma offline_insert:
  assumes "OfflineMsgModel_insert M u m db = Some (x, db')"
  shows "T db' = T db \<or> (T db' = add_offline u m (T db) \<and> u \<in> dom (users (T db)) \<and>
    length (sprintf fmt_insert_offline [CInt u, CStr (escape M m)]) \<le> 2047)"
  using assms unfolding OfflineMsgModel_insert_def
proof (cases rule: with_conn_tabs)
  case (conn db1 db2)
  let ?q = "sprintf fmt_insert_offline [CInt u, CStr (escape M m)]"
  obtain ok where up: "update_sql M (take 2047 ?q) db1 = (ok, db2)"
    using conn(2) by (cases "update_sql M (take 2047 ?q) db1") (auto simp: snprintf_buf_def)
  show ?thesis
  proof (cases "ok")
    case True
    have "length ?q \<le> 2047"
      using offline_cut [of 2047 u m db1] up True by (cases "2047 < length ?q") auto
    with up True conn(1,3) offline_inserted [of u m db1 db2] show ?thesis by auto
  next
    case False
    with update_failed up conn(1,3) show ?thesis by auto
  qed
qed auto

text \<open>The rows of the joins, one per friend, group or member.\<close>

lemma friend_rows:
  assumes "query_sql M (sprintf fmt_select_friends [CInt u]) db = (Some rows, db')"
  obtains as where "distinct as" "set as = friend_ids (T db) u"
    "rows = map (\<lambda>f. [dec_int f, fst (the (users (T db) f)), snd (snd (the (users (T db) f)))]) as"
proof (rule rows_of_set [of rows "\<lambda>f. [dec_int f, fst (the (users (T db) f)), snd (snd (the (users (T db) f)))]" "friend_ids (T db) u"])
  note sel = friends_selected [OF assms]
  show "distinct rows" using sel by simp
  show "set rows = (\<lambda>f. [dec_int f, fst (the (users (T db) f)), snd (snd (the (users (T db) f)))]) ` friend_ids (T db) u"
    using sel by (force simp: friend_ids_def)
qed (auto intro: inj_onI that)

lemma friend_query:
  assumes "FriendModel_query M u db = Some (fs, db')"
  shows "T db' = T db \<and> ((unavailable M (sprintf fmt_select_friends [CInt u]) db \<and> fs = []) \<or>
    (\<exists>as. distinct as \<and> set as = friend_ids (T db) u \<and> fs = map (friend_of (T db)) as))"
  using assms unfolding FriendModel_query_def
proof (rule select_op_rows)
  fix rows db1 db2
  let ?f = "\<lambda>row. new_user\<lparr>uid := atoi (col row 0), uname := col row 1, ustate := col row 2\<rparr>"
  assume t: "T db' = T db" "T db1 = T db"
    and q: "query_sql M (sprintf fmt_select_friends [CInt u]) db1 = (Some rows, db2)" and fs: "fs = map ?f rows"
  from q obtain as where as: "distinct as" "set as = friend_ids (T db1) u"
    "rows = map (\<lambda>f. [dec_int f, fst (the (users (T db1) f)), snd (snd (the (users (T db1) f)))]) as"
    by (rule friend_rows)
  have "fs = map (friend_of (T db1)) as"
    using fs as(2,3) by (auto simp: friend_of_def user_of_def friend_ids_def col_def new_user_def)
  with as t show ?thesis by auto
qed auto

lemma group_insert:
  assumes "GroupModel_createGroup M g db = Some ((ok, g'), db')"
  shows "if ok then
      (\<exists>i. i \<notin> dom (groups (T db)) \<and> 0 < i \<and> is_int32 i \<and> g' = g\<lparr>gid := i\<rparr> \<and>
        T db' = (T db)\<lparr>groups := (groups (T db))(i \<mapsto> (gname g, gdesc g))\<rparr>)
    else g' = g \<and> T db' = T db"
  using assms unfolding GroupModel_createGroup_def
proof (cases rule: with_conn_tabs)
  case (conn db1 db2)
  obtain b db3 where up: "update_sql M (sprintf fmt_insert_group
      [CStr (escape M (gname g)), CStr (escape M (gdesc g))]) db1 = (b, db3)"
    by fastforce
  have "b = ok" "db2 = db3" "g' = (if ok then g\<lparr>gid := to_int32 (insert_id M db3)\<rparr> else g)"
    using conn(2) up by (auto simp: sprintf_buf_def Let_def split: if_splits)
  with conn(1,3) up group_inserted [of "gname g" "gdesc g" db1 db3] update_cases [OF up]
  show ?thesis by (cases ok) auto
qed auto

lemma group_addMember:
  assumes "GroupModel_addGroup M u g r db = Some (x, db')"
  shows "T db' = T db \<or> (T db' = (T db)\<lparr>members := (members (T db))((g, u) \<mapsto> r)\<rparr> \<and>
    g \<in> dom (groups (T db)) \<and> u \<in> dom (users (T db)) \<and> (g, u) \<notin> dom (members (T db)))"
  using assms unfolding GroupModel_addGroup_def
proof (cases rule: with_conn_tabs)
  case (conn db1 db2)
  obtain b db3 where up: "update_sql M (sprintf fmt_insert_member
      [CInt g, CInt u, CStr (escape M r)]) db1 = (b, db3)"
    by fastforce
  have "db2 = db3" using conn(2) up by (auto simp: sprintf_buf_def Let_def split: if_splits)
  with conn(1,3) up member_inserted [of g u r db1 db3] update_cases [OF up]
  show ?thesis by (cases b) auto
qed auto

lemma group_query:
  assumes "GroupModel_queryGroup M g db = Some (x, db')"
  shows "T db' = T db \<and> (x = group_of (T db) g \<or> (unavailable M (sprintf fmt_select_group [CInt g]) db \<and> x = new_group))"
  using assms unfolding GroupModel_queryGroup_def
  by (rule select_op [where h = "\<lambda>rows. case rows of [] \<Rightarrow> new_group | u # _ \<Rightarrow> u", unfolded list.case])
    (auto dest!: group_selected simp: group_of_def col_def new_group_def split: option.splits)

lemma group_member_ids:
  assumes "GroupModel_queryGroupUsers M u g db = Some (ids, db')"
  shows "T db' = T db \<and> ((unavailable M (sprintf fmt_select_member_ids [CInt g, CInt u]) db \<and> ids = []) \<or>
    (distinct ids \<and> set ids = member_ids (T db) g u))"
  using assms unfolding GroupModel_queryGroupUsers_def
proof (rule select_op_rows)
  fix rows db1 db2
  assume t: "T db' = T db" "T db1 = T db"
    and q: "query_sql M (sprintf fmt_select_member_ids [CInt g, CInt u]) db1 = (Some rows, db2)"
    and ids: "ids = map (\<lambda>row. atoi (col row 0)) rows"
  from member_ids_selected [OF q] have "distinct rows" "set rows = (\<lambda>v. [dec_int v]) ` member_ids (T db1) g u"
    by (auto simp: member_ids_def)
  then obtain as where as: "distinct as" "set as = member_ids (T db1) g u" "rows = map (\<lambda>v. [dec_int v]) as"
    by (rule rows_of_set) (auto intro: inj_onI)
  have "ids = as" using ids as(3) by (simp add: col_def comp_def)
  with as t show ?thesis by auto
qed auto

lemma offline_query:
  assumes "OfflineMsgModel_query M u db = Some (ms, db')"
  shows "T db' = T db \<and> ((unavailable M (sprintf fmt_select_offline [CInt u]) db \<and> ms = []) \<or>
    mset ms = image_mset c_str (offline (T db) u))"
  using assms unfolding OfflineMsgModel_query_def
proof (rule select_op_rows)
  fix rows db1 db2
  assume t: "T db' = T db" "T db1 = T db"
    and q: "query_sql M (sprintf fmt_select_offline [CInt u]) db1 = (Some rows, db2)"
    and ms: "ms = map (\<lambda>row. col row 0) rows"
  from offline_selected [OF q] have "mset (map (\<lambda>row. col row 0) rows) = image_mset (\<lambda>m. col [m] 0) (offline (T db1) u)"
    by (simp add: image_mset.compositionality comp_def)
  with t ms show ?thesis by (simp add: col_def)
qed auto

text \<open>\<open>queryGroups\<close>: the groups of the user and, for each, its members.\<close>

lemma fill_groups_tabs:
  "fill_groups M gs db = (gs', db') \<Longrightarrow> T db' = T db \<and>
    list_all2 (\<lambda>g g'. gusers g' = gusers g \<or> (\<exists>as. distinct as \<and> set as = user_ids_of_group (T db) (gid g) \<and>
      gusers g' = gusers g @ map (member_of (T db) (gid g)) as)) gs gs' \<and>
    map (gusers_update (\<lambda>_. [])) gs' = map (gusers_update (\<lambda>_. [])) gs"
proof (induction gs arbitrary: db gs' db')
  case (Cons g gs)
  let ?q = "sprintf fmt_select_members [CInt (gid g)]"
  obtain res db1 where q: "query_sql M ?q db = (res, db1)" by fastforce
  have t: "T db1 = T db" using tabs_select [of ?q db] q by simp
  obtain gs2 where f: "fill_groups M gs db1 = (gs2, db')" using Cons.prems q
    by (auto simp: select_rows_def Let_def split: prod.splits)
  have *: "us = [] \<or> (\<exists>as. distinct as \<and> set as = user_ids_of_group (T db) (gid g) \<and> us = map (member_of (T db) (gid g)) as)"
    if "us = (case res of None \<Rightarrow> [] | Some rows \<Rightarrow> map (\<lambda>row. \<lparr>uid = atoi (col row 0), uname = col row 1,
        upwd = [], ustate = col row 2, urole = col row 3\<rparr>) rows)" for us
  proof (cases res)
    case (Some rows)
    let ?r = "\<lambda>v. [dec_int v, fst (the (users (T db) v)), snd (snd (the (users (T db) v))), the (members (T db) (gid g, v))]"
    have "distinct rows" "set rows = ?r ` user_ids_of_group (T db) (gid g)"
      using members_selected [of "gid g" db rows db1] q Some member_rows_set [of "T db" "gid g"] by simp_all
    then obtain as where as: "distinct as" "set as = user_ids_of_group (T db) (gid g)" "rows = map ?r as"
      by (rule rows_of_set) (auto intro: inj_onI)
    then have "us = map (member_of (T db) (gid g)) as"
      using that Some by (auto simp: member_of_def user_of_def user_ids_of_group_def col_def)
    with as show ?thesis by blast
  qed (use that in auto)
  define us where "us = (case res of None \<Rightarrow> [] | Some rows \<Rightarrow> map (\<lambda>row. \<lparr>uid = atoi (col row 0),
    uname = col row 1, upwd = [], ustate = col row 2, urole = col row 3\<rparr>) rows)"
  have gs': "gs' = g\<lparr>gusers := gusers g @ us\<rparr> # gs2"
    using Cons.prems q f by (cases res) (simp_all add: select_rows_def us_def)
  from Cons.IH [OF f] * [OF us_def] t show ?case unfolding gs' by auto
qed simp

lemma groups_query:
  assumes "GroupModel_queryGroups M u db = Some (gs, db')"
  shows "T db' = T db \<and> (gs = [] \<or> (\<exists>as. distinct as \<and> set as = group_ids (T db) u \<and>
    list_all2 (\<lambda>a g. g\<lparr>gusers := []\<rparr> = group_of (T db) a \<and> (gusers g = [] \<or>
      (\<exists>vs. distinct vs \<and> set vs = user_ids_of_group (T db) a \<and> gusers g = map (member_of (T db) a) vs))) as gs))"
  using assms unfolding GroupModel_queryGroups_def
proof (cases rule: with_conn_tabs)
  case (conn db1 db2)
  let ?q = "sprintf fmt_select_groups [CInt u]"
  obtain res db3 where q: "query_sql M ?q db1 = (res, db3)" by fastforce
  have t: "T db3 = T db1" using tabs_select [of ?q db1] q by simp
  show ?thesis
  proof (cases res)
    case None
    with conn q t show ?thesis by (auto simp: select_rows_def)
  next
    case (Some rows)
    let ?r = "\<lambda>g. [dec_int g, fst (the (groups (T db1) g)), snd (the (groups (T db1) g))]"
    have "distinct rows" "set rows = ?r ` group_ids (T db1) u"
      using groups_selected [of u db1 rows db3] q Some group_rows_set [of u "T db1"] by simp_all
    then obtain as where as: "distinct as" "set as = group_ids (T db1) u" "rows = map ?r as"
      by (rule rows_of_set) (auto intro: inj_onI)
    have f: "fill_groups M (map (group_of (T db1)) as) db3 = (gs, db2)"
    proof -
      have "map (\<lambda>row. new_group\<lparr>gid := atoi (col row 0), gname := col row 1, gdesc := col row 2\<rparr>) rows
        = map (group_of (T db1)) as"
        using as(2,3) by (auto simp: group_of_def group_ids_def col_def new_group_def)
      with conn(2) q Some show ?thesis by (simp add: select_rows_def)
    qed
    have known: "a \<in> set as \<Longrightarrow> gid (group_of (T db1) a) = a \<and> gusers (group_of (T db1) a) = []" for a
      using as(2) by (auto simp: group_ids_def group_of_def)
    have "list_all2 (\<lambda>a g. g\<lparr>gusers := []\<rparr> = group_of (T db1) a \<and> (gusers g = [] \<or>
      (\<exists>vs. distinct vs \<and> set vs = user_ids_of_group (T db1) a \<and> gusers g = map (member_of (T db1) a) vs))) as gs"
    proof (rule list_all2_all_nthI)
      note fg = fill_groups_tabs [OF f]
      show len: "length as = length gs" using fg by (auto dest: list_all2_lengthD)
      fix n assume n: "n < length as"
      note k = known [OF nth_mem [OF n]]
      have "(gs ! n)\<lparr>gusers := []\<rparr> = group_of (T db1) (as ! n)\<lparr>gusers := []\<rparr>"
        using arg_cong [OF conjunct2 [OF conjunct2 [OF fg]], of "\<lambda>xs. xs ! n"] n len by simp
      moreover have "group_of (T db1) (as ! n)\<lparr>gusers := []\<rparr> = group_of (T db1) (as ! n)"
        using k by simp
      moreover have "gusers (gs ! n) = gusers (group_of (T db1) (as ! n)) \<or>
        (\<exists>vs. distinct vs \<and> set vs = user_ids_of_group (T db3) (gid (group_of (T db1) (as ! n))) \<and>
          gusers (gs ! n) = gusers (group_of (T db1) (as ! n)) @ map (member_of (T db3) (gid (group_of (T db1) (as ! n)))) vs)"
        using list_all2_nthD [OF conjunct1 [OF conjunct2 [OF fg]], of n] n by simp
      ultimately show "(gs ! n)\<lparr>gusers := []\<rparr> = group_of (T db1) (as ! n) \<and> (gusers (gs ! n) = [] \<or>
        (\<exists>vs. distinct vs \<and> set vs = user_ids_of_group (T db1) (as ! n) \<and>
          gusers (gs ! n) = map (member_of (T db1) (as ! n)) vs))"
        using k t by simp
    qed
    with as fill_groups_tabs [OF f] conn t show ?thesis by auto
  qed
qed auto

end

subsection \<open>The operations on a server that is up\<close>

context reliable_mysql begin

lemma with_conn_ready:
  assumes "ready db" and "\<And>db1. busy db1 \<Longrightarrow> T db1 = T db \<Longrightarrow> \<exists>x db2. body db1 = Some (x, db2) \<and> busy db2 \<and> P x (T db2)"
  shows "\<exists>x db'. with_conn M fail body db = Some (x, db') \<and> ready db' \<and> P x (T db')"
proof -
  obtain db1 where a: "acquire M db = (True, db1)" "busy db1" "T db1 = T db"
    using acquire_ok [OF assms(1)] tabs_acquire [of db] by (cases "acquire M db") auto
  from assms(2) [OF a(2,3)] obtain x db2 where "body db1 = Some (x, db2)" "busy db2" "P x (T db2)" by blast
  with a show ?thesis by (auto simp: with_conn_def tabs_release release_ok)
qed

lemma with_conn_busy:
  assumes "ready db" and "\<And>db1. busy db1 \<Longrightarrow> \<exists>x db2. body db1 = Some (x, db2) \<and> busy db2"
  shows "\<exists>x db'. with_conn M fail body db = Some (x, db') \<and> ready db'"
proof -
  from with_conn_ready [of db body "\<lambda>_ _. True" fail] assms show ?thesis by simp
qed

text \<open>An update that succeeds.\<close>

lemma update_ready:
  assumes "ready db" and "\<And>db1. busy db1 \<Longrightarrow> T db1 = T db \<Longrightarrow> fst (update_sql M q db1)"
    and "\<And>db1 db2. update_sql M q db1 = (True, db2) \<Longrightarrow> T db2 = f (T db1)"
  shows "\<exists>db'. with_conn M () (\<lambda>db. Some ((), snd (update_sql M q db))) db = Some ((), db') \<and> ready db' \<and> T db' = f (T db)"
proof -
  have "\<exists>x db2. (\<lambda>db. Some ((), snd (update_sql M q db))) db1 = Some (x, db2) \<and> busy db2 \<and> T db2 = f (T db)"
    if "busy db1" "T db1 = T db" for db1
    using assms(2) [OF that] assms(3) [of db1 "snd (update_sql M q db1)"] update_busy [OF that(1), of q] that(2)
    by (cases "update_sql M q db1") auto
  then have "\<exists>x db'. with_conn M () (\<lambda>db. Some ((), snd (update_sql M q db))) db = Some (x, db') \<and> ready db' \<and> T db' = f (T db)"
    by (intro with_conn_ready [OF assms(1), where P = "\<lambda>_ t. t = f (T db)"])
  then show ?thesis by auto
qed

lemma unavailable_ready:
  "ready db \<Longrightarrow> (\<And>db1. busy db1 \<Longrightarrow> fst (query_sql M q db1) \<noteq> None) \<Longrightarrow> \<not> unavailable M q db"
  using acquire_ok [of db] by (auto simp: unavailable_def)

lemma selects_available:
  assumes "ready db"
  shows "\<not> unavailable M (sprintf fmt_select_user [CInt u]) db" "\<not> unavailable M (sprintf fmt_select_friends [CInt u]) db"
    "\<not> unavailable M (sprintf fmt_select_member_ids [CInt u, CInt v]) db" "\<not> unavailable M (sprintf fmt_select_group [CInt u]) db"
    "\<not> unavailable M (sprintf fmt_select_offline [CInt u]) db"
  using select_ok [of _ _ u v] by (auto intro!: unavailable_ready [OF assms])

lemma select_ready:
  assumes "ready db"
  shows "\<exists>x db'. with_conn M fail (\<lambda>db. let (rows, db') = select_rows M q f db in Some (h rows, db')) db = Some (x, db') \<and> ready db'"
proof -
  have "\<exists>x db2. (let (rows, db') = select_rows M q f db1 in Some (h rows, db')) = Some (x, db2) \<and> busy db2"
    if "busy db1" for db1
    using select_busy [OF that, of q] by (cases "query_sql M q db1") (simp add: select_rows_def)
  then show ?thesis by (intro with_conn_busy [OF assms])
qed

lemmas select_ready_rows = select_ready [where h = "\<lambda>rows. rows", unfolded Let_def case_prod_eta]

lemma queries_run:
  assumes "ready db"
  shows "\<exists>u db'. UserModel_query M i db = Some (u, db') \<and> ready db'"
    "\<exists>fs db'. FriendModel_query M i db = Some (fs, db') \<and> ready db'"
    "\<exists>is db'. GroupModel_queryGroupUsers M i j db = Some (is, db') \<and> ready db'"
    "\<exists>ms db'. OfflineMsgModel_query M i db = Some (ms, db') \<and> ready db'"
    "\<exists>g db'. GroupModel_queryGroup M i db = Some (g, db') \<and> ready db'"
  unfolding UserModel_query_def FriendModel_query_def GroupModel_queryGroupUsers_def OfflineMsgModel_query_def
    GroupModel_queryGroup_def
  by (rule select_ready_rows [OF assms]
      select_ready [OF assms, where h = "\<lambda>rows. case rows of [] \<Rightarrow> new_user | u # _ \<Rightarrow> u"]
      select_ready [OF assms, where h = "\<lambda>rows. case rows of [] \<Rightarrow> new_group | u # _ \<Rightarrow> u"])+

lemma user_query_ready:
  assumes "ready db"
  shows "\<exists>db'. UserModel_query M i db = Some (user_of (T db) i, db') \<and> ready db' \<and> T db' = T db"
proof -
  from queries_run(1) [OF assms] obtain u db' where q: "UserModel_query M i db = Some (u, db')" "ready db'" by blast
  with user_query [OF q(1)] selects_available [OF assms] show ?thesis by simp
qed

lemma friend_query_ready:
  assumes "ready db"
  shows "\<exists>as db'. FriendModel_query M u db = Some (map (friend_of (T db)) as, db') \<and> ready db' \<and> T db' = T db \<and>
    distinct as \<and> set as = friend_ids (T db) u"
proof -
  from queries_run(2) [OF assms] obtain fs db' where q: "FriendModel_query M u db = Some (fs, db')" "ready db'" by blast
  with friend_query [OF q(1)] selects_available [OF assms] show ?thesis by auto
qed

lemma group_member_ids_ready:
  assumes "ready db"
  shows "\<exists>as db'. GroupModel_queryGroupUsers M u g db = Some (as, db') \<and> ready db' \<and> T db' = T db \<and>
    distinct as \<and> set as = member_ids (T db) g u"
proof -
  from queries_run(3) [OF assms] obtain fs db' where q: "GroupModel_queryGroupUsers M u g db = Some (fs, db')" "ready db'" by blast
  with group_member_ids [OF q(1)] selects_available [OF assms] show ?thesis by simp
qed

lemma offline_query_ready:
  assumes "ready db"
  shows "\<exists>ms db'. OfflineMsgModel_query M u db = Some (ms, db') \<and> ready db' \<and> T db' = T db \<and>
    mset ms = image_mset c_str (offline (T db) u)"
proof -
  from queries_run(4) [OF assms] obtain fs db' where q: "OfflineMsgModel_query M u db = Some (fs, db')" "ready db'" by blast
  with offline_query [OF q(1)] selects_available [OF assms] show ?thesis by simp
qed

lemma fill_groups_busy: "busy db \<Longrightarrow> busy (snd (fill_groups M gs db))"
proof (induction gs arbitrary: db)
  case (Cons g gs)
  let ?q = "sprintf fmt_select_members [CInt (gid g)]"
  from Cons.IH [of "snd (query_sql M ?q db)"] select_busy [OF Cons.prems, of ?q] show ?case
    by (cases "query_sql M ?q db") (auto simp: select_rows_def split: prod.split)
qed simp

lemma groups_query_ready:
  assumes "ready db"
  shows "\<exists>gs db'. GroupModel_queryGroups M u db = Some (gs, db') \<and> ready db' \<and> T db' = T db"
proof -
  let ?f = "\<lambda>row. new_group\<lparr>gid := atoi (col row 0), gname := col row 1, gdesc := col row 2\<rparr>"
  let ?q = "sprintf fmt_select_groups [CInt u]"
  have "\<exists>x db2. (let (gs, db') = select_rows M ?q ?f db1 in Some (fill_groups M gs db')) = Some (x, db2) \<and> busy db2"
    if "busy db1" for db1
  proof -
    have "busy (snd (select_rows M ?q ?f db1))"
      using select_busy [OF that, of ?q] by (cases "query_sql M ?q db1") (simp add: select_rows_def)
    then show ?thesis
      using fill_groups_busy [of "snd (select_rows M ?q ?f db1)" "fst (select_rows M ?q ?f db1)"]
      by (cases "select_rows M ?q ?f db1") (auto, metis prod.collapse)
  qed
  then have "\<exists>gs db'. GroupModel_queryGroups M u db = Some (gs, db') \<and> ready db'"
    unfolding GroupModel_queryGroups_def by (intro with_conn_busy [OF assms])
  then obtain gs db' where q: "GroupModel_queryGroups M u db = Some (gs, db')" "ready db'" by blast
  with groups_query [OF q(1)] show ?thesis by blast
qed

lemma updateState_ready:
  assumes "ready db" and "is_int32 (uid u)" and "ustate u \<in> {''online'', ''offline''}"
  shows "\<exists>db'. UserModel_updateState M u db = Some (True, db') \<and> ready db' \<and> T db' = set_state (uid u) (ustate u) (T db)"
proof -
  let ?q = "sprintf fmt_update_state [CStr (escape M (ustate u)), CInt (uid u)]"
  have len: "length ?q < 1024"
    using dec_int_length [OF assms(2)] escape_length [of "ustate u"] assms(3) by (auto simp: statement_lengths)
  have "\<exists>x db2. (do { q \<leftarrow> sprintf_buf 1024 fmt_update_state [CStr (escape M (ustate u)), CInt (uid u)];
      Some (update_sql M q db1) }) = Some (x, db2) \<and> busy db2 \<and> (x \<and> T db2 = set_state (uid u) (ustate u) (T db))"
    if "busy db1" "T db1 = T db" for db1
    using state_update_ok [OF that(1) assms(3), of "uid u"] state_updated [of "ustate u" "uid u" db1]
      update_busy [OF that(1), of ?q] that(2) len
    by (cases "update_sql M ?q db1") (auto simp: sprintf_buf_def Let_def)
  then have "\<exists>x db'. UserModel_updateState M u db = Some (x, db') \<and> ready db' \<and>
      (x \<and> T db' = set_state (uid u) (ustate u) (T db))"
    unfolding UserModel_updateState_def
    by (intro with_conn_ready [OF assms(1), where P = "\<lambda>x t. x \<and> t = set_state (uid u) (ustate u) (T db)"])
  then show ?thesis by auto
qed

lemma friend_insert_ready:
  "ready db \<Longrightarrow> \<exists>db'. FriendModel_insert M u f db = Some ((), db') \<and> ready db' \<and> T db' = add_friend u f (T db)"
  unfolding FriendModel_insert_def by (rule update_ready) (auto simp: friend_ok dest: friend_inserted)

lemma offline_remove_ready:
  "ready db \<Longrightarrow> \<exists>db'. OfflineMsgModel_remove M u db = Some ((), db') \<and> ready db' \<and> T db' = clear_offline u (T db)"
  unfolding OfflineMsgModel_remove_def by (rule update_ready) (auto simp: delete_ok dest: offline_deleted)

lemma resetState_ready:
  "ready db \<Longrightarrow> \<exists>db'. UserModel_resetState M db = Some ((), db') \<and> ready db' \<and> T db' = all_offline (T db)"
  unfolding UserModel_resetState_def by (rule update_ready) (auto simp: reset_ok dest: states_reset)

lemma offline_insert_ready:
  assumes "ready db" and "u \<in> dom (users (T db))" and "length (sprintf fmt_insert_offline [CInt u, CStr (escape M m)]) \<le> 2047"
    and "length m \<le> 65535"
  shows "\<exists>db'. OfflineMsgModel_insert M u m db = Some ((), db') \<and> ready db' \<and> T db' = add_offline u m (T db)"
proof -
  have "snprintf_buf 2048 fmt_insert_offline [CInt u, CStr (escape M m)] = sprintf fmt_insert_offline [CInt u, CStr (escape M m)]"
    using assms(3) by (simp add: snprintf_buf_def)
  then show ?thesis
    using assms unfolding OfflineMsgModel_insert_def
    by (simp only:) (rule update_ready; auto intro: offline_ok dest: offline_inserted)
qed

lemma offline_insert_any:
  assumes "ready db" and "length m \<le> 65535"
  shows "\<exists>db'. OfflineMsgModel_insert M u m db = Some ((), db') \<and> ready db' \<and>
    T db' = (if u \<in> dom (users (T db)) \<and> length (sprintf fmt_insert_offline [CInt u, CStr (escape M m)]) \<le> 2047
      then add_offline u m (T db) else T db)"
proof (cases "u \<in> dom (users (T db)) \<and> length (sprintf fmt_insert_offline [CInt u, CStr (escape M m)]) \<le> 2047")
  case True
  with offline_insert_ready [OF assms(1), of u m] assms(2) show ?thesis by simp
next
  case False
  let ?q = "snprintf_buf 2048 fmt_insert_offline [CInt u, CStr (escape M m)]"
  have "\<exists>x db'. OfflineMsgModel_insert M u m db = Some (x, db') \<and> ready db'"
    unfolding OfflineMsgModel_insert_def by (rule with_conn_busy [OF assms(1)]) (simp add: update_busy)
  then obtain db' where i: "OfflineMsgModel_insert M u m db = Some ((), db')" "ready db'" by auto
  from offline_insert [OF i(1)] False have "T db' = T db" by auto
  with i False show ?thesis by auto
qed

lemma user_insert_ready:
  assumes "ready db" and "dom (users (T db)) \<subseteq> {..<2 ^ 31 - 1}" and "length (uname u) \<le> 50"
    and "length (upwd u) \<le> 100" and "ustate u \<in> {''online'', ''offline''}"
    and "\<And>i row. users (T db) i = Some row \<Longrightarrow> K (fst row) \<noteq> K (uname u)"
  shows "\<exists>i db'. UserModel_insert M u db = Some ((True, u\<lparr>uid := i\<rparr>), db') \<and> ready db' \<and> 0 < i \<and> is_int32 i \<and>
    i \<notin> dom (users (T db)) \<and> T db' = (T db)\<lparr>users := (users (T db))(i \<mapsto> (uname u, upwd u, ustate u))\<rparr>"
proof -
  let ?q = "sprintf fmt_insert_user [CStr (escape M (uname u)), CStr (escape M (upwd u)), CStr (escape M (ustate u))]"
  have len: "length ?q < 1024"
    using escape_length [of "uname u"] escape_length [of "upwd u"] escape_length [of "ustate u"] assms(3-5)
    by (auto simp: statement_lengths)
  have "\<exists>x db2. (do { q \<leftarrow> sprintf_buf 1024 fmt_insert_user
        [CStr (escape M (uname u)), CStr (escape M (upwd u)), CStr (escape M (ustate u))];
      let (ok, db') = update_sql M q db1;
      Some (if ok then (True, u\<lparr>uid := to_int32 (insert_id M db')\<rparr>) else (False, u), db') }) = Some (x, db2) \<and>
      busy db2 \<and> fst x" if "busy db1" "T db1 = T db" for db1
    using user_insert_ok [OF that(1) _ assms(3,4,5)] assms(2,6) that(2) update_busy [OF that(1), of ?q] len
    by (cases "update_sql M ?q db1") (auto simp: sprintf_buf_def Let_def)
  then have "\<exists>x db'. UserModel_insert M u db = Some (x, db') \<and> ready db' \<and> fst x"
    unfolding UserModel_insert_def by (intro with_conn_ready [OF assms(1), where P = "\<lambda>x _. fst x"])
  then obtain u' db' where ins: "UserModel_insert M u db = Some ((True, u'), db')" "ready db'" by auto
  from user_insert [OF ins(1)] ins show ?thesis by auto
qed

end

end
