(* ===== verification/Redis.thy ===== *)
theory Redis
  imports Mysql
begin

section \<open>The Redis publisher and subscriber\<close>

text \<open>
  \<open>redis.cpp\<close>. The client library hiredis is the parameter \<open>H\<close>: its calls on a context (a
  connection, known by a number) and the state \<open>'h\<close> of the connections. A command is the list
  of its arguments. The loop that writes the output buffer may not end, so the operations
  that contain it return an option; \<open>None\<close> also stands for reading through a null pointer.
\<close>

subsection \<open>The parameter\<close>

text \<open>A reply: an error, an array whose elements and their strings may be null, or another type.\<close>

datatype reply = Reply_error string | Reply_array "string option option list" | Reply_other

record 'h hiredis =
  redisConnect :: "'h \<Rightarrow> nat option \<times> 'h"
  ctx_err :: "nat \<Rightarrow> 'h \<Rightarrow> bool"
  redisFree :: "nat \<Rightarrow> 'h \<Rightarrow> 'h"
  redisCommand :: "nat \<Rightarrow> string list \<Rightarrow> 'h \<Rightarrow> reply option \<times> 'h"
  redisAppendCommand :: "nat \<Rightarrow> string list \<Rightarrow> 'h \<Rightarrow> bool \<times> 'h"
  redisBufferWrite :: "nat \<Rightarrow> 'h \<Rightarrow> (bool \<times> bool) \<times> 'h"
  redisGetReply :: "nat \<Rightarrow> 'h \<Rightarrow> (bool \<times> reply option) \<times> 'h"
  poll_in :: "nat \<Rightarrow> 'h \<Rightarrow> bool \<times> 'h"
  fd_positive :: "nat \<Rightarrow> 'h \<Rightarrow> bool"
  sock_shutdown :: "nat \<Rightarrow> 'h \<Rightarrow> 'h"

subsection \<open>State and operations\<close>

text \<open>\<open>subscribed_channels\<close> is a \<open>std::set\<close>: its elements in the order in which it is traversed.\<close>

record 'h redis =
  hired :: 'h
  publish_context :: "nat option"
  subcribe_context :: "nat option"
  subscribed_channels :: "int list"
  running :: bool

definition free_opt :: "'h hiredis \<Rightarrow> nat option \<Rightarrow> 'h \<Rightarrow> 'h" where
  "free_opt H ctx h = (case ctx of None \<Rightarrow> h | Some c \<Rightarrow> redisFree H c h)"

text \<open>\<open>redisConnect\<close> and the check of its result; a context with an error is freed.\<close>

definition open_context :: "'h hiredis \<Rightarrow> 'h \<Rightarrow> nat option \<times> 'h" where
  "open_context H h = (case redisConnect H h of
      (None, h1) \<Rightarrow> (None, h1)
    | (Some c, h1) \<Rightarrow> if ctx_err H c h1 then (None, redisFree H c h1) else (Some c, h1))"

definition redis_connect :: "'h hiredis \<Rightarrow> 'h redis \<Rightarrow> bool \<times> 'h redis" where
  "redis_connect H R =
     (let h1 = free_opt H (subcribe_context R) (free_opt H (publish_context R) (hired R));
          (p, h2) = open_context H h1
      in case p of
           None \<Rightarrow> (False, R\<lparr>hired := h2, publish_context := None, subcribe_context := None\<rparr>)
         | Some _ \<Rightarrow>
             (let (s, h3) = open_context H h2;
                  R3 = R\<lparr>hired := h3, publish_context := p, subcribe_context := s\<rparr>
              in if s = None then (False, R3) else (True, R3\<lparr>running := True\<rparr>)))"

text \<open>\<open>PUBLISH\<close> passes the message as a C string. Neither the number of receivers nor the result is used by the callers.\<close>

definition publish :: "'h hiredis \<Rightarrow> int \<Rightarrow> string \<Rightarrow> 'h redis \<Rightarrow> bool \<times> 'h redis" where
  "publish H channel message R =
     (case publish_context R of
        None \<Rightarrow> (False, R)
      | Some c \<Rightarrow>
          if ctx_err H c (hired R) then (False, R)
          else (let (reply, h1) = redisCommand H c [''PUBLISH'', dec_int channel, c_str message] (hired R)
                in (case reply of None \<Rightarrow> False | Some (Reply_error _) \<Rightarrow> False | Some _ \<Rightarrow> True,
                    R\<lparr>hired := h1\<rparr>)))"

text \<open>The loop \<open>while (!done) redisBufferWrite\<close>; it ends with an error or with the buffer empty.\<close>

partial_function (option) write_all :: "'h hiredis \<Rightarrow> nat \<Rightarrow> 'h \<Rightarrow> (bool \<times> 'h) option" where
  "write_all H c h =
     (case redisBufferWrite H c h of
        ((ok, done), h1) \<Rightarrow>
          if \<not> ok then Some (False, h1) else if done then Some (True, h1) else write_all H c h1)"

definition send_command :: "'h hiredis \<Rightarrow> nat \<Rightarrow> string list \<Rightarrow> 'h \<Rightarrow> (bool \<times> 'h) option" where
  "send_command H c args h =
     (case redisAppendCommand H c args h of
        (False, h1) \<Rightarrow> Some (False, h1)
      | (True, h1) \<Rightarrow> write_all H c h1)"

definition subscribe :: "'h hiredis \<Rightarrow> int \<Rightarrow> 'h redis \<Rightarrow> (bool \<times> 'h redis) option" where
  "subscribe H channel R =
     (case subcribe_context R of
        None \<Rightarrow> Some (False, R)
      | Some c \<Rightarrow>
          if ctx_err H c (hired R) then Some (False, R)
          else do {
            (ok, h1) \<leftarrow> send_command H c [''SUBSCRIBE'', dec_int channel] (hired R);
            Some (if ok then (True, R\<lparr>hired := h1,
                    subscribed_channels := insort_insert channel (subscribed_channels R)\<rparr>)
                  else (False, R\<lparr>hired := h1\<rparr>))
          })"

definition unsubscribe :: "'h hiredis \<Rightarrow> int \<Rightarrow> 'h redis \<Rightarrow> (bool \<times> 'h redis) option" where
  "unsubscribe H channel R =
     (case subcribe_context R of
        None \<Rightarrow> Some (False, R)
      | Some c \<Rightarrow>
          if ctx_err H c (hired R) then Some (False, R)
          else do {
            (ok, h1) \<leftarrow> send_command H c [''UNSUBSCRIBE'', dec_int channel] (hired R);
            Some (if ok then (True, R\<lparr>hired := h1,
                    subscribed_channels := removeAll channel (subscribed_channels R)\<rparr>)
                  else (False, R\<lparr>hired := h1\<rparr>))
          })"

fun resend :: "'h hiredis \<Rightarrow> nat \<Rightarrow> int list \<Rightarrow> 'h \<Rightarrow> (bool \<times> 'h) option" where
  "resend H c [] h = Some (True, h)"
| "resend H c (ch # chs) h = do {
     (ok, h1) \<leftarrow> send_command H c [''SUBSCRIBE'', dec_int ch] h;
     if ok then resend H c chs h1 else Some (False, h1)
   }"

definition resubscribe :: "'h hiredis \<Rightarrow> 'h redis \<Rightarrow> (bool \<times> 'h redis) option" where
  "resubscribe H R =
     (let (ctx, h1) = (case subcribe_context R of
            None \<Rightarrow> open_context H (hired R) | Some c \<Rightarrow> (Some c, hired R));
          R1 = R\<lparr>hired := h1, subcribe_context := ctx\<rparr>
      in case ctx of
           None \<Rightarrow> Some (False, R1)
         | Some c \<Rightarrow> do {
             (ok, h2) \<leftarrow> resend H c (subscribed_channels R1) h1;
             Some (ok, R1\<lparr>hired := h2\<rparr>)
           })"

definition redis_stop :: "'h hiredis \<Rightarrow> 'h redis \<Rightarrow> 'h redis" where
  "redis_stop H R =
     (case subcribe_context R of
        None \<Rightarrow> R\<lparr>running := False\<rparr>
      | Some c \<Rightarrow> if fd_positive H c (hired R)
          then R\<lparr>running := False, hired := sock_shutdown H c (hired R)\<rparr> else R\<lparr>running := False\<rparr>)"

text \<open>The destructor, after the observer thread has been joined.\<close>

definition redis_destroy :: "'h hiredis \<Rightarrow> 'h redis \<Rightarrow> 'h redis" where
  "redis_destroy H R =
     (let R1 = redis_stop H R in
      R1\<lparr>hired := free_opt H (subcribe_context R1) (free_opt H (publish_context R1) (hired R1)),
         publish_context := None, subcribe_context := None\<rparr>)"

subsection \<open>The observer thread\<close>

datatype observed = Nothing | Message int string | Pause | Quit

text \<open>Only a \<open>message\<close> push is reported; its channel string is read without a check.\<close>

definition message_of :: "reply \<Rightarrow> observed option" where
  "message_of rp = (case rp of
      Reply_array els \<Rightarrow>
        if 3 \<le> length els then
          (case (els ! 0, els ! 2) of
             (Some (Some kind), Some (Some msg)) \<Rightarrow>
               if c_str kind = ''message''
               then (case els ! 1 of Some (Some ch) \<Rightarrow> Some (Message (atoi ch) (c_str msg)) | _ \<Rightarrow> None)
               else Some Nothing
           | _ \<Rightarrow> Some Nothing)
        else Some Nothing
    | _ \<Rightarrow> Some Nothing)"

text \<open>
  One round of the loop of \<open>observer_channel_message\<close>; \<open>still\<close> is what the two later reads of
  \<open>_running\<close> see, which another thread may have reset meanwhile. A \<open>Message\<close> is handed to
  the notify handler, a \<open>Pause\<close> sleeps three seconds.
\<close>

definition observer_iteration ::
  "'h hiredis \<Rightarrow> bool \<times> bool \<Rightarrow> 'h redis \<Rightarrow> (observed \<times> 'h redis) option" where
  "observer_iteration H still R =
     (if \<not> running R then Some (Quit, R)
      else case subcribe_context R of
        None \<Rightarrow> do {
          (ok, R1) \<leftarrow> resubscribe H R;
          Some (if ok then Nothing else Pause, R1)
        }
      | Some c \<Rightarrow>
          (let (ready, h1) = poll_in H c (hired R) in
           if \<not> fst still then Some (Quit, R\<lparr>hired := h1\<rparr>)
           else if \<not> ready then Some (Nothing, R\<lparr>hired := h1\<rparr>)
           else (let ((ok, rep), h2) = redisGetReply H c h1 in
             if \<not> snd still then Some (Quit, R\<lparr>hired := h2\<rparr>)
             else if \<not> ok then Some (Nothing, R\<lparr>hired := redisFree H c h2, subcribe_context := None\<rparr>)
             else case rep of
               None \<Rightarrow> Some (Nothing, R\<lparr>hired := h2\<rparr>)
             | Some rp \<Rightarrow> do { m \<leftarrow> message_of rp; Some (m, R\<lparr>hired := h2\<rparr>) })))"

text \<open>Some rounds of the loop while nobody stops the thread, and what was handed to the notify handler.\<close>

fun observe :: "'h hiredis \<Rightarrow> nat \<Rightarrow> 'h redis \<Rightarrow> (observed list \<times> 'h redis) option" where
  "observe H 0 R = Some ([], R)"
| "observe H (Suc n) R = do {
     (m, R1) \<leftarrow> observer_iteration H (True, True) R;
     (ms, R2) \<leftarrow> observe H n R1;
     Some (m # ms, R2)
   }"

fun handed :: "observed list \<Rightarrow> (int \<times> string) list" where
  "handed [] = []"
| "handed (Message u txt # ms) = (u, txt) # handed ms"
| "handed (_ # ms) = handed ms"

lemma subscribe_failed:
  "subscribe H ch R = Some (False, R') \<Longrightarrow> subscribed_channels R' = subscribed_channels R"
  by (auto simp: subscribe_def split: option.splits if_splits bind_splits)

subsection \<open>What the code relies on\<close>

text \<open>
  \<open>obuf\<close> is the output buffer of a context and \<open>wire\<close> what was written to its socket: a
  command is appended in its wire format \<open>resp\<close>, and a write moves a prefix of the buffer
  to the socket, at least one byte unless it is empty, or reports an error.
\<close>

locale redis_link =
  fixes H :: "'h hiredis" and obuf :: "'h \<Rightarrow> nat \<Rightarrow> string" and wire :: "'h \<Rightarrow> nat \<Rightarrow> string"
    and resp :: "string list \<Rightarrow> string"
  assumes append_ok: "redisAppendCommand H c args h = (True, h') \<Longrightarrow>
        obuf h' c = obuf h c @ resp args \<and> wire h' c = wire h c"
    and write_ok: "redisBufferWrite H c h = ((True, done), h') \<Longrightarrow>
        wire h' c @ obuf h' c = wire h c @ obuf h c \<and> (done \<longleftrightarrow> obuf h' c = []) \<and>
        (\<not> done \<longrightarrow> length (obuf h' c) < length (obuf h c))"
begin

lemma write_all_total: "returns (write_all H c h)"
proof (induction "length (obuf h c)" arbitrary: h rule: less_induct)
  case less
  obtain ok d h1 where w: "redisBufferWrite H c h = ((ok, d), h1)" by (metis prod.exhaust)
  have "returns (write_all H c h1)" if "ok" "\<not> d"
    using less [of h1] write_ok [of c h d h1] w that by simp
  with w show ?case by (subst write_all.simps) (cases ok; cases d; simp)
qed

lemma write_all_flushes: "write_all H c h = Some (True, h') \<Longrightarrow> obuf h' c = [] \<and> wire h' c = wire h c @ obuf h c"
proof (induction "length (obuf h c)" arbitrary: h rule: less_induct)
  case less
  obtain ok d h1 where w: "redisBufferWrite H c h = ((ok, d), h1)" by (metis prod.exhaust)
  have e: "(if \<not> ok then Some (False, h1) else if d then Some (True, h1) else write_all H c h1) = Some (True, h')"
    using less.prems w by (subst (asm) write_all.simps) simp
  then have ok: ok by (auto split: if_splits)
  with w have k: "wire h1 c @ obuf h1 c = wire h c @ obuf h c" "d \<longleftrightarrow> obuf h1 c = []"
    "\<not> d \<longrightarrow> length (obuf h1 c) < length (obuf h c)"
    using write_ok [of c h d h1] by auto
  show ?case
  proof (cases d)
    case True
    with e ok k show ?thesis by auto
  next
    case False
    with e ok have "write_all H c h1 = Some (True, h')" by simp
    from less.hyps [OF _ this] False k show ?thesis by simp
  qed
qed

lemma write_all_flushes_only:
  assumes "\<And>h. fst (fst (redisBufferWrite H c h))"
  shows "write_all H c h \<noteq> Some (False, h')"
proof (induction "length (obuf h c)" arbitrary: h rule: less_induct)
  case less
  obtain d h1 where w: "redisBufferWrite H c h = ((True, d), h1)"
    using assms [of h] by (cases "redisBufferWrite H c h") auto
  have "write_all H c h1 \<noteq> Some (False, h')" if "\<not> d"
    using less [of h1] write_ok [OF w] that by simp
  with w show ?case by (subst write_all.simps) auto
qed

lemma send_command_total [total_intros]: "returns (send_command H c args h)"
  using write_all_total by (auto simp: send_command_def split: prod.split bool.split)

lemma send_command_flushes:
  "send_command H c args h = Some (True, h') \<Longrightarrow> obuf h' c = [] \<and> wire h' c = wire h c @ obuf h c @ resp args"
  using append_ok [of c args h] write_all_flushes
  by (auto simp: send_command_def split: prod.splits bool.splits)

lemma resend_total [total_intros]: "returns (resend H c chs h)"
proof (induction chs arbitrary: h)
  case (Cons ch chs)
  show ?case
    by (auto intro!: returns_bind total_intros Cons)
qed simp

lemma resend_flushes:
  "resend H c chs h = Some (True, h') \<Longrightarrow> obuf h c = [] \<Longrightarrow> obuf h' c = [] \<and>
    wire h' c = wire h c @ concat (map (\<lambda>ch. resp [''SUBSCRIBE'', dec_int ch]) chs)"
proof (induction chs arbitrary: h)
  case (Cons ch chs)
  then obtain h1 where "send_command H c [''SUBSCRIBE'', dec_int ch] h = Some (True, h1)"
    "resend H c chs h1 = Some (True, h')"
    by (auto split: bind_splits if_splits)
  with Cons.IH [of h1] send_command_flushes [OF this(1)] Cons.prems(2) show ?case by auto
qed simp

lemma subscribe_total: "returns (subscribe H ch R)"
  by (auto simp: subscribe_def intro!: returns_bind total_intros split: option.split)

lemma unsubscribe_total: "returns (unsubscribe H ch R)"
  by (auto simp: unsubscribe_def intro!: returns_bind total_intros split: option.split)

lemma resubscribe_total: "returns (resubscribe H R)"
  by (auto simp: resubscribe_def Let_def intro!: returns_bind total_intros
    split: option.split prod.split)

lemma subscribe_ok:
  assumes "subscribe H ch R = Some (True, R')"
  shows "\<exists>c. subcribe_context R = Some c \<and> set (subscribed_channels R') = insert ch (set (subscribed_channels R)) \<and>
    obuf (hired R') c = [] \<and>
    wire (hired R') c = wire (hired R) c @ obuf (hired R) c @ resp [''SUBSCRIBE'', dec_int ch]"
  using assms by (auto simp: subscribe_def set_insort_insert dest!: send_command_flushes split: option.splits if_splits bind_splits)

lemma unsubscribe_ok:
  assumes "unsubscribe H ch R = Some (True, R')"
  shows "\<exists>c. subcribe_context R = Some c \<and> set (subscribed_channels R') = set (subscribed_channels R) - {ch} \<and>
    obuf (hired R') c = [] \<and>
    wire (hired R') c = wire (hired R) c @ obuf (hired R) c @ resp [''UNSUBSCRIBE'', dec_int ch]"
  using assms by (auto simp: unsubscribe_def dest!: send_command_flushes split: option.splits if_splits bind_splits)

lemma resubscribe_ok:
  assumes "resubscribe H R = Some (True, R')" and "subcribe_context R = None"
    and "open_context H (hired R) = (Some c, h1)" and "obuf h1 c = []"
  shows "subcribe_context R' = Some c \<and> subscribed_channels R' = subscribed_channels R \<and>
    wire (hired R') c = wire h1 c @ concat (map (\<lambda>ch. resp [''SUBSCRIBE'', dec_int ch]) (subscribed_channels R))"
  using assms by (auto simp: resubscribe_def dest: resend_flushes split: bind_splits)

end

text \<open>The channels stay in ascending order and without duplicates.\<close>

lemma subscribed_sorted:
  assumes "sorted (subscribed_channels R) \<and> distinct (subscribed_channels R)"
  shows "subscribe H ch R = Some (ok, R') \<Longrightarrow> sorted (subscribed_channels R') \<and> distinct (subscribed_channels R')"
    and "unsubscribe H ch R = Some (ok, R') \<Longrightarrow> sorted (subscribed_channels R') \<and> distinct (subscribed_channels R')"
  using assms
  by (auto simp: subscribe_def unsubscribe_def sorted_insort_insert distinct_insort_insert removeAll_filter_not_eq
      sorted_filter [of id, simplified] split: option.splits if_splits bind_splits)

text \<open>
  A subscriber connection that is up: \<open>incoming\<close> are the replies that were not read yet. \<open>poll\<close> is
  ready while there are some and takes none, \<open>redisGetReply\<close> takes the first.
\<close>

locale live_link = redis_link +
  fixes incoming :: "'a \<Rightarrow> nat \<Rightarrow> reply list"
  assumes poll_incoming: "incoming (snd (poll_in H c h)) c = incoming h c \<and> (fst (poll_in H c h) \<longleftrightarrow> incoming h c \<noteq> [])"
    and reply_taken: "incoming h c = rp # rps \<Longrightarrow> \<exists>h'. redisGetReply H c h = ((True, Some rp), h') \<and> incoming h' c = rps"
begin

lemma observer_takes:
  assumes "running R" and "subcribe_context R = Some c" and "incoming (hired R) c = rp # rps" and "message_of rp = Some m"
  shows "\<exists>h. observer_iteration H (True, True) R = Some (m, R\<lparr>hired := h\<rparr>) \<and> incoming h c = rps"
proof -
  obtain h1 where p: "poll_in H c (hired R) = (True, h1)" "incoming h1 c = rp # rps"
    using poll_incoming [of c "hired R"] assms(3) by (cases "poll_in H c (hired R)") simp
  from reply_taken [OF p(2)] obtain h2 where "redisGetReply H c h1 = ((True, Some rp), h2)" "incoming h2 c = rps" by blast
  with p assms show ?thesis by (intro exI [of _ h2]) (simp add: observer_iteration_def)
qed

lemma observer_idles:
  assumes "running R" and "subcribe_context R = Some c" and "incoming (hired R) c = []"
  shows "\<exists>h. observer_iteration H (True, True) R = Some (Nothing, R\<lparr>hired := h\<rparr>) \<and> incoming h c = []"
  using poll_incoming [of c "hired R"] assms
  by (cases "poll_in H c (hired R)") (auto simp: observer_iteration_def)

text \<open>Rounds on a connection that stays up report what the replies read say, in their order.\<close>

lemma observe_takes:
  assumes "running R" and "subcribe_context R = Some c" and "\<forall>rp \<in> set (incoming (hired R) c). message_of rp \<noteq> None"
  shows "\<exists>os R'. observe H n R = Some (os, R') \<and> incoming (hired R') c = drop n (incoming (hired R) c) \<and>
    handed os = handed (map (the \<circ> message_of) (take n (incoming (hired R) c)))"
  using assms
proof (induction n arbitrary: R)
  case (Suc n)
  show ?case
  proof (cases "incoming (hired R) c")
    case Nil
    with observer_idles [OF Suc.prems(1,2)] obtain h where
      "observer_iteration H (True, True) R = Some (Nothing, R\<lparr>hired := h\<rparr>)" "incoming h c = []" by blast
    with Suc.IH [of "R\<lparr>hired := h\<rparr>"] Suc.prems Nil show ?thesis by auto
  next
    case (Cons rp rps)
    with Suc.prems(3) obtain m where m: "message_of rp = Some m" by auto
    from observer_takes [OF Suc.prems(1,2) Cons m] obtain h where
      h: "observer_iteration H (True, True) R = Some (m, R\<lparr>hired := h\<rparr>)" "incoming h c = rps" by blast
    with Suc.IH [of "R\<lparr>hired := h\<rparr>"] Suc.prems Cons obtain os R' where
      "observe H n (R\<lparr>hired := h\<rparr>) = Some (os, R')" "incoming (hired R') c = drop n rps"
      "handed os = handed (map (the \<circ> message_of) (take n rps))" by (auto simp: comp_def)
    with h m Cons show ?thesis by (cases m) (auto simp: comp_def)
  qed
qed auto

end

subsection \<open>A concrete link\<close>

text \<open>
  An instance of the contract: every write moves up to 16 bytes of the buffer to the socket,
  a command is written in the protocol of Redis, replies come from an inbox.
\<close>

record link =
  next_ctx :: nat
  bufs :: "nat \<Rightarrow> string"
  wires :: "nat \<Rightarrow> string"
  inbox :: "nat \<Rightarrow> reply list"

definition crlf :: string where
  "crlf = [CHR 0x0D, CHR 0x0A]"

definition ref_resp :: "string list \<Rightarrow> string" where
  "ref_resp args = CHR ''*'' # dec_int (int (length args)) @ crlf @
     concat (map (\<lambda>a. CHR ''$'' # dec_int (int (length a)) @ crlf @ a @ crlf) args)"

definition ref_hiredis :: "link hiredis" where
  "ref_hiredis = \<lparr>
     redisConnect = \<lambda>h. (Some (next_ctx h), h\<lparr>next_ctx := Suc (next_ctx h)\<rparr>),
     ctx_err = \<lambda>_ _. False,
     redisFree = \<lambda>_ h. h,
     redisCommand = \<lambda>c args h. (Some Reply_other, h\<lparr>wires := (wires h)(c := wires h c @ ref_resp args)\<rparr>),
     redisAppendCommand = \<lambda>c args h. (True, h\<lparr>bufs := (bufs h)(c := bufs h c @ ref_resp args)\<rparr>),
     redisBufferWrite = \<lambda>c h. ((True, drop 16 (bufs h c) = []),
       h\<lparr>bufs := (bufs h)(c := drop 16 (bufs h c)), wires := (wires h)(c := wires h c @ take 16 (bufs h c))\<rparr>),
     redisGetReply = \<lambda>c h. (case inbox h c of [] \<Rightarrow> ((False, None), h)
       | r # rs \<Rightarrow> ((True, Some r), h\<lparr>inbox := (inbox h)(c := rs)\<rparr>)),
     poll_in = \<lambda>c h. (inbox h c \<noteq> [], h),
     fd_positive = \<lambda>_ _. True,
     sock_shutdown = \<lambda>_ h. h\<rparr>"

definition new_link :: link where
  "new_link = \<lparr>next_ctx = 0, bufs = \<lambda>_. [], wires = \<lambda>_. [], inbox = \<lambda>_. []\<rparr>"

interpretation ref_link: redis_link ref_hiredis bufs wires ref_resp
  by unfold_locales (auto simp: ref_hiredis_def)

interpretation ref_live: live_link ref_hiredis bufs wires ref_resp inbox
  by unfold_locales (auto simp: ref_hiredis_def)

definition new_redis :: "'h \<Rightarrow> 'h redis" where
  "new_redis h = \<lparr>hired = h, publish_context = None, subcribe_context = None,
     subscribed_channels = [], running = False\<rparr>"

subsection \<open>Properties\<close>

text \<open>
  (C26) Subscribing always returns. When it reports success, the command \<open>SUBSCRIBE\<close> for the
  channel is on the wire, after everything that was buffered before, with nothing left in the
  buffer, and the channel is recorded; otherwise the recorded channels are unchanged.
\<close>
theorem subscribe_sends:
  assumes "redis_link H obuf wire resp"
  shows "\<exists>ok R'. subscribe H ch R = Some (ok, R') \<and>
    (if ok then (\<exists>c. subcribe_context R = Some c \<and>
        set (subscribed_channels R') = insert ch (set (subscribed_channels R)) \<and> obuf (hired R') c = [] \<and>
        wire (hired R') c = wire (hired R) c @ obuf (hired R) c @ resp [''SUBSCRIBE'', dec_int ch])
     else subscribed_channels R' = subscribed_channels R)"
proof -
  from redis_link.subscribe_total [OF assms, of ch R] obtain ok R' where
    r: "subscribe H ch R = Some (ok, R')" by (auto elim: returnsE)
  show ?thesis
  proof (cases ok)
    case True
    with r have ok: "subscribe H ch R = Some (True, R')" by simp
    with redis_link.subscribe_ok [OF assms ok] show ?thesis
      by (intro exI [of _ True] exI [of _ R']) simp
  next
    case False
    with r subscribe_failed [of H ch R R'] show ?thesis
      by (intro exI [of _ False] exI [of _ R']) simp
  qed
qed

theorem subscribe_sends_witness:
  "\<exists>R'. subscribe ref_hiredis 7 ((new_redis new_link)\<lparr>subcribe_context := Some 0, subscribed_channels := [3, 9]\<rparr>) = Some (True, R') \<and>
    set (subscribed_channels R') = {3, 7, 9} \<and> wires (hired R') 0 = ref_resp [''SUBSCRIBE'', ''7'']"
proof -
  let ?R = "(new_redis new_link)\<lparr>subcribe_context := Some 0, subscribed_channels := [3, 9]\<rparr>"
  have t: "write_all ref_hiredis c h \<noteq> Some (False, h')" for c h h'
    by (rule ref_link.write_all_flushes_only) (simp add: ref_hiredis_def)
  from subscribe_sends [OF ref_link.redis_link_axioms, of 7 ?R] obtain ok R' where
    s: "subscribe ref_hiredis 7 ?R = Some (ok, R')" and
    k: "if ok then \<exists>c. subcribe_context ?R = Some c \<and>
        set (subscribed_channels R') = insert 7 (set (subscribed_channels ?R)) \<and> bufs (hired R') c = [] \<and>
        wires (hired R') c = wires (hired ?R) c @ bufs (hired ?R) c @ ref_resp [''SUBSCRIBE'', dec_int 7]
      else subscribed_channels R' = subscribed_channels ?R" by blast
  have "ok"
    using s t by (auto simp: subscribe_def send_command_def new_redis_def ref_hiredis_def split: bind_splits if_splits)
  moreover have "dec_int 7 = ''7''" by code_simp
  ultimately show ?thesis using s k by (auto simp: new_redis_def new_link_def)
qed

text \<open>
  (C27) After the connection was lost, a successful \<open>resubscribe\<close> sends on the new context one
  \<open>SUBSCRIBE\<close> for every recorded channel, and the record is unchanged.
\<close>
theorem resubscribe_restores:
  assumes "redis_link H obuf wire resp"
    and "subcribe_context R = None" and "open_context H (hired R) = (Some c, h1)" and "obuf h1 c = []"
  shows "\<exists>ok R'. resubscribe H R = Some (ok, R') \<and> subscribed_channels R' = subscribed_channels R \<and>
    subcribe_context R' = Some c \<and> (\<not> ok \<or> wire (hired R') c = wire h1 c @
      concat (map (\<lambda>ch. resp [''SUBSCRIBE'', dec_int ch]) (subscribed_channels R)))"
proof -
  from redis_link.resubscribe_total [OF assms(1), of R] obtain ok R' where
    r: "resubscribe H R = Some (ok, R')" by (auto elim: returnsE)
  then have "subscribed_channels R' = subscribed_channels R" "subcribe_context R' = Some c"
    using assms(2,3) by (auto simp: resubscribe_def split: bind_splits)
  with r redis_link.resubscribe_ok [OF assms(1) _ assms(2,3,4)] show ?thesis by (cases ok) auto
qed

theorem resubscribe_restores_witness:
  "\<exists>ok R'. resubscribe ref_hiredis ((new_redis new_link)\<lparr>subscribed_channels := [3, 5]\<rparr>) = Some (ok, R') \<and>
    subscribed_channels R' = [3, 5]"
  using resubscribe_restores [OF ref_link.redis_link_axioms,
      of "(new_redis new_link)\<lparr>subscribed_channels := [3, 5]\<rparr>" 0 "new_link\<lparr>next_ctx := 1\<rparr>"]
  by (auto simp: new_redis_def open_context_def ref_hiredis_def new_link_def)

text \<open>
  A channel subscribed while the subscriber connection is down is forgotten: the call
  reports failure, which no caller looks at, and the reconnection later subscribes only the
  channels recorded before, so the user who logged in meanwhile hears nothing from other servers.
\<close>
theorem subscribe_while_down_forgotten:
  assumes "redis_link H obuf wire resp" and "ch \<notin> set (subscribed_channels R)"
    and "subcribe_context R = None" and "open_context H (hired R) = (Some c, h1)" and "obuf h1 c = []"
  shows "subscribe H ch R = Some (False, R) \<and>
    (\<exists>ok R'. resubscribe H R = Some (ok, R') \<and> ch \<notin> set (subscribed_channels R') \<and>
      (\<not> ok \<or> (\<exists>chs. ch \<notin> set chs \<and> wire (hired R') c = wire h1 c @
        concat (map (\<lambda>ch. resp [''SUBSCRIBE'', dec_int ch]) chs))))"
proof -
  from redis_link.resubscribe_total [OF assms(1), of R] obtain ok R' where
    r: "resubscribe H R = Some (ok, R')" by (auto elim: returnsE)
  then have "subscribed_channels R' = subscribed_channels R"
    using assms(3,4) by (auto simp: resubscribe_def split: bind_splits)
  with r assms(2) redis_link.resubscribe_ok [OF assms(1) _ assms(3-5)] show ?thesis
    by (cases ok) (auto simp: subscribe_def assms(3))
qed

theorem subscribe_while_down_forgotten_witness:
  "subscribe ref_hiredis 7 (new_redis new_link) = Some (False, new_redis new_link)"
  using subscribe_while_down_forgotten [OF ref_link.redis_link_axioms,
      of 7 "new_redis new_link" 0 "new_link\<lparr>next_ctx := 1\<rparr>"]
  by (simp add: new_redis_def open_context_def ref_hiredis_def new_link_def)

text \<open>What arrives on a subscriber: a published message as Redis pushes it, or anything else.\<close>

datatype arrival = Published int string | Noise reply

fun reply_of :: "arrival \<Rightarrow> reply" where
  "reply_of (Published u txt) = Reply_array [Some (Some ''message''), Some (Some (dec_int u)), Some (Some txt)]"
| "reply_of (Noise rp) = rp"

fun published :: "arrival list \<Rightarrow> (int \<times> string) list" where
  "published [] = []"
| "published (Published u txt # as) = (u, c_str txt) # published as"
| "published (Noise rp # as) = published as"

text \<open>A reply whose kind is \<open>message\<close>; confirmations of subscriptions and errors are not.\<close>

definition is_message :: "reply \<Rightarrow> bool" where
  "is_message rp \<longleftrightarrow> (case rp of Reply_array (Some (Some kind) # _) \<Rightarrow> c_str kind = ''message'' | _ \<Rightarrow> False)"

lemma message_of_noise: "\<not> is_message rp \<Longrightarrow> message_of rp = Some Nothing"
  by (auto simp: message_of_def is_message_def split: reply.splits option.splits list.splits)

lemma message_of_arrival:
  assumes "\<forall>rp. a = Noise rp \<longrightarrow> \<not> is_message rp"
  shows "message_of (reply_of a) = Some (case a of Published u txt \<Rightarrow> Message u (c_str txt) | Noise rp \<Rightarrow> Nothing)"
  using assms by (cases a) (simp_all add: message_of_noise, simp add: message_of_def c_str_def)

lemma handed_arrivals:
  assumes "\<forall>rp. Noise rp \<in> set as \<longrightarrow> \<not> is_message rp"
  shows "handed (map (the \<circ> message_of \<circ> reply_of) as) = published as"
  using assms
proof (induction as)
  case (Cons a as)
  then have "message_of (reply_of a) = Some (case a of Published u txt \<Rightarrow> Message u (c_str txt) | Noise rp \<Rightarrow> Nothing)"
    by (intro message_of_arrival) auto
  with Cons show ?case by (cases a) auto
qed simp

text \<open>
  (C28) While the subscriber connection is up, the observer hands exactly the published messages to
  the notify handler, once each and in the order of their arrival, with the user id of the channel
  and the text up to its first zero byte: after \<open>n\<close> rounds those among the first \<open>n\<close> replies.
  Confirmations, errors and pushes of any other kind are read and ignored.
\<close>
theorem observer_delivers:
  assumes "live_link H obuf wire resp incoming" and "running R" and "subcribe_context R = Some c"
    and "incoming (hired R) c = map reply_of as" and "\<forall>rp. Noise rp \<in> set as \<longrightarrow> \<not> is_message rp"
  shows "\<exists>os R'. observe H n R = Some (os, R') \<and> handed os = published (take n as) \<and>
    incoming (hired R') c = map reply_of (drop n as)"
proof -
  have "\<forall>rp. Noise rp \<in> set (take n as) \<longrightarrow> \<not> is_message rp" using assms(5) by (meson in_set_takeD)
  note h = handed_arrivals [OF this]
  have "message_of (reply_of a) \<noteq> None" if "a \<in> set as" for a
  proof -
    have "\<forall>rp. a = Noise rp \<longrightarrow> \<not> is_message rp" using assms(5) that by blast
    from message_of_arrival [OF this] show ?thesis by simp
  qed
  then have "\<forall>rp \<in> set (incoming (hired R) c). message_of rp \<noteq> None" by (simp add: assms(4))
  from live_link.observe_takes [OF assms(1-3) this, of n] h show ?thesis
    by (auto simp: assms(4) take_map drop_map)
qed

theorem observer_delivers_witness:
  "\<exists>os R'. observe ref_hiredis 3 \<lparr>hired = new_link\<lparr>inbox := (\<lambda>_. map reply_of
      [Published 12 ''hi'', Noise (Reply_array [Some (Some ''pmessage''), Some (Some ''12''), Some (Some ''no'')]), Published 7 ''yo''])\<rparr>,
      publish_context = None, subcribe_context = Some 0, subscribed_channels = [7, 12], running = True\<rparr> = Some (os, R') \<and>
    handed os = [(12, ''hi''), (7, ''yo'')]"
  (is "\<exists>os R'. observe _ _ ?R = _ \<and> _")
proof -
  let ?as = "[Published 12 ''hi'', Noise (Reply_array [Some (Some ''pmessage''), Some (Some ''12''), Some (Some ''no'')]), Published 7 ''yo'']"
  have "\<exists>os R'. observe ref_hiredis 3 ?R = Some (os, R') \<and> handed os = published (take 3 ?as) \<and>
      inbox (hired R') 0 = map reply_of (drop 3 ?as)"
    by (rule observer_delivers [OF ref_live.live_link_axioms]) (simp_all add: is_message_def c_str_def)
  moreover have "published (take 3 ?as) = [(12, ''hi''), (7, ''yo'')]" by (simp add: c_str_def numeral_3_eq_3)
  ultimately show ?thesis by metis
qed

end
