(* ===== verification/ChatService.thy ===== *)
theory ChatService
  imports Wire Json Models Redis
begin

section \<open>The chat service\<close>

text \<open>
  \<open>chatservice.cpp\<close>. Its state is the database, the Redis client, the map from users to their
  connection on this server and the times of the last message; what it does to the outside is
  the list of packets sent, in order, and of connections shut down. A handler runs as a whole:
  it returns the exception of the JSON library (\<open>Inl\<close>, thrown before any effect) or the new
  state (\<open>Inr\<close>); \<open>None\<close> is the undefined or missing result of the operations it calls.
\<close>

subsection \<open>Message kinds\<close>

datatype msg_type = LOGIN_MSG | LOGIN_MSG_ACK | LOGINOUT_MSG | REG_MSG | REG_MSG_ACK
  | ONE_CHAT_MSG | ADD_FRIEND_MSG | CREATE_GROUP_MSG | ADD_GROUP_MSG | GROUP_CHAT_MSG
  | FRIEND_STATE_CHANGE_MSG | UPDATE_NAME_MSG | HEARTBEAT_MSG

fun code :: "msg_type \<Rightarrow> int" where
  "code LOGIN_MSG = 1"
| "code LOGIN_MSG_ACK = 2"
| "code LOGINOUT_MSG = 3"
| "code REG_MSG = 4"
| "code REG_MSG_ACK = 5"
| "code ONE_CHAT_MSG = 6"
| "code ADD_FRIEND_MSG = 7"
| "code CREATE_GROUP_MSG = 8"
| "code ADD_GROUP_MSG = 9"
| "code GROUP_CHAT_MSG = 10"
| "code FRIEND_STATE_CHANGE_MSG = 11"
| "code UPDATE_NAME_MSG = 12"
| "code HEARTBEAT_MSG = 13"

subsection \<open>State\<close>

text \<open>A \<open>TcpConnectionPtr\<close>: two of them are equal when they are the same connection.\<close>

record conn =
  cid :: nat
  cname :: string

record ('db, 'h) svc =
  dbs :: 'db
  redis_st :: "'h redis"
  userConnMap :: "(int \<times> conn) list"
  connectionLastTime :: "(string \<times> int \<times> conn) list"
  now :: int
  sent :: "(conn \<times> string) list"
  shut :: "conn list"

text \<open>The libraries the service is built on.\<close>

record ('db, 'h) env =
  sql :: "'db mysql"
  jlib :: json_lib
  hlib :: "'h hiredis"

type_synonym ('db, 'h) handler = "conn \<Rightarrow> json \<Rightarrow> ('db, 'h) svc \<Rightarrow> (json_error + ('db, 'h) svc) option"

definition on_db :: "('db \<Rightarrow> ('a \<times> 'db) option) \<Rightarrow> ('db, 'h) svc \<Rightarrow> ('a \<times> ('db, 'h) svc) option" where
  "on_db f w = do { (x, d) \<leftarrow> f (dbs w); Some (x, w\<lparr>dbs := d\<rparr>) }"

text \<open>The result of a Redis call is dropped by every caller.\<close>

definition on_redis :: "('h redis \<Rightarrow> (bool \<times> 'h redis) option) \<Rightarrow> ('db, 'h) svc \<Rightarrow> ('db, 'h) svc option" where
  "on_redis f w = do { (ok, r) \<leftarrow> f (redis_st w); Some (w\<lparr>redis_st := r\<rparr>) }"

definition redis_publish :: "('db, 'h) env \<Rightarrow> int \<Rightarrow> string \<Rightarrow> ('db, 'h) svc \<Rightarrow> ('db, 'h) svc" where
  "redis_publish E u m w = w\<lparr>redis_st := snd (publish (hlib E) u m (redis_st w))\<rparr>"

subsection \<open>Sending\<close>

definition sendJson :: "('db, 'h) env \<Rightarrow> conn \<Rightarrow> json \<Rightarrow> ('db, 'h) svc \<Rightarrow> ('db, 'h) svc" where
  "sendJson E c js w = w\<lparr>sent := sent w @ [(c, packet (dump (jlib E) js))]\<rparr>"

definition updateConnTime :: "conn \<Rightarrow> ('db, 'h) svc \<Rightarrow> ('db, 'h) svc" where
  "updateConnTime c w =
     w\<lparr>connectionLastTime := AList.update (cname c) (now w, c) (connectionLastTime w)\<rparr>"

text \<open>
  \<open>notifyFriendState\<close>: under the lock the friends are split into those connected here and the
  others; then the notice is sent to the first and published for the second.
\<close>

definition state_notice :: "int \<Rightarrow> string \<Rightarrow> json" where
  "state_notice u st = jobj [(''msgid'', JInt (code FRIEND_STATE_CHANGE_MSG)), (''friendid'', JInt u),
     (''state'', JStr st)]"

definition notifyFriendState :: "('db, 'h) env \<Rightarrow> int \<Rightarrow> string \<Rightarrow> ('db, 'h) svc \<Rightarrow> ('db, 'h) svc option" where
  "notifyFriendState E u st w = do {
     (fs, w1) \<leftarrow> on_db (FriendModel_query (sql E) u) w;
     let notify = state_notice u st;
     let fids = map uid fs;
     let onlineConns = somes (map (map_of (userConnMap w1)) fids);
     let crossIds = filter (\<lambda>f. map_of (userConnMap w1) f = None) fids;
     let w2 = foldl (\<lambda>w c. sendJson E c notify w) w1 onlineConns;
     Some (foldl (\<lambda>w f. redis_publish E f (dump (jlib E) notify) w) w2 crossIds)
   }"

subsection \<open>Login\<close>

definition error_reply :: "msg_type \<Rightarrow> string \<Rightarrow> json" where
  "error_reply k msg = jobj [(''msgid'', JInt (code k)), (''errno'', JInt 1), (''errmsg'', JStr msg)]"

definition friend_json :: "user \<Rightarrow> json" where
  "friend_json f = jobj [(''id'', JInt (uid f)), (''name'', JStr (uname f)), (''state'', JStr (ustate f))]"

definition member_json :: "group_user \<Rightarrow> json" where
  "member_json m = jobj [(''id'', JInt (uid m)), (''name'', JStr (uname m)), (''state'', JStr (ustate m)),
     (''role'', JStr (urole m))]"

definition group_json :: "json_lib \<Rightarrow> group \<Rightarrow> json" where
  "group_json J g = jobj [(''id'', JInt (gid g)), (''groupname'', JStr (gname g)),
     (''groupdesc'', JStr (gdesc g)), (''users'', jstrings (map (\<lambda>m. dump J (member_json m)) (gusers g)))]"

definition login_response :: "json_lib \<Rightarrow> user \<Rightarrow> string list \<Rightarrow> user list \<Rightarrow> group list \<Rightarrow> json" where
  "login_response J u vec userVec groupVec = jobj
     ([(''msgid'', JInt (code LOGIN_MSG_ACK)), (''errno'', JInt 0), (''id'', JInt (uid u)), (''name'', JStr (uname u))] @
      (if vec = [] then [] else [(''offlinemsg'', jstrings vec)]) @
      (if userVec = [] then [] else [(''friends'', jstrings (map (\<lambda>f. dump J (friend_json f)) userVec))]) @
      (if groupVec = [] then [] else [(''groups'', jstrings (map (\<lambda>g. dump J (group_json J g)) groupVec))]))"

text \<open>
  The registration of the connection. A user whom the database knows as online is logged in
  again: the old connection on this server is shut down and the channel subscribed anew.
\<close>

definition login_register :: "('db, 'h) env \<Rightarrow> conn \<Rightarrow> int \<Rightarrow> user \<Rightarrow> ('db, 'h) svc \<Rightarrow> ('db, 'h) svc option" where
  "login_register E c i u w =
     (if ustate u = ''online'' then do {
        let w1 = (case map_of (userConnMap w) i of
            Some old \<Rightarrow> w\<lparr>shut := shut w @ [old], userConnMap := AList.delete i (userConnMap w)\<rparr>
          | None \<Rightarrow> w);
        let w2 = w1\<lparr>userConnMap := AList.update i c (userConnMap w1)\<rparr>;
        w3 \<leftarrow> on_redis (unsubscribe (hlib E) i) w2;
        on_redis (subscribe (hlib E) i) w3
      } else do {
        let w1 = w\<lparr>userConnMap := AList.update i c (userConnMap w)\<rparr>;
        on_redis (subscribe (hlib E) i) w1
      })"

text \<open>
  Each handler below reads its fields and then does the operation defined before it. The answer to
  a successful login, and what follows it:
\<close>

definition login_answer :: "('db, 'h) env \<Rightarrow> conn \<Rightarrow> int \<Rightarrow> user \<Rightarrow> ('db, 'h) svc \<Rightarrow> ('db, 'h) svc option" where
  "login_answer E c i u w = do {
     let u' = u\<lparr>ustate := ''online''\<rparr>;
     (_, w1) \<leftarrow> on_db (UserModel_updateState (sql E) u') w;
     (vec, w2) \<leftarrow> on_db (OfflineMsgModel_query (sql E) i) w1;
     (userVec, w3) \<leftarrow> on_db (FriendModel_query (sql E) i) w2;
     (groupVec, w4) \<leftarrow> on_db (GroupModel_queryGroups (sql E) i) w3;
     let w5 = sendJson E c (login_response (jlib E) u' vec userVec groupVec) w4;
     (_, w6) \<leftarrow> (if vec = [] then Some ((), w5) else on_db (OfflineMsgModel_remove (sql E) i) w5);
     notifyFriendState E i ''online'' w6
   }"

definition login_user :: "('db, 'h) env \<Rightarrow> conn \<Rightarrow> int \<Rightarrow> string \<Rightarrow> ('db, 'h) svc \<Rightarrow>
    (json_error + ('db, 'h) svc) option" where
  "login_user E c i pwd w = do {
       (u, w1) \<leftarrow> on_db (UserModel_query (sql E) i) w;
       if uid u = i \<and> upwd u = pwd then do {
         w2 \<leftarrow> login_register E c i u w1;
         w3 \<leftarrow> login_answer E c i u w2;
         Some (Inr w3)
       } else Some (Inr (sendJson E c (error_reply LOGIN_MSG_ACK ''id or password is invalid!'') w1))
     }"

definition login :: "('db, 'h) env \<Rightarrow> ('db, 'h) handler" where
  "login E c js w =
     (if \<not> contains js ''id'' \<or> \<not> contains js ''password''
      then Some (Inr (sendJson E c (error_reply LOGIN_MSG_ACK ''invalid fields'') w))
      else case int_field (jlib E) js ''id'' of
        Inl e \<Rightarrow> Some (Inl e)
      | Inr i \<Rightarrow> (case string_field js ''password'' of
          Inl e \<Rightarrow> Some (Inl e)
        | Inr pwd \<Rightarrow> login_user E c i pwd w))"

subsection \<open>Registration, logout and lost connections\<close>

definition reg_user :: "('db, 'h) env \<Rightarrow> conn \<Rightarrow> string \<Rightarrow> string \<Rightarrow> ('db, 'h) svc \<Rightarrow>
    (json_error + ('db, 'h) svc) option" where
  "reg_user E c name pwd w = do {
       ((state, u), w1) \<leftarrow> on_db (UserModel_insert (sql E) (new_user\<lparr>uname := name, upwd := pwd\<rparr>)) w;
       Some (Inr (sendJson E c
         (if state then jobj [(''msgid'', JInt (code REG_MSG_ACK)), (''errno'', JInt 0), (''id'', JInt (uid u))]
          else jobj [(''msgid'', JInt (code REG_MSG_ACK)), (''errno'', JInt 1)]) w1))
     }"

definition reg :: "('db, 'h) env \<Rightarrow> ('db, 'h) handler" where
  "reg E c js w =
     (if \<not> contains js ''name'' \<or> \<not> contains js ''password''
      then Some (Inr (sendJson E c (error_reply REG_MSG_ACK ''invalid fields'') w))
      else case string_field js ''name'' of
        Inl e \<Rightarrow> Some (Inl e)
      | Inr name \<Rightarrow> (case string_field js ''password'' of
          Inl e \<Rightarrow> Some (Inl e)
        | Inr pwd \<Rightarrow> reg_user E c name pwd w))"

text \<open>\<open>User user(userid, "", "", "offline")\<close> written to the database, then the friends told.\<close>

definition go_offline :: "('db, 'h) env \<Rightarrow> int \<Rightarrow> ('db, 'h) svc \<Rightarrow> ('db, 'h) svc option" where
  "go_offline E i w = do {
     (_, w1) \<leftarrow> on_db (UserModel_updateState (sql E) \<lparr>uid = i, uname = [], upwd = [], ustate = ''offline''\<rparr>) w;
     notifyFriendState E i ''offline'' w1
   }"

definition logout_user :: "('db, 'h) env \<Rightarrow> conn \<Rightarrow> int \<Rightarrow> ('db, 'h) svc \<Rightarrow>
    (json_error + ('db, 'h) svc) option" where
  "logout_user E c i w = do {
       let w1 = w\<lparr>userConnMap := AList.delete i (userConnMap w)\<rparr>;
       w2 \<leftarrow> on_redis (unsubscribe (hlib E) i) w1;
       let w3 = w2\<lparr>connectionLastTime := AList.delete (cname c) (connectionLastTime w2)\<rparr>;
       w4 \<leftarrow> go_offline E i w3;
       Some (Inr w4)
     }"

definition loginout :: "('db, 'h) env \<Rightarrow> ('db, 'h) handler" where
  "loginout E c js w =
     (if \<not> contains js ''id'' then Some (Inr w)
      else case int_field (jlib E) js ''id'' of
        Inl e \<Rightarrow> Some (Inl e)
      | Inr i \<Rightarrow> logout_user E c i w)"

text \<open>
  The first entry of the map that holds the connection; the order of the list stands for the order
  in which the \<open>unordered_map\<close> is traversed.
\<close>

definition user_of_conn :: "conn \<Rightarrow> (int \<times> conn) list \<Rightarrow> int option" where
  "user_of_conn c m = (case filter (\<lambda>e. snd e = c) m of [] \<Rightarrow> None | (i, _) # _ \<Rightarrow> Some i)"

definition clientCloseException :: "('db, 'h) env \<Rightarrow> conn \<Rightarrow> ('db, 'h) svc \<Rightarrow> ('db, 'h) svc option" where
  "clientCloseException E c w = do {
     let (i, w1) = (case user_of_conn c (userConnMap w) of
         Some i \<Rightarrow> (i, w\<lparr>userConnMap := AList.delete i (userConnMap w)\<rparr>)
       | None \<Rightarrow> (-1, w));
     w2 \<leftarrow> on_redis (unsubscribe (hlib E) i) w1;
     let w3 = w2\<lparr>connectionLastTime := AList.delete (cname c) (connectionLastTime w2)\<rparr>;
     if i \<noteq> -1 then go_offline E i w3 else Some w3
   }"

subsection \<open>Chat\<close>

definition chat_to :: "('db, 'h) env \<Rightarrow> int \<Rightarrow> json \<Rightarrow> ('db, 'h) svc \<Rightarrow>
    (json_error + ('db, 'h) svc) option" where
  "chat_to E toid js w = (case map_of (userConnMap w) toid of
       Some toConn \<Rightarrow> Some (Inr (sendJson E toConn js w))
     | None \<Rightarrow> do {
         (u, w1) \<leftarrow> on_db (UserModel_query (sql E) toid) w;
         if ustate u = ''online'' then Some (Inr (redis_publish E toid (dump (jlib E) js) w1))
         else do {
           (_, w2) \<leftarrow> on_db (OfflineMsgModel_insert (sql E) toid (dump (jlib E) js)) w1;
           Some (Inr w2)
         }
       })"

definition oneChat :: "('db, 'h) env \<Rightarrow> ('db, 'h) handler" where
  "oneChat E c js w =
     (if \<not> contains js ''id'' \<or> \<not> contains js ''toid'' then Some (Inr w)
      else case int_field (jlib E) js ''toid'' of
        Inl e \<Rightarrow> Some (Inl e)
      | Inr toid \<Rightarrow> (case int_field (jlib E) js ''id'' of
          Inl e \<Rightarrow> Some (Inl e)
        | Inr fromid \<Rightarrow> chat_to E toid js w))"

text \<open>The second loop of \<open>groupChat\<close>: the ids to publish for, offline messages stored on the way.\<close>

fun group_offline :: "('db, 'h) env \<Rightarrow> string \<Rightarrow> int list \<Rightarrow> ('db, 'h) svc \<Rightarrow> (int list \<times> ('db, 'h) svc) option" where
  "group_offline E m [] w = Some ([], w)"
| "group_offline E m (i # is) w = do {
     (u, w1) \<leftarrow> on_db (UserModel_query (sql E) i) w;
     if ustate u = ''online'' then do {
       (cross, w2) \<leftarrow> group_offline E m is w1;
       Some (i # cross, w2)
     } else do {
       (_, w2) \<leftarrow> on_db (OfflineMsgModel_insert (sql E) i m) w1;
       group_offline E m is w2
     }
   }"

definition group_send :: "('db, 'h) env \<Rightarrow> int \<Rightarrow> int \<Rightarrow> json \<Rightarrow> ('db, 'h) svc \<Rightarrow>
    (json_error + ('db, 'h) svc) option" where
  "group_send E userid groupid js w = do {
       (ids, w1) \<leftarrow> on_db (GroupModel_queryGroupUsers (sql E) userid groupid) w;
       let w2 = foldl (\<lambda>w c. sendJson E c js w) w1 (somes (map (map_of (userConnMap w1)) ids));
       let offlineIds = filter (\<lambda>i. map_of (userConnMap w1) i = None) ids;
       (crossIds, w3) \<leftarrow> group_offline E (dump (jlib E) js) offlineIds w2;
       Some (Inr (foldl (\<lambda>w i. redis_publish E i (dump (jlib E) js) w) w3 crossIds))
     }"

definition groupChat :: "('db, 'h) env \<Rightarrow> ('db, 'h) handler" where
  "groupChat E c js w =
     (if \<not> contains js ''id'' \<or> \<not> contains js ''groupid'' then Some (Inr w)
      else case int_field (jlib E) js ''id'' of
        Inl e \<Rightarrow> Some (Inl e)
      | Inr userid \<Rightarrow> (case int_field (jlib E) js ''groupid'' of
          Inl e \<Rightarrow> Some (Inl e)
        | Inr groupid \<Rightarrow> group_send E userid groupid js w))"

subsection \<open>Friends, groups and names\<close>

definition befriend :: "('db, 'h) env \<Rightarrow> conn \<Rightarrow> int \<Rightarrow> int \<Rightarrow> ('db, 'h) svc \<Rightarrow>
    (json_error + ('db, 'h) svc) option" where
  "befriend E c userid friendid w = do {
       (_, w1) \<leftarrow> on_db (FriendModel_insert (sql E) userid friendid) w;
       (_, w2) \<leftarrow> on_db (FriendModel_insert (sql E) friendid userid) w1;
       (f, w3) \<leftarrow> on_db (UserModel_query (sql E) friendid) w2;
       Some (Inr (sendJson E c (jobj [(''msgid'', JInt (code ADD_FRIEND_MSG)), (''id'', JInt (uid f)),
         (''name'', JStr (uname f)), (''state'', JStr (ustate f))]) w3))
     }"

definition addFriend :: "('db, 'h) env \<Rightarrow> ('db, 'h) handler" where
  "addFriend E c js w =
     (if \<not> contains js ''id'' \<or> \<not> contains js ''friendid'' then Some (Inr w)
      else case int_field (jlib E) js ''id'' of
        Inl e \<Rightarrow> Some (Inl e)
      | Inr userid \<Rightarrow> (case int_field (jlib E) js ''friendid'' of
          Inl e \<Rightarrow> Some (Inl e)
        | Inr friendid \<Rightarrow> befriend E c userid friendid w))"

text \<open>Without a \<open>groupdesc\<close> the conversion of null to a string throws.\<close>

definition group_create :: "('db, 'h) env \<Rightarrow> conn \<Rightarrow> int \<Rightarrow> string \<Rightarrow> string \<Rightarrow> ('db, 'h) svc \<Rightarrow>
    (json_error + ('db, 'h) svc) option" where
  "group_create E c userid name desc w = do {
       ((ok, g), w1) \<leftarrow> on_db (GroupModel_createGroup (sql E) (new_group\<lparr>gname := name, gdesc := desc\<rparr>)) w;
       if ok then do {
         (_, w2) \<leftarrow> on_db (GroupModel_addGroup (sql E) userid (gid g) ''creator'') w1;
         Some (Inr (sendJson E c (jobj [(''msgid'', JInt (code CREATE_GROUP_MSG)), (''groupid'', JInt (gid g)),
           (''groupname'', JStr (gname g)), (''groupdesc'', JStr (gdesc g))]) w2))
       } else Some (Inr w1)
     }"

definition createGroup :: "('db, 'h) env \<Rightarrow> ('db, 'h) handler" where
  "createGroup E c js w =
     (if \<not> contains js ''id'' \<or> \<not> contains js ''groupname'' then Some (Inr w)
      else case int_field (jlib E) js ''id'' of
        Inl e \<Rightarrow> Some (Inl e)
      | Inr userid \<Rightarrow> (case string_field js ''groupname'' of
          Inl e \<Rightarrow> Some (Inl e)
        | Inr name \<Rightarrow> (case string_field js ''groupdesc'' of
            Inl e \<Rightarrow> Some (Inl e)
          | Inr desc \<Rightarrow> group_create E c userid name desc w)))"

definition group_join :: "('db, 'h) env \<Rightarrow> conn \<Rightarrow> int \<Rightarrow> int \<Rightarrow> ('db, 'h) svc \<Rightarrow>
    (json_error + ('db, 'h) svc) option" where
  "group_join E c userid groupid w = do {
       (_, w1) \<leftarrow> on_db (GroupModel_addGroup (sql E) userid groupid ''normal'') w;
       (g, w2) \<leftarrow> on_db (GroupModel_queryGroup (sql E) groupid) w1;
       Some (Inr (sendJson E c (jobj [(''msgid'', JInt (code ADD_GROUP_MSG)), (''groupid'', JInt (gid g)),
         (''groupname'', JStr (gname g))]) w2))
     }"

definition addGroup :: "('db, 'h) env \<Rightarrow> ('db, 'h) handler" where
  "addGroup E c js w =
     (if \<not> contains js ''id'' \<or> \<not> contains js ''groupid'' then Some (Inr w)
      else case int_field (jlib E) js ''id'' of
        Inl e \<Rightarrow> Some (Inl e)
      | Inr userid \<Rightarrow> (case int_field (jlib E) js ''groupid'' of
          Inl e \<Rightarrow> Some (Inl e)
        | Inr groupid \<Rightarrow> group_join E c userid groupid w))"

definition rename_user :: "('db, 'h) env \<Rightarrow> conn \<Rightarrow> int \<Rightarrow> string \<Rightarrow> ('db, 'h) svc \<Rightarrow>
    (json_error + ('db, 'h) svc) option" where
  "rename_user E c userid newName w = do {
       (ok, w1) \<leftarrow> on_db (UserModel_updateName (sql E) userid newName) w;
       Some (Inr (sendJson E c
         (if ok then jobj [(''msgid'', JInt (code UPDATE_NAME_MSG)), (''id'', JInt userid), (''name'', JStr newName)]
          else error_reply UPDATE_NAME_MSG ''Name already exists'') w1))
     }"

definition updateName :: "('db, 'h) env \<Rightarrow> ('db, 'h) handler" where
  "updateName E c js w =
     (if \<not> contains js ''id'' \<or> \<not> contains js ''name'' then Some (Inr w)
      else case int_field (jlib E) js ''id'' of
        Inl e \<Rightarrow> Some (Inl e)
      | Inr userid \<Rightarrow> (case string_field js ''name'' of
          Inl e \<Rightarrow> Some (Inl e)
        | Inr newName \<Rightarrow> rename_user E c userid newName w))"

subsection \<open>Messages from other servers, heartbeats and the restart\<close>

text \<open>
  \<open>handleRedisSubscribeMessage\<close>. Storing is skipped for state notices; the conversion of a
  \<open>msgid\<close> that is not a number throws on the observer's thread, where nothing catches it.
\<close>

definition handleRedisSubscribeMessage :: "('db, 'h) env \<Rightarrow> int \<Rightarrow> string \<Rightarrow> ('db, 'h) svc \<Rightarrow>
    (json_error + ('db, 'h) svc) option" where
  "handleRedisSubscribeMessage E u msg w =
     (case map_of (userConnMap w) u of
        Some c \<Rightarrow> Some (Inr (case parse (jlib E) msg of Some js \<Rightarrow> sendJson E c js w | None \<Rightarrow> w))
      | None \<Rightarrow>
          (let parsed = (case parse (jlib E) msg of Some js \<Rightarrow> js | None \<Rightarrow> JNull);
               kind = (if contains parsed ''msgid'' then int_field (jlib E) parsed ''msgid'' else Inr 0)
           in case kind of
                Inl e \<Rightarrow> Some (Inl e)
              | Inr k \<Rightarrow> if k = code FRIEND_STATE_CHANGE_MSG then Some (Inr w)
                  else do { (_, w1) \<leftarrow> on_db (OfflineMsgModel_insert (sql E) u msg) w; Some (Inr w1) }))"

definition heartbeat :: "('db, 'h) env \<Rightarrow> ('db, 'h) handler" where
  "heartbeat E c js w =
     Some (Inr (sendJson E c (jobj [(''msgid'', JInt (code HEARTBEAT_MSG))]) (updateConnTime c w)))"

definition checkHeartbeat :: "('db, 'h) svc \<Rightarrow> ('db, 'h) svc" where
  "checkHeartbeat w =
     w\<lparr>shut := shut w @ map (\<lambda>kv. snd (snd kv)) (filter (\<lambda>kv. now w - fst (snd kv) > 30) (connectionLastTime w))\<rparr>"

definition reset :: "('db, 'h) env \<Rightarrow> ('db, 'h) svc \<Rightarrow> ('db, 'h) svc option" where
  "reset E w = do { (_, w1) \<leftarrow> on_db (UserModel_resetState (sql E)) w; Some w1 }"

text \<open>The operations behind the fields that the handlers read.\<close>

lemmas handler_ops [simp] = login_user_def reg_user_def logout_user_def chat_to_def group_send_def befriend_def
  group_create_def group_join_def rename_user_def

subsection \<open>Dispatch\<close>

definition msgHandlerMap :: "('db, 'h) env \<Rightarrow> (int \<times> ('db, 'h) handler) list" where
  "msgHandlerMap E =
     [(code LOGIN_MSG, login E), (code LOGINOUT_MSG, loginout E), (code REG_MSG, reg E),
      (code ONE_CHAT_MSG, oneChat E), (code ADD_FRIEND_MSG, addFriend E),
      (code CREATE_GROUP_MSG, createGroup E), (code ADD_GROUP_MSG, addGroup E),
      (code GROUP_CHAT_MSG, groupChat E), (code UPDATE_NAME_MSG, updateName E),
      (code HEARTBEAT_MSG, heartbeat E)]"

definition getHandler :: "('db, 'h) env \<Rightarrow> int \<Rightarrow> ('db, 'h) handler" where
  "getHandler E msgid = (case map_of (msgHandlerMap E) msgid of
      None \<Rightarrow> (\<lambda>c js w. Some (Inr w)) | Some h \<Rightarrow> h)"

end
