(* ===== verification/ServiceFacts.thy ===== *)
theory ServiceFacts
  imports ChatService
begin

section \<open>Facts on the operations of the chat service\<close>

text \<open>
  What each operation leaves alone, what it sends, and that it returns. The handlers' properties
  are in \<open>ServiceProps\<close>.
\<close>

subsection \<open>The parts of the state\<close>

text \<open>The bookkeeping of connections is untouched.\<close>

definition quiet :: "('db, 'h) svc \<Rightarrow> ('db, 'h) svc \<Rightarrow> bool" where
  "quiet w w' \<longleftrightarrow> userConnMap w' = userConnMap w \<and> connectionLastTime w' = connectionLastTime w \<and>
     now w' = now w \<and> shut w' = shut w"

lemma quiet_refl [simp]: "quiet w w"
  by (simp add: quiet_def)

lemma quiet_trans [trans]: "quiet w w' \<Longrightarrow> quiet w' w'' \<Longrightarrow> quiet w w''"
  by (simp add: quiet_def)

lemma quietD:
  "quiet w w' \<Longrightarrow> userConnMap w' = userConnMap w"
  "quiet w w' \<Longrightarrow> connectionLastTime w' = connectionLastTime w"
  "quiet w w' \<Longrightarrow> now w' = now w"
  "quiet w w' \<Longrightarrow> shut w' = shut w"
  by (simp_all add: quiet_def)

lemma on_db_SomeE:
  assumes "on_db f w = Some (x, w')"
  obtains d where "f (dbs w) = Some (x, d)" "w' = w\<lparr>dbs := d\<rparr>"
  using assms by (auto simp: on_db_def split: bind_splits)

lemma on_redis_SomeE:
  assumes "on_redis f w = Some w'"
  obtains ok r where "f (redis_st w) = Some (ok, r)" "w' = w\<lparr>redis_st := r\<rparr>"
  using assms by (auto simp: on_redis_def split: bind_splits)

lemma quiet_on_db: "on_db f w = Some (x, w') \<Longrightarrow> quiet w w' \<and> sent w' = sent w \<and> redis_st w' = redis_st w"
  by (auto simp: quiet_def elim: on_db_SomeE)

lemma quiet_on_redis: "on_redis f w = Some w' \<Longrightarrow> quiet w w' \<and> sent w' = sent w \<and> dbs w' = dbs w"
  by (auto simp: quiet_def elim: on_redis_SomeE)

lemma sendJson_simps [simp]:
  "dbs (sendJson E c js w) = dbs w" "redis_st (sendJson E c js w) = redis_st w"
  "userConnMap (sendJson E c js w) = userConnMap w"
  "connectionLastTime (sendJson E c js w) = connectionLastTime w"
  "now (sendJson E c js w) = now w" "shut (sendJson E c js w) = shut w"
  "sent (sendJson E c js w) = sent w @ [(c, packet (dump (jlib E) js))]"
  by (simp_all add: sendJson_def)

lemma quiet_sendJson [intro]: "quiet w w' \<Longrightarrow> quiet w (sendJson E c js w')"
  by (simp add: quiet_def)

lemma redis_publish_simps [simp]:
  "dbs (redis_publish E u m w) = dbs w" "sent (redis_publish E u m w) = sent w"
  "userConnMap (redis_publish E u m w) = userConnMap w"
  "connectionLastTime (redis_publish E u m w) = connectionLastTime w"
  "now (redis_publish E u m w) = now w" "shut (redis_publish E u m w) = shut w"
  "redis_st (redis_publish E u m w) = snd (publish (hlib E) u m (redis_st w))"
  by (simp_all add: redis_publish_def)

lemma updateConnTime_simps [simp]:
  "dbs (updateConnTime c w) = dbs w" "sent (updateConnTime c w) = sent w"
  "userConnMap (updateConnTime c w) = userConnMap w" "redis_st (updateConnTime c w) = redis_st w"
  "now (updateConnTime c w) = now w" "shut (updateConnTime c w) = shut w"
  "connectionLastTime (updateConnTime c w) = AList.update (cname c) (now w, c) (connectionLastTime w)"
  by (simp_all add: updateConnTime_def)

text \<open>Sending one value to several connections, publishing one text on several channels.\<close>

definition send_all :: "('db, 'h) env \<Rightarrow> json \<Rightarrow> conn list \<Rightarrow> ('db, 'h) svc \<Rightarrow> ('db, 'h) svc" where
  "send_all E js cs w = foldl (\<lambda>w c. sendJson E c js w) w cs"

definition publish_all :: "'h hiredis \<Rightarrow> string \<Rightarrow> int list \<Rightarrow> 'h redis \<Rightarrow> 'h redis" where
  "publish_all H m is r = foldl (\<lambda>r i. snd (publish H i m r)) r is"

lemma foldl_sendJson:
  "foldl (\<lambda>w c. sendJson E c js w) w cs = w\<lparr>sent := sent w @ map (\<lambda>c. (c, packet (dump (jlib E) js))) cs\<rparr>"
  by (induction cs arbitrary: w) (simp_all add: sendJson_def)

lemma foldl_publish:
  "foldl (\<lambda>w i. redis_publish E i m w) w is = w\<lparr>redis_st := publish_all (hlib E) m is (redis_st w)\<rparr>"
  by (induction "is" arbitrary: w) (simp_all add: redis_publish_def publish_all_def)

lemmas service_folds = foldl_sendJson foldl_publish

subsection \<open>Notifying friends\<close>

text \<open>The connections of those of the ids that are connected here, and the other ids.\<close>

abbreviation here :: "('db, 'h) svc \<Rightarrow> int list \<Rightarrow> conn list" where
  "here w is \<equiv> somes (map (map_of (userConnMap w)) is)"

abbreviation elsewhere :: "('db, 'h) svc \<Rightarrow> int list \<Rightarrow> int list" where
  "elsewhere w is \<equiv> filter (\<lambda>i. map_of (userConnMap w) i = None) is"

lemma notify_SomeE:
  assumes "notifyFriendState E u st w = Some w'"
  obtains fs d where "FriendModel_query (sql E) u (dbs w) = Some (fs, d)"
    "w' = w\<lparr>dbs := d,
       sent := sent w @ map (\<lambda>c. (c, packet (dump (jlib E) (state_notice u st)))) (here w (map uid fs)),
       redis_st := publish_all (hlib E) (dump (jlib E) (state_notice u st)) (elsewhere w (map uid fs)) (redis_st w)\<rparr>"
  using assms by (auto simp: notifyFriendState_def service_folds Let_def elim!: on_db_SomeE split: bind_splits)

lemma quiet_notify:
  assumes "notifyFriendState E u st w = Some w'"
  shows "quiet w w' \<and> (\<exists>ps. sent w' = sent w @ ps)"
  using assms by (rule notify_SomeE) (simp add: quiet_def)

lemma quiet_go_offline: "go_offline E i w = Some w' \<Longrightarrow> quiet w w'"
  by (auto simp: go_offline_def split: bind_splits dest!: quiet_on_db quiet_notify intro: quiet_trans)

lemma quiet_login_answer: "login_answer E c i u w = Some w' \<Longrightarrow> quiet w w'"
  by (auto simp: login_answer_def Let_def quiet_def split: bind_splits if_splits dest!: quiet_on_db quiet_notify)

lemma quiet_group_offline:
  "group_offline E m is w = Some (cs, w') \<Longrightarrow> quiet w w' \<and> sent w' = sent w \<and> redis_st w' = redis_st w"
proof (induction "is" arbitrary: cs w)
  case (Cons i "is")
  then show ?case
    by (auto simp: quiet_def split: bind_splits if_splits dest!: quiet_on_db Cons.IH)
qed simp

subsection \<open>Requests\<close>

text \<open>A request that carries its fields, with their values.\<close>

definition login_request :: "json_lib \<Rightarrow> json \<Rightarrow> int \<Rightarrow> string \<Rightarrow> bool" where
  "login_request J js i pwd \<longleftrightarrow> contains js ''id'' \<and> contains js ''password'' \<and>
     int_field J js ''id'' = Inr i \<and> string_field js ''password'' = Inr pwd"

definition reg_request :: "json \<Rightarrow> string \<Rightarrow> string \<Rightarrow> bool" where
  "reg_request js name pwd \<longleftrightarrow> contains js ''name'' \<and> contains js ''password'' \<and>
     string_field js ''name'' = Inr name \<and> string_field js ''password'' = Inr pwd"

definition ids_request :: "json_lib \<Rightarrow> json \<Rightarrow> string \<Rightarrow> int \<Rightarrow> int \<Rightarrow> bool" where
  "ids_request J js k i j \<longleftrightarrow> contains js ''id'' \<and> contains js k \<and>
     int_field J js ''id'' = Inr i \<and> int_field J js k = Inr j"

text \<open>A message that the database can keep for a user: the user exists and the statement fits.\<close>

definition storable :: "('db, 'h) env \<Rightarrow> tables \<Rightarrow> int \<Rightarrow> string \<Rightarrow> bool" where
  "storable E t u m \<longleftrightarrow> u \<in> dom (users t) \<and> length m \<le> 65535 \<and>
     length (sprintf fmt_insert_offline [CInt u, CStr (escape (sql E) m)]) \<le> 2047"

abbreviation is_online :: "tables \<Rightarrow> int \<Rightarrow> bool" where
  "is_online t u \<equiv> ustate (user_of t u) = ''online''"

lemma request_32:
  "login_request J js i pwd \<Longrightarrow> is_int32 i" "ids_request J js k i j \<Longrightarrow> is_int32 i \<and> is_int32 j"
  by (auto simp: login_request_def ids_request_def dest: int_field_32)

text \<open>The connection that a second login replaces.\<close>

definition kicked :: "('db, 'h) svc \<Rightarrow> int \<Rightarrow> user \<Rightarrow> conn list" where
  "kicked w i u = (if ustate u = ''online'' then (case map_of (userConnMap w) i of None \<Rightarrow> [] | Some old \<Rightarrow> [old]) else [])"

subsection \<open>Sessions\<close>

text \<open>One connection per user, 32-bit ids, one time per connection name, none in the future.\<close>

definition svc_inv :: "('db, 'h) svc \<Rightarrow> bool" where
  "svc_inv w \<longleftrightarrow> distinct (map fst (userConnMap w)) \<and> (\<forall>i \<in> keys (userConnMap w). is_int32 i) \<and>
     distinct (map fst (connectionLastTime w)) \<and>
     (\<forall>e \<in> set (connectionLastTime w). fst e = cname (snd (snd e)) \<and> fst (snd e) \<le> now w)"

lemma quiet_inv: "quiet w w' \<Longrightarrow> svc_inv w' \<longleftrightarrow> svc_inv w"
  by (simp add: quiet_def svc_inv_def)

lemma user_of_conn_Some: "user_of_conn c m = Some u \<Longrightarrow> (u, c) \<in> set m"
proof -
  assume "user_of_conn c m = Some u"
  then obtain d es where "filter (\<lambda>e. snd e = c) m = (u, d) # es"
    by (auto simp: user_of_conn_def split: list.splits)
  then have "(u, d) \<in> set (filter (\<lambda>e. snd e = c) m)" by simp
  then show ?thesis by auto
qed

lemma user_of_conn_None: "user_of_conn c m = None \<longleftrightarrow> c \<notin> snd ` set m"
proof -
  have "user_of_conn c m = None \<longleftrightarrow> filter (\<lambda>e. snd e = c) m = []"
    by (auto simp: user_of_conn_def split: list.splits)
  then show ?thesis by (auto simp: filter_empty_conv)
qed

lemma user_of_conn_ex: "(u, c) \<in> set m \<Longrightarrow> \<exists>v. user_of_conn c m = Some v"
  using user_of_conn_None [of c m] by (cases "user_of_conn c m") force+

lemma close_effect:
  assumes "clientCloseException E c w = Some w'"
  shows "userConnMap w' = (case user_of_conn c (userConnMap w) of
      None \<Rightarrow> userConnMap w | Some u \<Rightarrow> AList.delete u (userConnMap w)) \<and>
    connectionLastTime w' = AList.delete (cname c) (connectionLastTime w) \<and> now w' = now w \<and> shut w' = shut w"
  using assms
  by (auto simp: clientCloseException_def Let_def quiet_def split: option.splits bind_splits if_splits
      dest!: quiet_on_redis quiet_go_offline)

lemma loginout_effect:
  assumes "loginout E c js w = Some (Inr w')"
  shows "quiet w w' \<or> (\<exists>i. userConnMap w' = AList.delete i (userConnMap w) \<and>
    connectionLastTime w' = AList.delete (cname c) (connectionLastTime w) \<and> now w' = now w \<and> shut w' = shut w)"
  using assms
  by (auto simp: loginout_def Let_def quiet_def split: bind_splits if_splits sum.splits dest!: quiet_on_redis quiet_go_offline)

lemma login_register_effect:
  assumes "login_register E c i u w = Some w'"
  shows "(userConnMap w' = AList.update i c (userConnMap w) \<or> userConnMap w' = AList.update i c (AList.delete i (userConnMap w))) \<and>
    connectionLastTime w' = connectionLastTime w \<and> now w' = now w \<and> shut w' = shut w @ kicked w i u"
  using assms
  by (auto simp: login_register_def Let_def kicked_def quiet_def split: option.splits bind_splits if_splits dest!: quiet_on_redis)

lemma login_effect:
  assumes "login E c js w = Some (Inr w')"
  shows "quiet w w' \<or> (\<exists>i u. is_int32 i \<and>
    (userConnMap w' = AList.update i c (userConnMap w) \<or> userConnMap w' = AList.update i c (AList.delete i (userConnMap w))) \<and>
    connectionLastTime w' = connectionLastTime w \<and> now w' = now w \<and> shut w' = shut w @ kicked w i u)"
proof (cases "quiet w w'")
  case False
  have "quiet w w' \<or> (\<exists>i u w1 w2. int_field (jlib E) js ''id'' = Inr i \<and> on_db (UserModel_query (sql E) i) w = Some (u, w1) \<and>
      login_register E c i u w1 = Some w2 \<and> login_answer E c i u w2 = Some w')"
    using assms by (auto simp: login_def split: sum.splits if_splits bind_splits
      intro!: quiet_sendJson intro: quiet_on_db [THEN conjunct1])
  with False obtain i u w1 w2 where i: "int_field (jlib E) js ''id'' = Inr i"
    and steps: "on_db (UserModel_query (sql E) i) w = Some (u, w1)" "login_register E c i u w1 = Some w2"
      "login_answer E c i u w2 = Some w'" by blast
  have "kicked w1 i u = kicked w i u" using quiet_on_db [OF steps(1)] by (simp add: kicked_def quiet_def)
  with quiet_on_db [OF steps(1)] login_register_effect [OF steps(2)] quiet_login_answer [OF steps(3)] int_field_32 [OF i]
  show ?thesis by (intro disjI2 exI [of _ i] exI [of _ u]) (simp add: quiet_def)
qed simp

text \<open>The other handlers leave the sessions alone, except that a heartbeat refreshes a time.\<close>

lemma quiet_handlers:
  "reg E c js w = Some (Inr w') \<Longrightarrow> quiet w w'"
  "oneChat E c js w = Some (Inr w') \<Longrightarrow> quiet w w'"
  "addFriend E c js w = Some (Inr w') \<Longrightarrow> quiet w w'"
  "createGroup E c js w = Some (Inr w') \<Longrightarrow> quiet w w'"
  "addGroup E c js w = Some (Inr w') \<Longrightarrow> quiet w w'"
  "updateName E c js w = Some (Inr w') \<Longrightarrow> quiet w w'"
  "groupChat E c js w = Some (Inr w') \<Longrightarrow> quiet w w'"
  "handleRedisSubscribeMessage E u m w = Some (Inr w') \<Longrightarrow> quiet w w'"
  "reset E w = Some w' \<Longrightarrow> quiet w w'"
  by (auto simp: reg_def oneChat_def addFriend_def createGroup_def addGroup_def updateName_def groupChat_def
      handleRedisSubscribeMessage_def reset_def quiet_def service_folds Let_def
      split: sum.splits if_splits bind_splits option.splits dest!: quiet_on_db quiet_group_offline)

lemma svc_inv_update:
  "svc_inv w \<Longrightarrow> svc_inv (updateConnTime c w)"
  by (auto simp: svc_inv_def dest!: set_update_cases)

lemma svc_inv_kept:
  assumes "svc_inv w" and "now w' = now w"
    and "\<exists>i. is_int32 i \<and> (userConnMap w' = userConnMap w \<or> userConnMap w' = AList.delete i (userConnMap w) \<or>
        userConnMap w' = AList.update i c (userConnMap w) \<or> userConnMap w' = AList.update i c (AList.delete i (userConnMap w)))"
    and "connectionLastTime w' = connectionLastTime w \<or> connectionLastTime w' = AList.delete n (connectionLastTime w)"
  shows "svc_inv w'"
proof -
  have "\<forall>e \<in> set (connectionLastTime w'). fst e = cname (snd (snd e)) \<and> fst (snd e) \<le> now w'"
    using assms(1,2,4) by (auto simp: svc_inv_def dest!: set_delete_subset)
  moreover have "distinct (map fst (connectionLastTime w'))" using assms(1,4) by (auto simp: svc_inv_def)
  moreover have "distinct (map fst (userConnMap w')) \<and> (\<forall>i \<in> keys (userConnMap w'). is_int32 i)"
    using assms(1,3) by (auto simp: svc_inv_def intro!: distinct_fst_update distinct_fst_delete)
  ultimately show ?thesis by (simp add: svc_inv_def)
qed

lemma close_keeps:
  assumes "svc_inv w" and "clientCloseException E old w = Some w'" and "map_of (userConnMap w) i = Some c" and "c \<noteq> old"
  shows "map_of (userConnMap w') i = Some c"
proof (cases "user_of_conn old (userConnMap w)")
  case None
  with close_effect [OF assms(2)] assms(3) show ?thesis by simp
next
  case (Some u)
  from user_of_conn_Some [OF Some] assms(1) have "map_of (userConnMap w) u = Some old"
    by (simp add: svc_inv_def)
  with assms(3,4) have "u \<noteq> i" by auto
  with close_effect [OF assms(2)] Some assms(3) show ?thesis by (simp add: delete_conv')
qed

lemma login_inv: "svc_inv w \<Longrightarrow> login E c js w = Some (Inr w') \<Longrightarrow> svc_inv w'"
  by (drule login_effect) (auto simp: quiet_inv intro: svc_inv_kept)

text \<open>Without any promise that the database answers: the state is written or not.\<close>

lemma go_offline_tables:
  assumes "mysql_server (sql E) T K" and "go_offline E i w = Some w'"
  shows "T (dbs w') = T (dbs w) \<or> T (dbs w') = set_state i ''offline'' (T (dbs w))"
proof -
  let ?u = "\<lparr>uid = i, uname = [], upwd = [], ustate = ''offline''\<rparr>"
  from assms(2) obtain ok w1 where "on_db (UserModel_updateState (sql E) ?u) w = Some (ok, w1)"
    and n: "notifyFriendState E i ''offline'' w1 = Some w'"
    by (auto simp: go_offline_def split: bind_splits)
  then obtain d where d: "UserModel_updateState (sql E) ?u (dbs w) = Some (ok, d)" "dbs w1 = d"
    by (auto elim: on_db_SomeE)
  from n obtain fs d2 where "FriendModel_query (sql E) i (dbs w1) = Some (fs, d2)" "dbs w' = d2"
    by (auto elim: notify_SomeE)
  with mysql_server.friend_query [OF assms(1)] mysql_server.user_updateState [OF assms(1) d(1)] d(2)
  show ?thesis by (auto split: if_splits)
qed

subsection \<open>The service over libraries that keep their contracts\<close>

locale chat_libs =
  db: mysql_server "sql E" T K + link: redis_link "hlib E" obuf wire resp
  for E :: "('db, 'h) env" and T :: "'db \<Rightarrow> tables" and K :: "string \<Rightarrow> string"
    and obuf :: "'h \<Rightarrow> nat \<Rightarrow> string" and wire :: "'h \<Rightarrow> nat \<Rightarrow> string" and resp :: "string list \<Rightarrow> string"
begin

lemma on_db_returns: "returns (f (dbs w)) \<Longrightarrow> returns (on_db f w)"
  by (auto simp: on_db_def intro!: returns_bind)

lemma on_redis_returns: "returns (f (redis_st w)) \<Longrightarrow> returns (on_redis f w)"
  by (auto simp: on_redis_def intro!: returns_bind)

lemma notify_returns: "returns (notifyFriendState E u st w)"
  by (auto simp: notifyFriendState_def Let_def intro!: returns_bind on_db_returns)

lemma go_offline_returns: "is_int32 i \<Longrightarrow> returns (go_offline E i w)"
  by (auto simp: go_offline_def intro!: returns_bind on_db_returns notify_returns db.updateState_returns)

lemma close_returns: "svc_inv w \<Longrightarrow> returns (clientCloseException E c w)"
  by (auto simp: clientCloseException_def Let_def svc_inv_def keys_def dest!: user_of_conn_Some
      intro!: returns_bind on_redis_returns link.unsubscribe_total go_offline_returns split: option.split)

lemma login_answer_returns: "is_int32 (uid u) \<Longrightarrow> returns (login_answer E c i u w)"
  by (auto simp: login_answer_def Let_def intro!: returns_bind on_db_returns notify_returns db.updateState_returns)

lemma login_register_returns: "returns (login_register E c i u w)"
  by (auto simp: login_register_def Let_def split: option.split
    intro!: returns_bind on_redis_returns link.subscribe_total link.unsubscribe_total)

lemma login_returns: "returns (login E c js w)"
  by (auto simp: login_def intro!: returns_bind on_db_returns login_register_returns login_answer_returns
    dest: int_field_32 split: sum.split)

lemma loginout_returns: "returns (loginout E c js w)"
  by (auto simp: loginout_def Let_def intro!: returns_bind on_redis_returns link.unsubscribe_total go_offline_returns
    dest: int_field_32 split: sum.split)

lemma oneChat_returns: "returns (oneChat E c js w)"
  by (auto simp: oneChat_def intro!: returns_bind on_db_returns split: sum.split option.split)

lemma group_offline_returns: "returns (group_offline E m is w)"
  by (induction "is" arbitrary: w) (auto intro!: returns_bind on_db_returns)

lemma groupChat_returns: "returns (groupChat E c js w)"
  by (auto simp: groupChat_def Let_def intro!: returns_bind on_db_returns group_offline_returns split: sum.split)

lemma addFriend_returns: "returns (addFriend E c js w)"
  by (auto simp: addFriend_def intro!: returns_bind on_db_returns split: sum.split)

lemma addGroup_handler_returns: "returns (addGroup E c js w)"
  by (auto simp: addGroup_def intro!: returns_bind on_db_returns db.addGroup_returns dest: int_field_32 split: sum.split)

lemma heartbeat_returns: "returns (heartbeat E c js w)"
  by (simp add: heartbeat_def)

lemma handleRedis_returns: "returns (handleRedisSubscribeMessage E u m w)"
  by (auto simp: handleRedisSubscribeMessage_def Let_def intro!: returns_bind on_db_returns split: option.split sum.split)

lemma reset_returns: "returns (reset E w)"
  by (auto simp: reset_def intro!: returns_bind on_db_returns)

end

lemma clear_offline_none: "offline t i = {#} \<Longrightarrow> clear_offline i t = t"
  by (cases t) (auto simp: clear_offline_def fun_eq_iff)

text \<open>The same libraries with a database that is up.\<close>

locale chat_reliable = chat_libs E T K obuf wire resp + up: reliable_mysql "sql E" T K ready busy
  for E :: "('db, 'h) env" and T :: "'db \<Rightarrow> tables" and K :: "string \<Rightarrow> string"
    and obuf :: "'h \<Rightarrow> nat \<Rightarrow> string" and wire :: "'h \<Rightarrow> nat \<Rightarrow> string" and resp :: "string list \<Rightarrow> string"
    and ready :: "'db \<Rightarrow> bool" and busy :: "'db \<Rightarrow> bool"
begin

lemma on_db_run:
  assumes "\<exists>x d. f (dbs w) = Some (x, d) \<and> ready d \<and> P x (T d)"
  obtains x d where "on_db f w = Some (x, w\<lparr>dbs := d\<rparr>)" "f (dbs w) = Some (x, d)" "ready d" "P x (T d)"
  using assms by (auto simp: on_db_def)

lemma uids_of_friends: "set as = friend_ids t u \<Longrightarrow> map uid (map (friend_of t) as) = as"
  by (auto simp: friend_ids_def friend_of_def user_of_def intro!: map_idI)

lemma notify_ready:
  assumes "ready (dbs w)"
  shows "\<exists>w' as. notifyFriendState E u st w = Some w' \<and> quiet w w' \<and> ready (dbs w') \<and> T (dbs w') = T (dbs w) \<and>
    distinct as \<and> set as = friend_ids (T (dbs w)) u \<and>
    sent w' = sent w @ map (\<lambda>c. (c, packet (dump (jlib E) (state_notice u st)))) (here w as) \<and>
    redis_st w' = publish_all (hlib E) (dump (jlib E) (state_notice u st)) (elsewhere w as) (redis_st w)"
proof -
  from up.friend_query_ready [OF assms, of u] obtain as d where
    q: "FriendModel_query (sql E) u (dbs w) = Some (map (friend_of (T (dbs w))) as, d)" and r: "ready d" "T d = T (dbs w)"
    and as: "distinct as" "set as = friend_ids (T (dbs w)) u" by blast
  from notify_returns [of u st w] obtain w' where n: "notifyFriendState E u st w = Some w'" by (auto elim: returnsE)
  from n obtain fs d2 where w': "FriendModel_query (sql E) u (dbs w) = Some (fs, d2)"
    "w' = w\<lparr>dbs := d2,
       sent := sent w @ map (\<lambda>c. (c, packet (dump (jlib E) (state_notice u st)))) (here w (map uid fs)),
       redis_st := publish_all (hlib E) (dump (jlib E) (state_notice u st)) (elsewhere w (map uid fs)) (redis_st w)\<rparr>"
    by (rule notify_SomeE)
  have fs: "map uid fs = as" "d2 = d" using q w'(1) uids_of_friends [OF as(2)] by simp_all
  note w2 = w'(2) [unfolded fs]
  show ?thesis
    by (intro exI [of _ w'] exI [of _ as] conjI) (use n r as in \<open>simp_all add: w2 quiet_def\<close>)
qed

lemma go_offline_ready:
  assumes "ready (dbs w)" and "is_int32 i"
  shows "\<exists>w' as. go_offline E i w = Some w' \<and> quiet w w' \<and> ready (dbs w') \<and>
    T (dbs w') = set_state i ''offline'' (T (dbs w)) \<and>
    distinct as \<and> set as = friend_ids (T (dbs w')) i \<and>
    sent w' = sent w @ map (\<lambda>c. (c, packet (dump (jlib E) (state_notice i ''offline'')))) (here w as) \<and>
    redis_st w' = publish_all (hlib E) (dump (jlib E) (state_notice i ''offline'')) (elsewhere w as) (redis_st w)"
proof -
  let ?u = "\<lparr>uid = i, uname = [], upwd = [], ustate = ''offline''\<rparr>"
  from up.updateState_ready [OF assms(1), of ?u] assms(2) obtain d where
    u: "on_db (UserModel_updateState (sql E) ?u) w = Some (True, w\<lparr>dbs := d\<rparr>)"
      "ready d" "T d = set_state i ''offline'' (T (dbs w))"
    by (auto simp: on_db_def)
  from notify_ready [of "w\<lparr>dbs := d\<rparr>" i "''offline''"] u(2,3) obtain w' as where
    "notifyFriendState E i ''offline'' (w\<lparr>dbs := d\<rparr>) = Some w'" "quiet w w'" "ready (dbs w')"
    "T (dbs w') = set_state i ''offline'' (T (dbs w))" "distinct as" "set as = friend_ids (T (dbs w')) i"
    "sent w' = sent w @ map (\<lambda>c. (c, packet (dump (jlib E) (state_notice i ''offline'')))) (here w as)"
    "redis_st w' = publish_all (hlib E) (dump (jlib E) (state_notice i ''offline'')) (elsewhere w as) (redis_st w)"
    by (auto simp: quiet_def)
  with u(1) show ?thesis by (intro exI [of _ w'] exI [of _ as]) (simp add: go_offline_def)
qed

text \<open>The answer to a login: the stored messages are sent to the client and then deleted.\<close>

lemma login_answer_ready:
  assumes "ready (dbs w)" and "is_int32 i" and "uid u = i"
  shows "\<exists>w' vec fs gs rest. login_answer E c i u w = Some w' \<and> quiet w w' \<and> ready (dbs w') \<and>
    T (dbs w') = clear_offline i (set_state i ''online'' (T (dbs w))) \<and>
    mset vec = image_mset c_str (offline (T (dbs w)) i) \<and>
    sent w' = sent w @ (c, packet (dump (jlib E) (login_response (jlib E) (u\<lparr>ustate := ''online''\<rparr>) vec fs gs))) # rest"
proof -
  let ?u = "u\<lparr>ustate := ''online''\<rparr>"
  let ?t = "set_state i ''online'' (T (dbs w))"
  have off: "offline ?t = offline (T (dbs w))" by (simp add: set_state_def split: option.split)
  from up.updateState_ready [OF assms(1), of ?u] assms(2,3) obtain d1 where
    s1: "UserModel_updateState (sql E) ?u (dbs w) = Some (True, d1)" "ready d1" "T d1 = ?t" by auto
  from up.offline_query_ready [OF s1(2), of i] off s1(3) obtain vec d2 where
    s2: "OfflineMsgModel_query (sql E) i d1 = Some (vec, d2)" "ready d2" "T d2 = ?t"
      "mset vec = image_mset c_str (offline (T (dbs w)) i)" by auto
  from up.friend_query_ready [OF s2(2), of i] s2(3) obtain fs d3 where
    s3: "FriendModel_query (sql E) i d2 = Some (fs, d3)" "ready d3" "T d3 = ?t" by auto
  from up.groups_query_ready [OF s3(2), of i] s3(3) obtain gs d4 where
    s4: "GroupModel_queryGroups (sql E) i d3 = Some (gs, d4)" "ready d4" "T d4 = ?t" by auto
  define w5 where "w5 = sendJson E c (login_response (jlib E) ?u vec fs gs) (w\<lparr>dbs := d4\<rparr>)"
  have "\<exists>d5. (if vec = [] then Some ((), w5) else on_db (OfflineMsgModel_remove (sql E) i) w5) = Some ((), w5\<lparr>dbs := d5\<rparr>) \<and>
    ready d5 \<and> T d5 = clear_offline i ?t"
  proof (cases "vec = []")
    case True
    with s2(4) have "offline ?t i = {#}" using off by simp
    then have "clear_offline i ?t = ?t" by (rule clear_offline_none)
    with True s4 show ?thesis by (intro exI [of _ d4]) (simp add: w5_def sendJson_def)
  next
    case False
    with up.offline_remove_ready [of "dbs w5" i] s4 show ?thesis by (auto simp: w5_def on_db_def)
  qed
  then obtain d5 where s5: "(if vec = [] then Some ((), w5) else on_db (OfflineMsgModel_remove (sql E) i) w5) = Some ((), w5\<lparr>dbs := d5\<rparr>)"
    "ready d5" "T d5 = clear_offline i ?t" by blast
  from notify_ready [of "w5\<lparr>dbs := d5\<rparr>" i "''online''"] s5 obtain w6 rest where
    s6: "notifyFriendState E i ''online'' (w5\<lparr>dbs := d5\<rparr>) = Some w6" "quiet (w5\<lparr>dbs := d5\<rparr>) w6" "ready (dbs w6)"
      "T (dbs w6) = clear_offline i ?t" "sent w6 = sent w5 @ rest" by auto
  have "login_answer E c i u w = Some w6"
    using s1(1) s2(1) s3(1) s4(1) s5(1) s6(1)
    by (simp add: login_answer_def on_db_def w5_def [symmetric])
  moreover have "quiet w w6" using s6(2) by (simp add: quiet_def w5_def)
  ultimately show ?thesis using s2(4) s6(3-5) by (fastforce simp: w5_def)
qed

lemma login_register_some:
  "\<exists>r. login_register E c i u w = Some (w\<lparr>redis_st := r,
      userConnMap := AList.update i c (if kicked w i u = [] then userConnMap w else AList.delete i (userConnMap w)),
      shut := shut w @ kicked w i u\<rparr>)"
proof -
  have sub: "\<exists>ok r'. subscribe (hlib E) i r = Some (ok, r')" for r
    using link.subscribe_total [of i r] by (auto elim: returnsE)
  have unsub: "\<exists>ok r'. unsubscribe (hlib E) i r = Some (ok, r')" for r
    using link.unsubscribe_total [of i r] by (auto elim: returnsE)
  show ?thesis
  proof (cases "ustate u = ''online''")
    case True
    obtain ok r where r: "unsubscribe (hlib E) i (redis_st w) = Some (ok, r)" using unsub by blast
    obtain ok' r' where "subscribe (hlib E) i r = Some (ok', r')" using sub by blast
    with r True show ?thesis
      by (cases "map_of (userConnMap w) i") (auto simp: login_register_def kicked_def on_redis_def Let_def intro!: exI [of _ r'] svc.equality)
  next
    case False
    obtain ok r where "subscribe (hlib E) i (redis_st w) = Some (ok, r)" using sub by blast
    with False show ?thesis
      by (auto simp: login_register_def kicked_def on_redis_def Let_def intro!: exI [of _ r] svc.equality)
  qed
qed

lemma login_ready:
  assumes "ready (dbs w)" and "login_request (jlib E) js i pwd"
    and "uid (user_of (T (dbs w)) i) = i" and "upwd (user_of (T (dbs w)) i) = pwd"
  shows "\<exists>w' vec fs gs rest. login E c js w = Some (Inr w') \<and> ready (dbs w') \<and>
    map_of (userConnMap w') = (map_of (userConnMap w))(i \<mapsto> c) \<and>
    connectionLastTime w' = connectionLastTime w \<and> now w' = now w \<and>
    shut w' = shut w @ kicked w i (user_of (T (dbs w)) i) \<and>
    T (dbs w') = clear_offline i (set_state i ''online'' (T (dbs w))) \<and>
    mset vec = image_mset c_str (offline (T (dbs w)) i) \<and>
    sent w' = sent w @ (c, packet (dump (jlib E) (login_response (jlib E)
      ((user_of (T (dbs w)) i)\<lparr>ustate := ''online''\<rparr>) vec fs gs))) # rest"
proof -
  let ?u = "user_of (T (dbs w)) i"
  from up.user_query_ready [OF assms(1), of i] obtain d where
    q: "UserModel_query (sql E) i (dbs w) = Some (?u, d)" "ready d" "T d = T (dbs w)" by blast
  let ?w1 = "w\<lparr>dbs := d\<rparr>"
  from login_register_some [of c i ?u ?w1] obtain w2 where
    r: "login_register E c i ?u ?w1 = Some w2" "dbs w2 = d" "sent w2 = sent w" "now w2 = now w"
      "connectionLastTime w2 = connectionLastTime w" "shut w2 = shut w @ kicked w i ?u"
      "map_of (userConnMap w2) = (map_of (userConnMap w))(i \<mapsto> c)"
    by (auto simp: kicked_def update_conv' delete_conv' split: if_splits option.splits)
  from login_answer_ready [of w2 i ?u c] q r assms(3) request_32(1) [OF assms(2)] obtain w3 vec fs gs rest where
    "login_answer E c i ?u w2 = Some w3" "quiet w2 w3" "ready (dbs w3)"
    "T (dbs w3) = clear_offline i (set_state i ''online'' (T (dbs w)))"
    "mset vec = image_mset c_str (offline (T (dbs w)) i)"
    "sent w3 = sent w @ (c, packet (dump (jlib E) (login_response (jlib E) (?u\<lparr>ustate := ''online''\<rparr>) vec fs gs))) # rest"
    by auto
  moreover from this(1) q(1) r(1) assms(2-4) have "login E c js w = Some (Inr w3)"
    by (simp add: login_def login_request_def on_db_def)
  ultimately show ?thesis using r(4-7)
    by (intro exI [of _ w3] exI [of _ vec] exI [of _ fs] exI [of _ gs] exI [of _ rest]) (simp add: quiet_def)
qed

lemma oneChat_ready:
  assumes "ready (dbs w)" and "ids_request (jlib E) js ''toid'' fromid toid"
    and "storable E (T (dbs w)) toid (dump (jlib E) js)"
  shows "\<exists>w'. oneChat E c js w = Some (Inr w') \<and> quiet w w' \<and> ready (dbs w') \<and>
    (case map_of (userConnMap w) toid of
       Some tc \<Rightarrow> sent w' = sent w @ [(tc, packet (dump (jlib E) js))] \<and> redis_st w' = redis_st w \<and> T (dbs w') = T (dbs w)
     | None \<Rightarrow> sent w' = sent w \<and>
         (if is_online (T (dbs w)) toid
          then redis_st w' = snd (publish (hlib E) toid (dump (jlib E) js) (redis_st w)) \<and> T (dbs w') = T (dbs w)
          else redis_st w' = redis_st w \<and> T (dbs w') = add_offline toid (dump (jlib E) js) (T (dbs w))))"
proof (cases "map_of (userConnMap w) toid")
  case (Some tc)
  with assms show ?thesis by (simp add: oneChat_def ids_request_def quiet_def)
next
  case None
  let ?m = "dump (jlib E) js"
  from up.user_query_ready [OF assms(1), of toid] obtain d where
    q: "UserModel_query (sql E) toid (dbs w) = Some (user_of (T (dbs w)) toid, d)" "ready d" "T d = T (dbs w)" by blast
  show ?thesis
  proof (cases "is_online (T (dbs w)) toid")
    case True
    with None q assms(2) show ?thesis by (simp add: oneChat_def ids_request_def on_db_def quiet_def)
  next
    case False
    from up.offline_insert_ready [of d toid ?m] q assms(3) obtain d2 where
      "OfflineMsgModel_insert (sql E) toid ?m d = Some ((), d2)" "ready d2" "T d2 = add_offline toid ?m (T (dbs w))"
      by (auto simp: storable_def)
    with False None q assms(2) show ?thesis by (simp add: oneChat_def ids_request_def on_db_def quiet_def)
  qed
qed

lemma users_add_offline [simp]: "users (add_offline v m t) = users t"
  by (simp add: add_offline_def)

lemma group_offline_ready:
  "ready (dbs w) \<Longrightarrow> length m \<le> 65535 \<Longrightarrow>
    \<exists>w'. group_offline E m is w = Some (filter (is_online (T (dbs w))) is, w') \<and> ready (dbs w') \<and>
      T (dbs w') = fold (\<lambda>v. add_offline v m) (filter (\<lambda>v. \<not> is_online (T (dbs w)) v \<and> storable E (T (dbs w)) v m) is) (T (dbs w))"
proof (induction "is" arbitrary: w)
  case (Cons v "is")
  from up.user_query_ready [OF Cons.prems(1), of v] obtain d where
    q: "UserModel_query (sql E) v (dbs w) = Some (user_of (T (dbs w)) v, d)" "ready d" "T d = T (dbs w)" by blast
  show ?case
  proof (cases "is_online (T (dbs w)) v")
    case True
    with Cons.IH [of "w\<lparr>dbs := d\<rparr>"] q Cons.prems(2) show ?thesis by (auto simp: on_db_def)
  next
    case False
    from up.offline_insert_any [OF q(2) Cons.prems(2), of v] q(3) Cons.prems(2) obtain d2 where
      i: "OfflineMsgModel_insert (sql E) v m d = Some ((), d2)" "ready d2"
        "T d2 = (if storable E (T (dbs w)) v m then add_offline v m (T (dbs w)) else T (dbs w))"
      by (auto simp: storable_def split: if_splits)
    have same: "user_of (T d2) = user_of (T (dbs w))" "storable E (T d2) = storable E (T (dbs w))"
      by (simp_all add: i(3) fun_eq_iff user_of_def storable_def)
    from Cons.IH [of "w\<lparr>dbs := d2\<rparr>"] Cons.prems(2) i(2) obtain w' where
      "group_offline E m is (w\<lparr>dbs := d2\<rparr>) = Some (filter (is_online (T (dbs w))) is, w')" "ready (dbs w')"
      "T (dbs w') = fold (\<lambda>v. add_offline v m) (filter (\<lambda>v. \<not> is_online (T (dbs w)) v \<and> storable E (T (dbs w)) v m) is) (T d2)"
      by (auto simp: same)
    with False q i(1,3) show ?thesis by (intro exI [of _ w']) (simp add: on_db_def)
  qed
qed simp

lemma groupChat_ready:
  assumes "ready (dbs w)" and "ids_request (jlib E) js ''groupid'' u g"
    and "length (dump (jlib E) js) \<le> 65535"
  shows "\<exists>w' ids. groupChat E c js w = Some (Inr w') \<and> quiet w w' \<and> ready (dbs w') \<and>
    distinct ids \<and> set ids = member_ids (T (dbs w)) g u \<and>
    sent w' = sent w @ map (\<lambda>c. (c, packet (dump (jlib E) js))) (here w ids) \<and>
    redis_st w' = publish_all (hlib E) (dump (jlib E) js) (filter (is_online (T (dbs w))) (elsewhere w ids)) (redis_st w) \<and>
    T (dbs w') = fold (\<lambda>v. add_offline v (dump (jlib E) js))
      (filter (\<lambda>v. \<not> is_online (T (dbs w)) v \<and> storable E (T (dbs w)) v (dump (jlib E) js)) (elsewhere w ids)) (T (dbs w))"
proof -
  let ?m = "dump (jlib E) js"
  from up.group_member_ids_ready [OF assms(1), of u g] obtain ids d where
    q: "GroupModel_queryGroupUsers (sql E) u g (dbs w) = Some (ids, d)" "ready d" "T d = T (dbs w)"
      "distinct ids" "set ids = member_ids (T (dbs w)) g u" by blast
  define w2 where "w2 = w\<lparr>dbs := d, sent := sent w @ map (\<lambda>c. (c, packet ?m)) (here w ids)\<rparr>"
  from group_offline_ready [of w2 ?m "elsewhere w ids"] q assms(3) obtain w3 where
    g: "group_offline E ?m (elsewhere w ids) w2 = Some (filter (is_online (T (dbs w))) (elsewhere w ids), w3)" "ready (dbs w3)"
      "T (dbs w3) = fold (\<lambda>v. add_offline v ?m) (filter (\<lambda>v. \<not> is_online (T (dbs w)) v \<and> storable E (T (dbs w)) v ?m) (elsewhere w ids)) (T (dbs w))"
    by (auto simp: w2_def)
  define w' where "w' = w3\<lparr>redis_st := publish_all (hlib E) ?m (filter (is_online (T (dbs w))) (elsewhere w ids)) (redis_st w3)\<rparr>"
  have "groupChat E c js w = Some (Inr w')"
    using q(1) g(1) assms(2)
    by (simp del: filter_filter add: groupChat_def ids_request_def on_db_def service_folds w2_def [symmetric]
      w'_def [symmetric] Let_def)
  moreover have "quiet w3 w' \<and> sent w' = sent w3" by (simp add: w'_def quiet_def)
  moreover have "quiet w w2" by (simp add: w2_def quiet_def)
  ultimately show ?thesis
    using quiet_group_offline [OF g(1)] q g(2,3)
    by (intro exI [of _ w'] exI [of _ ids]) (auto simp: quiet_def w'_def w2_def)
qed

lemma addFriend_ready:
  assumes "ready (dbs w)" and "ids_request (jlib E) js ''friendid'' u f"
  shows "\<exists>w'. addFriend E c js w = Some (Inr w') \<and> quiet w w' \<and> ready (dbs w') \<and>
    T (dbs w') = add_friend f u (add_friend u f (T (dbs w))) \<and>
    (let p = user_of (T (dbs w)) f in sent w' = sent w @ [(c, packet (dump (jlib E) (jobj
      [(''msgid'', JInt (code ADD_FRIEND_MSG)), (''id'', JInt (uid p)), (''name'', JStr (uname p)), (''state'', JStr (ustate p))])))])"
proof -
  from up.friend_insert_ready [OF assms(1), of u f] obtain d1 where
    d1: "FriendModel_insert (sql E) u f (dbs w) = Some ((), d1)" "ready d1" "T d1 = add_friend u f (T (dbs w))" by blast
  from up.friend_insert_ready [OF d1(2), of f u] obtain d2 where
    d2: "FriendModel_insert (sql E) f u d1 = Some ((), d2)" "ready d2" "T d2 = add_friend f u (T d1)" by blast
  from up.user_query_ready [OF d2(2), of f] obtain d3 where
    d3: "UserModel_query (sql E) f d2 = Some (user_of (T d2) f, d3)" "ready d3" "T d3 = T d2" by blast
  have "user_of (T d2) f = user_of (T (dbs w)) f" by (simp add: d1 d2 user_of_def add_friend_def)
  with d1 d2 d3 assms(2) show ?thesis
    by (simp add: addFriend_def ids_request_def on_db_def quiet_def Let_def)
qed

lemma reg_ready:
  assumes "ready (dbs w)" and "reg_request js name pwd" and "length name \<le> 50" and "length pwd \<le> 100"
    and "dom (users (T (dbs w))) \<subseteq> {..<2 ^ 31 - 1}"
    and "\<forall>i row. users (T (dbs w)) i = Some row \<longrightarrow> K (fst row) \<noteq> K name"
  shows "\<exists>w' i. reg E c js w = Some (Inr w') \<and> quiet w w' \<and> ready (dbs w') \<and> redis_st w' = redis_st w \<and>
    0 < i \<and> is_int32 i \<and> i \<notin> dom (users (T (dbs w))) \<and>
    T (dbs w') = (T (dbs w))\<lparr>users := (users (T (dbs w)))(i \<mapsto> (name, pwd, ''offline''))\<rparr> \<and>
    sent w' = sent w @ [(c, packet (dump (jlib E) (jobj
      [(''msgid'', JInt (code REG_MSG_ACK)), (''errno'', JInt 0), (''id'', JInt i)])))]"
proof -
  let ?u = "new_user\<lparr>uname := name, upwd := pwd\<rparr>"
  have "ustate ?u \<in> {''online'', ''offline''}" by (simp add: new_user_def)
  from up.user_insert_ready [of "dbs w" ?u, OF assms(1,5) _ _ this] assms(3,4,6) obtain i d where
    "UserModel_insert (sql E) ?u (dbs w) = Some ((True, ?u\<lparr>uid := i\<rparr>), d)" "ready d" "0 < i" "is_int32 i"
    "i \<notin> dom (users (T (dbs w)))"
    "T d = (T (dbs w))\<lparr>users := (users (T (dbs w)))(i \<mapsto> (name, pwd, ustate ?u))\<rparr>"
    by auto
  with assms(2) show ?thesis
    by (intro exI [of _ "sendJson E c (jobj [(''msgid'', JInt (code REG_MSG_ACK)), (''errno'', JInt 0), (''id'', JInt i)]) (w\<lparr>dbs := d\<rparr>)"]
        exI [of _ i]) (simp add: reg_def reg_request_def on_db_def quiet_def new_user_def)
qed

lemma close_ready:
  assumes "ready (dbs w)" and "user_of_conn c (userConnMap w) = Some u" and "u \<noteq> -1" and "is_int32 u"
  shows "\<exists>w' as. clientCloseException E c w = Some w' \<and> ready (dbs w') \<and>
    userConnMap w' = AList.delete u (userConnMap w) \<and>
    connectionLastTime w' = AList.delete (cname c) (connectionLastTime w) \<and>
    T (dbs w') = set_state u ''offline'' (T (dbs w)) \<and>
    distinct as \<and> set as = friend_ids (T (dbs w')) u \<and>
    sent w' = sent w @ map (\<lambda>c. (c, packet (dump (jlib E) (state_notice u ''offline'')))) (here w' as)"
proof -
  obtain ok r where r: "unsubscribe (hlib E) u (redis_st w) = Some (ok, r)"
    using link.unsubscribe_total [of u "redis_st w"] by (auto elim: returnsE)
  define w3 where "w3 = w\<lparr>userConnMap := AList.delete u (userConnMap w), redis_st := r,
    connectionLastTime := AList.delete (cname c) (connectionLastTime w)\<rparr>"
  from go_offline_ready [of w3 u] assms(1,4) obtain w' as where
    g: "go_offline E u w3 = Some w'" "quiet w3 w'" "ready (dbs w')" "T (dbs w') = set_state u ''offline'' (T (dbs w))"
      "distinct as" "set as = friend_ids (T (dbs w')) u"
      "sent w' = sent w @ map (\<lambda>c. (c, packet (dump (jlib E) (state_notice u ''offline'')))) (here w3 as)"
    by (auto simp: w3_def)
  have "clientCloseException E c w = Some w'"
    using assms(2,3) r g(1) by (simp add: clientCloseException_def on_redis_def w3_def Let_def)
  with g show ?thesis by (intro exI [of _ w'] exI [of _ as]) (auto simp: quiet_def w3_def)
qed

end

end
