(* ===== verification/DbPool.thy ===== *)
theory DbPool
  imports Prelude
begin

section \<open>The MySQL connection pool\<close>

text \<open>
  \<open>DbPool\<close> and \<open>PooledMySQL\<close> (\<open>dbpool.cpp\<close>, \<open>dbpool.hpp\<close>, \<open>pooledmysql.hpp\<close>). A connection is
  known by its \<open>MYSQL *\<close> handle. Whether the driver connects, answers a ping or a wait times
  out is the environment's choice and an argument of the operations. The locked regions of
  \<open>acquire\<close> are one operation each, so the step relation below interleaves any number of
  threads at the points where the code gives up the lock.
\<close>

type_synonym handle = nat

record pool =
  idleConns :: "(handle \<times> int) list"
  borrowedConns :: "(handle \<times> int) list"
  activeCount :: int
  poolSize :: int
  maxPoolSize :: int
  stopped :: bool

definition IDLE_PING_THRESHOLD :: int where "IDLE_PING_THRESHOLD = 30"
definition LEAK_WARN_THRESHOLD :: int where "LEAK_WARN_THRESHOLD = 1"
definition LEAK_ERROR_THRESHOLD :: int where "LEAK_ERROR_THRESHOLD = 5"

text \<open>The constructor of the singleton.\<close>

definition new_pool :: pool where
  "new_pool = \<lparr>idleConns = [], borrowedConns = [], activeCount = 0,
     poolSize = 8, maxPoolSize = 16, stopped = False\<rparr>"

subsection \<open>Operations\<close>

text \<open>
  \<open>init\<close>: \<open>attempts\<close> holds the outcome of each \<open>createConnection\<close> of the loop.
\<close>

definition pool_init :: "int \<Rightarrow> int \<Rightarrow> int \<Rightarrow> handle option list \<Rightarrow> pool \<Rightarrow> bool \<times> pool" where
  "pool_init now pSize mSize attempts p =
     (if pSize \<le> 0 \<or> mSize < pSize then (False, p)
      else
        (let p1 = p\<lparr>poolSize := pSize, maxPoolSize := mSize, stopped := False\<rparr>;
             p2 = foldl (\<lambda>q a. case a of Some c \<Rightarrow> q\<lparr>idleConns := idleConns q @ [(c, now)]\<rparr> | None \<Rightarrow> q)
                    p1 (take (nat pSize) attempts)
         in (idleConns p2 \<noteq> [], p2)))"

definition pool_shutdown :: "pool \<Rightarrow> pool" where
  "pool_shutdown p =
     (if stopped p then p else p\<lparr>stopped := True, idleConns := [], borrowedConns := []\<rparr>)"

definition returnConnection :: "int \<Rightarrow> handle \<Rightarrow> pool \<Rightarrow> pool" where
  "returnConnection now raw p =
     (let p1 = p\<lparr>borrowedConns := AList.delete raw (borrowedConns p)\<rparr> in
      if stopped p1 then p1
      else p1\<lparr>idleConns := idleConns p1 @ [(raw, now)], activeCount := activeCount p1 - 1\<rparr>)"

text \<open>\<open>checkStaleConnections\<close> only logs: the handles reported, with the level.\<close>

datatype leak = Leaked | Slow

definition checkStaleConnections :: "int \<Rightarrow> pool \<Rightarrow> (handle \<times> leak) list" where
  "checkStaleConnections now p =
     concat (map (\<lambda>(c, t). let holdTime = now - t in
         if holdTime > LEAK_ERROR_THRESHOLD then [(c, Leaked)]
         else if holdTime > LEAK_WARN_THRESHOLD then [(c, Slow)] else [])
       (borrowedConns p))"

text \<open>One iteration of the loop of \<open>acquire\<close>, up to the point where it returns or unlocks.\<close>

datatype iteration = Got handle | Retry | Creating | Waiting

definition borrow :: "int \<Rightarrow> handle \<Rightarrow> pool \<Rightarrow> pool" where
  "borrow now c p = p\<lparr>borrowedConns := AList.update c now (borrowedConns p)\<rparr>"

definition acquire_iter :: "int \<Rightarrow> (handle \<Rightarrow> bool) \<Rightarrow> handle option \<Rightarrow> pool \<Rightarrow> iteration \<times> pool" where
  "acquire_iter now ping created p =
     (case idleConns p of
        (c, lastUsed) # rest \<Rightarrow>
          (let p1 = p\<lparr>idleConns := rest, activeCount := activeCount p + 1\<rparr> in
           if now - lastUsed > IDLE_PING_THRESHOLD \<and> \<not> ping c
           then (case created of
                   Some c' \<Rightarrow> (Got c', borrow now c' p1)
                 | None \<Rightarrow> (Retry, p1\<lparr>activeCount := activeCount p1 - 1\<rparr>))
           else (Got c, borrow now c p1))
      | [] \<Rightarrow>
          if activeCount p < maxPoolSize p
          then (Creating, p\<lparr>activeCount := activeCount p + 1\<rparr>)
          else (Waiting, p))"

text \<open>After the connection attempt outside the lock.\<close>

definition acquire_created :: "int \<Rightarrow> handle option \<Rightarrow> pool \<Rightarrow> iteration \<times> pool" where
  "acquire_created now created p =
     (case created of
        Some c \<Rightarrow> (Got c, borrow now c p)
      | None \<Rightarrow> (Retry, p\<lparr>activeCount := activeCount p - 1\<rparr>))"

text \<open>
  The whole of \<open>acquire\<close> as one thread runs it, the environment's answers given for every
  iteration. \<open>None\<close>: still looping when the fuel is spent.
\<close>

record acquire_env =
  clock :: int
  pings :: "handle \<Rightarrow> bool"
  created :: "handle option"
  timed_out :: bool

fun acquire_loop :: "nat \<Rightarrow> (nat \<Rightarrow> acquire_env) \<Rightarrow> nat \<Rightarrow> pool \<Rightarrow> (handle option \<times> pool) option" where
  "acquire_loop 0 env k p = None"
| "acquire_loop (Suc fuel) env k p =
     (let e = env k in
      case acquire_iter (clock e) (pings e) (created e) p of
        (Got c, p') \<Rightarrow> Some (Some c, p')
      | (Retry, p') \<Rightarrow> acquire_loop fuel env (Suc k) p'
      | (Creating, p') \<Rightarrow>
          (case acquire_created (clock e) (created e) p' of
             (Got c, p'') \<Rightarrow> Some (Some c, p'')
           | (_, p'') \<Rightarrow> acquire_loop fuel env (Suc k) p'')
      | (Waiting, p') \<Rightarrow>
          if timed_out e then Some (None, p') else acquire_loop fuel env (Suc k) p')"

text \<open>The RAII wrapper: explicit release and the destructor.\<close>

record pooled =
  pconn :: handle
  acquireTime :: int
  released :: bool

definition pooled_release :: "int \<Rightarrow> pooled \<times> pool \<Rightarrow> pooled \<times> pool" where
  "pooled_release now xp =
     (let (x, p) = xp in
      if released x then (x, p)
      else (x\<lparr>released := True\<rparr>, returnConnection now (pconn x) p))"

definition pooled_destroy :: "int \<Rightarrow> pooled \<times> pool \<Rightarrow> pool" where
  "pooled_destroy now xp =
     (let (x, p) = xp in if \<not> released x then snd (pooled_release now (x, p)) else p)"

lemmas pool_op_defs = pool_shutdown_def returnConnection_def acquire_iter_def acquire_created_def
  borrow_def Let_def

subsection \<open>Any number of threads\<close>

text \<open>
  The pool, the handles of the live \<open>PooledMySQL\<close> objects and the number of threads that are
  connecting outside the lock. The driver never returns a handle that is in use.
\<close>

record pool_sys =
  pool_of :: pool
  held :: "handle list"
  making :: nat

definition in_use :: "pool_sys \<Rightarrow> handle set" where
  "in_use s = set (held s) \<union> keys (idleConns (pool_of s))"

inductive pool_step :: "pool_sys \<Rightarrow> pool_sys \<Rightarrow> bool" where
  step_got: "acquire_iter now ping cr (pool_of s) = (Got c, p') \<Longrightarrow> (\<forall>c'. cr = Some c' \<longrightarrow> c' \<notin> in_use s) \<Longrightarrow>
    pool_step s (s\<lparr>pool_of := p', held := c # held s\<rparr>)"
| step_retry: "acquire_iter now ping cr (pool_of s) = (Retry, p') \<Longrightarrow>
    pool_step s (s\<lparr>pool_of := p'\<rparr>)"
| step_unlock: "acquire_iter now ping cr (pool_of s) = (Creating, p') \<Longrightarrow>
    pool_step s (s\<lparr>pool_of := p', making := Suc (making s)\<rparr>)"
| step_made: "making s = Suc n \<Longrightarrow> c \<notin> in_use s \<Longrightarrow>
    acquire_created now (Some c) (pool_of s) = (Got c, p') \<Longrightarrow>
    pool_step s (s\<lparr>pool_of := p', making := n, held := c # held s\<rparr>)"
| step_unmade: "making s = Suc n \<Longrightarrow> acquire_created now None (pool_of s) = (Retry, p') \<Longrightarrow>
    pool_step s (s\<lparr>pool_of := p', making := n\<rparr>)"
| step_return: "c \<in> set (held s) \<Longrightarrow>
    pool_step s (s\<lparr>pool_of := returnConnection now c (pool_of s), held := remove1 c (held s)\<rparr>)"
| step_shutdown: "pool_step s (s\<lparr>pool_of := pool_shutdown (pool_of s)\<rparr>)"

inductive pool_steps :: "pool_sys \<Rightarrow> pool_sys \<Rightarrow> bool" where
  steps_refl: "pool_steps s s"
| steps_step: "pool_steps s t \<Longrightarrow> pool_step t u \<Longrightarrow> pool_steps s u"

text \<open>
  No handle is idle and held, or held twice; every counted slot is a held connection or a
  thread that is connecting (a slot that was handed out before the shutdown stays counted);
  and the connections that exist or are being made never exceed the maximum.
\<close>

definition pool_inv :: "pool_sys \<Rightarrow> bool" where
  "pool_inv s \<longleftrightarrow>
     distinct (held s @ map fst (idleConns (pool_of s))) \<and>
     keys (borrowedConns (pool_of s)) \<subseteq> set (held s) \<and>
     (\<not> stopped (pool_of s) \<longrightarrow> set (held s) \<subseteq> keys (borrowedConns (pool_of s)) \<and>
        activeCount (pool_of s) = int (length (held s) + making s)) \<and>
     int (length (held s) + making s) \<le> activeCount (pool_of s) \<and>
     int (length (idleConns (pool_of s))) + activeCount (pool_of s) \<le> maxPoolSize (pool_of s)"

lemma acquire_iter_GotE:
  assumes "acquire_iter now ping cr p = (Got c, p')"
  obtains lastUsed rest d where "idleConns p = (d, lastUsed) # rest" "c = d \<or> cr = Some c"
    "p' = borrow now c (p\<lparr>idleConns := rest, activeCount := activeCount p + 1\<rparr>)"
  using assms by (auto simp: acquire_iter_def Let_def split: list.splits if_splits option.splits)

lemma acquire_iter_RetryE:
  assumes "acquire_iter now ping cr p = (Retry, p')"
  obtains e rest where "idleConns p = e # rest" "p' = p\<lparr>idleConns := rest\<rparr>"
  using assms by (auto simp: acquire_iter_def Let_def split: list.splits if_splits option.splits)

lemma acquire_iter_CreatingE:
  assumes "acquire_iter now ping cr p = (Creating, p')"
  obtains "idleConns p = []" "activeCount p < maxPoolSize p"
    "p' = p\<lparr>activeCount := activeCount p + 1\<rparr>"
  using assms by (auto simp: acquire_iter_def Let_def split: list.splits if_splits option.splits)

lemma pool_inv_step:
  assumes "pool_step s t" and "pool_inv s"
  shows "pool_inv t"
  using assms
proof (induction rule: pool_step.induct)
  case (step_got now ping cr s c p')
  from step_got(1) obtain lu rest d where
    "idleConns (pool_of s) = (d, lu) # rest" "c = d \<or> cr = Some c"
    "p' = borrow now c ((pool_of s)\<lparr>idleConns := rest, activeCount := activeCount (pool_of s) + 1\<rparr>)"
    by (rule acquire_iter_GotE)
  with step_got(2,3) show ?case
    by (auto simp: pool_inv_def keys_fold borrow_def in_use_def)
next
  case (step_retry now ping cr s p')
  from step_retry(1) obtain e rest where
    "idleConns (pool_of s) = e # rest" "p' = (pool_of s)\<lparr>idleConns := rest\<rparr>"
    by (rule acquire_iter_RetryE)
  with step_retry(2) show ?case
    by (simp add: pool_inv_def keys_fold)
next
  case (step_unlock now ping cr s p')
  then show ?case
    by (auto simp: pool_inv_def keys_fold elim!: acquire_iter_CreatingE)
next
  case (step_made s n c now p')
  then show ?case
    by (auto simp: pool_inv_def keys_fold acquire_created_def borrow_def in_use_def)
next
  case (step_unmade s n now p')
  then show ?case
    by (auto simp: pool_inv_def keys_fold acquire_created_def)
next
  case (step_return c s now)
  then have "0 < length (held s)" by (cases "held s") auto
  then have "int (length (held s) - 1) = int (length (held s)) - 1" by linarith
  with step_return show ?case
    by (auto simp: pool_inv_def keys_fold returnConnection_def Let_def length_remove1)
next
  case (step_shutdown s)
  then show ?case
    by (auto simp: pool_inv_def keys_fold pool_shutdown_def)
qed

lemma pool_inv_steps: "pool_steps s t \<Longrightarrow> pool_inv s \<Longrightarrow> pool_inv t"
  by (induction rule: pool_steps.induct) (auto intro: pool_inv_step)

lemma pool_step_max: "pool_step s t \<Longrightarrow> maxPoolSize (pool_of t) = maxPoolSize (pool_of s)"
  by (induction rule: pool_step.induct)
    (auto simp: pool_op_defs split: list.splits if_splits option.splits)

lemma pool_steps_max: "pool_steps s t \<Longrightarrow> maxPoolSize (pool_of t) = maxPoolSize (pool_of s)"
  by (induction rule: pool_steps.induct) (auto simp: pool_step_max)

subsection \<open>The pool after init\<close>

lemma foldl_idle:
  "foldl (\<lambda>q a. case a of Some c \<Rightarrow> q\<lparr>idleConns := idleConns q @ [(c, now)]\<rparr> | None \<Rightarrow> q) p as
    = p\<lparr>idleConns := idleConns p @ map (\<lambda>c. (c, now)) (somes as)\<rparr>"
  by (induction as arbitrary: p rule: somes.induct) auto

lemma pool_init_eq:
  "pool_init now n m as p =
    (if n \<le> 0 \<or> m < n then (False, p)
     else let cs = idleConns p @ map (\<lambda>c. (c, now)) (somes (take (nat n) as)) in
       (cs \<noteq> [], p\<lparr>poolSize := n, maxPoolSize := m, stopped := False, idleConns := cs\<rparr>))"
  by (simp add: pool_init_def foldl_idle Let_def)

lemma pool_init_inv:
  assumes "pool_init now n m as new_pool = (True, p)" and "distinct (somes as)"
  shows "pool_inv \<lparr>pool_of = p, held = [], making = 0\<rparr>" and "maxPoolSize p = m"
proof -
  let ?cs = "somes (take (nat n) as)"
  have n: "0 < n" "n \<le> m" and p: "p = new_pool\<lparr>poolSize := n, maxPoolSize := m, stopped := False,
      idleConns := map (\<lambda>c. (c, now)) ?cs\<rparr>"
    using assms(1) by (auto simp: pool_init_eq new_pool_def Let_def split: if_splits)
  have "distinct ?cs"
    using assms(2) by (rule distinct_somes_take)
  moreover have "length ?cs \<le> nat n"
    using length_somes [of "take (nat n) as"] by simp
  ultimately show "pool_inv \<lparr>pool_of = p, held = [], making = 0\<rparr>"
    using n by (simp add: pool_inv_def p new_pool_def comp_def)
  show "maxPoolSize p = m" by (simp add: p)
qed

subsection \<open>What acquire returns\<close>

lemma acquire_iter_cases:
  assumes "acquire_iter now ping cr p = (x, p')"
  shows "case x of
      Got c \<Rightarrow> (\<exists>d lu rest. idleConns p = (d, lu) # rest \<and> (c = d \<or> cr = Some c) \<and>
        p' = borrow now c (p\<lparr>idleConns := rest, activeCount := activeCount p + 1\<rparr>))
    | Retry \<Rightarrow> cr = None \<and> (\<exists>e. idleConns p = e # idleConns p' \<and> p' = p\<lparr>idleConns := idleConns p'\<rparr>)
    | Creating \<Rightarrow> idleConns p = [] \<and> activeCount p < maxPoolSize p \<and> p' = p\<lparr>activeCount := activeCount p + 1\<rparr>
    | Waiting \<Rightarrow> idleConns p = [] \<and> maxPoolSize p \<le> activeCount p \<and> p' = p"
  using assms by (auto simp: acquire_iter_def Let_def split: list.splits if_splits option.splits)

text \<open>One iteration either returns or goes round again, with the pool's slots unchanged.\<close>

lemma acquire_loop_cases:
  assumes "acquire_loop (Suc fuel) env k p = z"
  obtains (got) c q where "z = Some (Some c, q)" "c \<in> keys (borrowedConns q)"
      "activeCount q = activeCount p + 1" "c \<in> keys (idleConns p) \<or> created (env k) = Some c"
    | (timeout) "z = Some (None, p)" "idleConns p = []" "maxPoolSize p \<le> activeCount p" "timed_out (env k)"
    | (again) q where "z = acquire_loop fuel env (Suc k) q" "activeCount q = activeCount p"
      "keys (idleConns q) \<subseteq> keys (idleConns p)" "created (env k) = None \<or> \<not> timed_out (env k)"
proof -
  obtain x q where it: "acquire_iter (clock (env k)) (pings (env k)) (created (env k)) p = (x, q)"
    by fastforce
  note facts = acquire_iter_cases [OF it]
  show thesis
  proof (cases x)
    case (Got c)
    with facts have "c \<in> keys (borrowedConns q)" "activeCount q = activeCount p + 1"
      "c \<in> keys (idleConns p) \<or> created (env k) = Some c"
      by (auto simp: borrow_def)
    with assms it Got show thesis by (auto intro: got)
  next
    case Retry
    with facts obtain e where e: "idleConns p = e # idleConns q" "q = p\<lparr>idleConns := idleConns q\<rparr>"
      "created (env k) = None" by auto
    from e(2) have "activeCount q = activeCount (p\<lparr>idleConns := idleConns q\<rparr>)" by (rule arg_cong)
    then have "activeCount q = activeCount p" by simp
    with e(1,3) have "activeCount q = activeCount p" "keys (idleConns q) \<subseteq> keys (idleConns p)"
      "created (env k) = None" by auto
    with assms it Retry show thesis by (intro again [of q]) auto
  next
    case Creating
    show thesis
    proof (cases "created (env k)")
      case None
      with assms it Creating facts show thesis
        by (intro again [of p]) (auto simp: acquire_created_def Let_def)
    next
      case (Some c)
      with assms it Creating facts show thesis
        by (intro got [of c "borrow (clock (env k)) c q"]) (auto simp: acquire_created_def borrow_def Let_def)
    qed
  next
    case Waiting
    show thesis
    proof (cases "timed_out (env k)")
      case True
      with assms it Waiting facts show thesis by (intro timeout) auto
    next
      case False
      with assms it Waiting facts show thesis by (intro again [of p]) auto
    qed
  qed
qed

lemma acquire_loop_result:
  "acquire_loop fuel env k p = Some (r, p') \<Longrightarrow>
    (case r of
       Some c \<Rightarrow> c \<in> keys (borrowedConns p') \<and> activeCount p' = activeCount p + 1 \<and>
         (c \<in> keys (idleConns p) \<or> (\<exists>i \<ge> k. created (env i) = Some c))
     | None \<Rightarrow> idleConns p' = [] \<and> maxPoolSize p' \<le> activeCount p' \<and> activeCount p' = activeCount p)"
proof (induction fuel arbitrary: k p)
  case (Suc fuel)
  from Suc.prems show ?case
  proof (cases rule: acquire_loop_cases)
    case (again q)
    from Suc.IH [OF again(1) [symmetric]] again(2,3) show ?thesis
      by (auto split: option.splits dest: Suc_leD)
  qed auto
qed simp

lemma acquire_loop_terminates:
  "\<forall>i \<ge> N. created (env i) \<noteq> None \<and> timed_out (env i) \<Longrightarrow> N - k < fuel \<Longrightarrow>
    acquire_loop fuel env k p \<noteq> None"
proof (induction fuel arbitrary: k p)
  case (Suc fuel)
  obtain z where z: "acquire_loop (Suc fuel) env k p = z" by blast
  then have "z \<noteq> None"
  proof (cases rule: acquire_loop_cases)
    case (again q)
    with Suc.prems have "\<not> N \<le> k" by blast
    with Suc.prems have "N - Suc k < fuel" by simp
    from Suc.IH [OF Suc.prems(1) this] again(1) show ?thesis by simp
  qed auto
  with z show ?case by blast
qed simp

subsection \<open>Properties\<close>

text \<open>
  (C4) Whatever the threads do and however their locked regions interleave, from a pool made
  by \<open>init\<close> no MySQL connection is ever owned by two \<open>PooledMySQL\<close> objects, or owned and in
  the idle queue at once, and the connections that are idle, owned or being made never exceed
  the configured maximum.
\<close>
theorem pool_exclusive_and_bounded:
  assumes "pool_init now n m attempts new_pool = (True, p)" and "distinct (somes attempts)"
    and "pool_steps \<lparr>pool_of = p, held = [], making = 0\<rparr> s"
  shows "distinct (held s @ map fst (idleConns (pool_of s))) \<and>
    int (length (idleConns (pool_of s)) + length (held s) + making s) \<le> m"
proof -
  from pool_init_inv [OF assms(1,2)] have i: "pool_inv \<lparr>pool_of = p, held = [], making = 0\<rparr>"
    and m: "maxPoolSize p = m" by auto
  from pool_inv_steps [OF assms(3) i] pool_steps_max [OF assms(3)] m show ?thesis
    by (auto simp: pool_inv_def keys_fold)
qed

theorem pool_exclusive_and_bounded_witness:
  "\<exists>(s::pool_sys) p. pool_init 0 1 2 [Some 7] new_pool = (True, p) \<and> held s = [7] \<and>
    distinct (held s @ map fst (idleConns (pool_of s))) \<and>
    int (length (idleConns (pool_of s)) + length (held s) + making s) \<le> 2"
proof -
  let ?p = "snd (pool_init 0 1 2 [Some 7] new_pool)"
  let ?s = "\<lparr>pool_of = ?p, held = [], making = 0\<rparr>"
  let ?q = "snd (acquire_iter 1 (\<lambda>_. True) None ?p)"
  let ?t = "?s\<lparr>pool_of := ?q, held := 7 # held ?s\<rparr>"
  have i: "pool_init 0 1 2 [Some 7] new_pool = (True, ?p)"
    by (simp add: pool_init_eq new_pool_def)
  have "acquire_iter 1 (\<lambda>_. True) None (pool_of ?s) = (Got 7, ?q)"
    by (simp add: pool_init_eq new_pool_def acquire_iter_def)
  then have "pool_step ?s ?t" by (rule pool_step.step_got) simp
  then have "pool_steps ?s ?t" by (blast intro: pool_steps.intros)
  from pool_exclusive_and_bounded [OF i _ this]
  have "distinct (held ?t @ map fst (idleConns (pool_of ?t))) \<and>
    int (length (idleConns (pool_of ?t)) + length (held ?t) + making ?t) \<le> 2" by simp
  with i show ?thesis by (intro exI [of _ ?t] exI [of _ ?p]) simp
qed

text \<open>
  (C29) \<open>acquire\<close> terminates once the driver connects again and the deadline has passed
  (from iteration \<open>N\<close> on), after at most \<open>N + 1\<close> iterations. It hands out a connection of the
  idle queue or a fresh one, registered as borrowed and counted as active, or it reports a
  timeout, which happens only with an empty queue and every slot taken.
\<close>
theorem acquire_returns:
  assumes "\<forall>i \<ge> N. created (env i) \<noteq> None \<and> timed_out (env i)"
  shows "\<exists>r p'. acquire_loop (Suc N) env 0 p = Some (r, p') \<and>
    (case r of
       Some c \<Rightarrow> c \<in> keys (borrowedConns p') \<and> activeCount p' = activeCount p + 1 \<and>
         (c \<in> keys (idleConns p) \<or> (\<exists>i. created (env i) = Some c))
     | None \<Rightarrow> idleConns p' = [] \<and> maxPoolSize p' \<le> activeCount p' \<and> activeCount p' = activeCount p)"
proof -
  from acquire_loop_terminates [OF assms, of 0 "Suc N" p]
  obtain r p' where "acquire_loop (Suc N) env 0 p = Some (r, p')" by auto
  with acquire_loop_result [OF this] show ?thesis
    by (auto split: option.splits)
qed

theorem acquire_returns_witness:
  "acquire_loop (Suc 0) (\<lambda>_. \<lparr>clock = 0, pings = \<lambda>_. False, created = Some 3, timed_out = True\<rparr>) 0 new_pool \<noteq> None"
  using acquire_returns [of 0 "\<lambda>_. \<lparr>clock = 0, pings = \<lambda>_. False, created = Some 3, timed_out = True\<rparr>" new_pool]
  by (auto simp del: acquire_loop.simps)

text \<open>
  While the database is down, \<open>acquire\<close> does not honour its timeout: with an empty queue
  and a free slot every round creates a slot, fails to connect and starts over without looking
  at the deadline, so no number of iterations makes it return.
\<close>
theorem acquire_spins_when_db_down:
  assumes "idleConns p = []" and "activeCount p < maxPoolSize p"
    and "\<forall>i. created (env i) = None \<and> timed_out (env i)"
  shows "acquire_loop fuel env k p = None"
  using assms
proof (induction fuel arbitrary: k)
  case (Suc fuel)
  then show ?case
    by (simp add: acquire_iter_def acquire_created_def Let_def)
qed simp

theorem acquire_spins_when_db_down_witness:
  "acquire_loop 1000 (\<lambda>_. \<lparr>clock = 99, pings = \<lambda>_. False, created = None, timed_out = True\<rparr>) 0 new_pool = None"
  by (rule acquire_spins_when_db_down) (simp_all add: new_pool_def)

text \<open>
  The RAII wrapper returns its connection exactly once: an explicit release, however often
  repeated, followed by the destructor leaves the pool as the destructor alone would have, and
  on a running pool the connection is back at the end of the idle queue, no longer borrowed and
  no longer counted.
\<close>
theorem pooled_returned_once:
  assumes "\<not> released x"
  shows "pooled_destroy now' (pooled_release now'' (pooled_release now (x, p))) = pooled_destroy now (x, p) \<and>
    pooled_destroy now (x, p) = returnConnection now (pconn x) p \<and>
    (\<not> stopped p \<longrightarrow>
      idleConns (pooled_destroy now (x, p)) = idleConns p @ [(pconn x, now)] \<and>
      pconn x \<notin> keys (borrowedConns (pooled_destroy now (x, p))) \<and>
      activeCount (pooled_destroy now (x, p)) = activeCount p - 1)"
  using assms by (simp add: pooled_destroy_def pooled_release_def returnConnection_def Let_def)

theorem pooled_returned_once_witness:
  "pooled_destroy 3 (pooled_release 2 (pooled_release 1 (\<lparr>pconn = 5, acquireTime = 0, released = False\<rparr>, new_pool)))
    = pooled_destroy 1 (\<lparr>pconn = 5, acquireTime = 0, released = False\<rparr>, new_pool)"
  using pooled_returned_once [of "\<lparr>pconn = 5, acquireTime = 0, released = False\<rparr>" 3 2 1 new_pool] by simp

text \<open>
  The shutdown does not stop \<open>acquire\<close>: the comment on the shutdown says that the waiting
  threads it wakes return a null pointer, but a thread that goes round the loop with a slot
  free opens and hands out a new connection of the stopped pool, and a connection returned
  after the shutdown is dropped without giving its slot back.
\<close>
theorem acquire_after_shutdown:
  assumes "\<not> stopped p" and "activeCount p < maxPoolSize p" and "created (env k) = Some c"
  shows "\<exists>p'. acquire_loop (Suc fuel) env k (pool_shutdown p) = Some (Some c, p') \<and> stopped p' \<and>
    idleConns (returnConnection now c p') = [] \<and>
    activeCount (returnConnection now c p') = activeCount p + 1"
  using assms by (simp add: pool_op_defs)

theorem acquire_after_shutdown_witness:
  "\<exists>p'. acquire_loop 1 (\<lambda>_. \<lparr>clock = 0, pings = \<lambda>_. True, created = Some 4, timed_out = False\<rparr>) 0
      (pool_shutdown new_pool) = Some (Some 4, p') \<and> stopped p' \<and>
    idleConns (returnConnection 1 4 p') = [] \<and> activeCount (returnConnection 1 4 p') = activeCount new_pool + 1"
  using acquire_after_shutdown [of new_pool "\<lambda>_. \<lparr>clock = 0, pings = \<lambda>_. True, created = Some 4, timed_out = False\<rparr>" 0 4 0 1]
  by (simp add: new_pool_def)

end
