(* ===== verification/RefServer.thy ===== *)
theory RefServer
  imports Models DbPool
begin

section \<open>A database server that keeps the contract\<close>

text \<open>
  A concrete instance of \<open>mysql_server\<close> and \<open>reliable_mysql\<close>: it shows that the contract the
  theorems assume can be kept, and lets them be applied to concrete inputs. The server reads
  the statements back from their text with the grammar of MySQL's quoted strings and keeps the
  tables as lists; its connections are handed out and taken back by the model of \<open>DbPool\<close>.
\<close>

subsection \<open>Quoting\<close>

definition QUOTE :: char where "QUOTE = CHR 0x27"
definition BACKSLASH :: char where "BACKSLASH = CHR 0x5C"

definition esc_char :: "char \<Rightarrow> string" where
  "esc_char c =
     (if c = CHR 0x00 then [BACKSLASH, CHR ''0'']
      else if c = CHR 0x0A then [BACKSLASH, CHR ''n'']
      else if c = CHR 0x0D then [BACKSLASH, CHR ''r'']
      else if c = CHR 0x1A then [BACKSLASH, CHR ''Z'']
      else if c = QUOTE \<or> c = CHR 0x22 \<or> c = BACKSLASH then [BACKSLASH, c]
      else [c])"

definition ref_escape :: "string \<Rightarrow> string" where
  "ref_escape s = concat (map esc_char s)"

definition unesc :: "char \<Rightarrow> char" where
  "unesc d =
     (if d = CHR ''0'' then CHR 0x00 else if d = CHR ''n'' then CHR 0x0A
      else if d = CHR ''r'' then CHR 0x0D else if d = CHR ''Z'' then CHR 0x1A else d)"

text \<open>The text up to the closing quote, which stays in the rest.\<close>

fun read_quoted :: "string \<Rightarrow> (string \<times> string) option" where
  "read_quoted [] = None"
| "read_quoted [c] = (if c = QUOTE then Some ([], [c]) else None)"
| "read_quoted (c # d # r) =
     (if c = QUOTE then Some ([], c # d # r)
      else if c = BACKSLASH then map_option (apfst ((#) (unesc d))) (read_quoted r)
      else map_option (apfst ((#) c)) (read_quoted (d # r)))"

lemma ref_escape_simps [simp]:
  "ref_escape [] = []" "ref_escape (c # s) = esc_char c @ ref_escape s"
  by (simp_all add: ref_escape_def)

lemma ref_escape_no_nul: "CHR 0x00 \<notin> set (ref_escape s)"
  by (induction s) (auto simp: esc_char_def QUOTE_def BACKSLASH_def split: if_splits)

lemma ref_escape_length: "length (ref_escape s) \<le> 2 * length s"
  by (induction s) (auto simp: esc_char_def)

lemma read_quoted_plain:
  "c \<noteq> QUOTE \<Longrightarrow> c \<noteq> BACKSLASH \<Longrightarrow> read_quoted (c # r) = map_option (apfst ((#) c)) (read_quoted r)"
  by (cases r) simp_all

lemma read_quoted_esc_char: "read_quoted (esc_char c @ r) = map_option (apfst ((#) c)) (read_quoted r)"
proof (cases "c = CHR 0x00 \<or> c = CHR 0x0A \<or> c = CHR 0x0D \<or> c = CHR 0x1A \<or> c = QUOTE \<or> c = CHR 0x22 \<or> c = BACKSLASH")
  case True
  then show ?thesis by (auto simp: esc_char_def unesc_def QUOTE_def BACKSLASH_def)
next
  case False
  then have "esc_char c = [c]" by (simp add: esc_char_def)
  with False read_quoted_plain [of c r] show ?thesis by simp
qed

lemma read_quoted_QUOTE [simp]: "read_quoted (QUOTE # r) = Some ([], QUOTE # r)"
  by (cases r) simp_all

lemma read_quoted_escape [simp]: "read_quoted (ref_escape s @ QUOTE # r) = Some (s, QUOTE # r)"
  by (induction s) (simp_all add: read_quoted_esc_char)

lemma esc_char_cases: "(\<exists>d. esc_char c = [BACKSLASH, d]) \<or> (esc_char c = [c] \<and> c \<noteq> QUOTE \<and> c \<noteq> BACKSLASH)"
  by (simp add: esc_char_def)

lemma read_quoted_open: "read_quoted (take k (ref_escape s)) = None"
proof (induction s arbitrary: k)
  case (Cons c s)
  from esc_char_cases [of c] show ?case
  proof
    assume "\<exists>d. esc_char c = [BACKSLASH, d]"
    then obtain d where d: "esc_char c = [BACKSLASH, d]" ..
    consider "k = 0" | "k = 1" | j where "k = Suc (Suc j)" by (metis One_nat_def not0_implies_Suc)
    then show ?thesis
      using d Cons.IH by cases (simp_all add: BACKSLASH_def QUOTE_def)
  next
    assume "esc_char c = [c] \<and> c \<noteq> QUOTE \<and> c \<noteq> BACKSLASH"
    then show ?thesis using Cons.IH by (cases k) (simp_all add: read_quoted_plain)
  qed
qed simp

subsection \<open>Reading a statement back\<close>

definition read_int :: "string \<Rightarrow> (int \<times> string) option" where
  "read_int q = (case q of
      c # r \<Rightarrow>
        if c = CHR ''-''
        then (if takeWhile is_digit r = [] then None
              else Some (- int (digits_val (takeWhile is_digit r)), dropWhile is_digit r))
        else if takeWhile is_digit q = [] then None
        else Some (int (digits_val (takeWhile is_digit q)), dropWhile is_digit q)
    | [] \<Rightarrow> None)"

fun sscan :: "string \<Rightarrow> string \<Rightarrow> cval list option" where
  "sscan [] q = (if q = [] then Some [] else None)"
| "sscan [c] q = (if q = [c] then Some [] else None)"
| "sscan (c # d # f) q =
     (if c = CHR ''%'' \<and> d = CHR ''d''
      then (case read_int q of None \<Rightarrow> None | Some (n, r) \<Rightarrow> map_option ((#) (CInt n)) (sscan f r))
      else if c = CHR ''%'' \<and> d = CHR ''s''
      then (case read_quoted q of None \<Rightarrow> None | Some (s, r) \<Rightarrow> map_option ((#) (CStr s)) (sscan f r))
      else (case q of [] \<Rightarrow> None | e # q' \<Rightarrow> if e = c then sscan (d # f) q' else None))"

text \<open>Formats that can be read back: a string in quotes, a number followed by something else.\<close>

fun fmt_ok :: "string \<Rightarrow> bool" where
  "fmt_ok [] \<longleftrightarrow> True"
| "fmt_ok [c] \<longleftrightarrow> True"
| "fmt_ok (c # d # f) \<longleftrightarrow>
     (if c = CHR ''%'' \<and> d = CHR ''d'' then (case f of [] \<Rightarrow> True | e # _ \<Rightarrow> \<not> is_digit e \<and> e \<noteq> CHR ''%'') \<and> fmt_ok f
      else if c = CHR ''%'' \<and> d = CHR ''s'' then (case f of [] \<Rightarrow> False | e # _ \<Rightarrow> e = QUOTE) \<and> fmt_ok f
      else fmt_ok (d # f))"

fun args_ok :: "string \<Rightarrow> cval list \<Rightarrow> bool" where
  "args_ok [] vs \<longleftrightarrow> vs = []"
| "args_ok [c] vs \<longleftrightarrow> vs = []"
| "args_ok (c # d # f) vs \<longleftrightarrow>
     (if c = CHR ''%'' \<and> d = CHR ''d'' then (case vs of CInt n # vs' \<Rightarrow> args_ok f vs' | _ \<Rightarrow> False)
      else if c = CHR ''%'' \<and> d = CHR ''s'' then (case vs of CStr s # vs' \<Rightarrow> args_ok f vs' | _ \<Rightarrow> False)
      else args_ok (d # f) vs)"

fun esc_arg :: "cval \<Rightarrow> cval" where
  "esc_arg (CInt n) = CInt n"
| "esc_arg (CStr s) = CStr (ref_escape s)"

lemma takeWhile_all_then: "\<forall>x \<in> set xs. P x \<Longrightarrow> (ys = [] \<or> \<not> P (hd ys)) \<Longrightarrow> takeWhile P (xs @ ys) = xs \<and> dropWhile P (xs @ ys) = ys"
  by (cases ys) (auto simp: takeWhile_append dropWhile_append)

lemma read_int_dec_int:
  assumes "r = [] \<or> \<not> is_digit (hd r)"
  shows "read_int (dec_int n @ r) = Some (n, r)"
proof (cases "n < 0")
  case True
  have "\<forall>x \<in> set (dec_nat (nat (- n))). is_digit x" by (auto dest: dec_nat_digits)
  from takeWhile_all_then [OF this assms] True show ?thesis
    by (simp add: read_int_def dec_int_def)
next
  case False
  obtain c cs where c: "dec_nat (nat n) = c # cs" "is_digit c" using dec_nat_hd by blast
  have "takeWhile is_digit (dec_nat (nat n) @ r) = dec_nat (nat n) \<and> dropWhile is_digit (dec_nat (nat n) @ r) = r"
    by (rule takeWhile_all_then [of _ is_digit, OF _ assms]) (auto dest: dec_nat_digits)
  moreover have "digits_val (c # cs) = nat n" by (simp flip: c(1))
  ultimately show ?thesis using False c by (simp add: read_int_def dec_int_def is_digit_not)
qed

lemma sprintf_hd:
  "e \<noteq> CHR ''%'' \<Longrightarrow> \<exists>r. sprintf (e # f) vs = e # r"
  by (cases f) simp_all

text \<open>The server recovers exactly the values the code put in: user data cannot end a string.\<close>

lemma sscan_sprintf:
  "fmt_ok fmt \<Longrightarrow> args_ok fmt vs \<Longrightarrow> sscan fmt (sprintf fmt (map esc_arg vs)) = Some vs"
proof (induction fmt vs rule: args_ok.induct)
  case (3 c d f vs)
  show ?case
  proof (cases "c = CHR ''%'' \<and> d = CHR ''d''")
    case True
    with 3 obtain n vs' where vs: "vs = CInt n # vs'" by (auto split: list.splits cval.splits)
    have "sprintf f (map esc_arg vs') = [] \<or> \<not> is_digit (hd (sprintf f (map esc_arg vs')))"
    proof (cases f)
      case (Cons e f')
      with True 3 sprintf_hd [of e f' "map esc_arg vs'"] show ?thesis by auto
    qed simp
    with True 3 vs show ?thesis by (simp add: read_int_dec_int)
  next
    case nd: False
    show ?thesis
    proof (cases "c = CHR ''%'' \<and> d = CHR ''s''")
      case True
      with 3 obtain s vs' where vs: "vs = CStr s # vs'" by (auto split: list.splits cval.splits)
      from True 3 obtain f' where f: "f = QUOTE # f'" by (auto split: list.splits)
      obtain r where r: "sprintf f (map esc_arg vs') = QUOTE # r"
        using sprintf_hd [of QUOTE f' "map esc_arg vs'"] f by (auto simp: QUOTE_def)
      with True 3 vs show ?thesis by auto
    next
      case False
      from nd False have lit: "sprintf (c # d # f) ws = c # sprintf (d # f) ws"
        "sscan (c # d # f) (c # q) = sscan (d # f) q" for ws q
        by (simp_all only: sprintf.simps sscan.simps if_False list.case refl if_True)
      from nd False 3(4,5) have "fmt_ok (d # f)" "args_ok (d # f) vs"
        by (simp_all only: fmt_ok.simps args_ok.simps if_False)
      with 3(3) [OF nd False] show ?thesis unfolding lit by blast
    qed
  qed
qed simp_all

text \<open>A statement cut short is not read at all, if its format ends with ordinary characters.\<close>

fun ends_plain :: "string \<Rightarrow> bool" where
  "ends_plain [] \<longleftrightarrow> False"
| "ends_plain [c] \<longleftrightarrow> True"
| "ends_plain (c # d # f) \<longleftrightarrow>
     (if c = CHR ''%'' \<and> (d = CHR ''d'' \<or> d = CHR ''s'') then ends_plain f else ends_plain (d # f))"

lemma read_int_Nil [simp]: "read_int [] = None"
  by (simp add: read_int_def)

lemma sscan_Nil: "ends_plain f \<Longrightarrow> sscan f [] = None"
  by (induction f rule: ends_plain.induct) auto

lemma read_int_cut: "k < length (dec_int n) \<Longrightarrow> read_int (take k (dec_int n)) = None \<or>
    (\<exists>m. read_int (take k (dec_int n)) = Some (m, []))"
proof -
  have "\<forall>x \<in> set (take j (dec_nat m)). is_digit x" for j m by (auto dest: in_set_takeD dec_nat_digits)
  then have tk: "takeWhile is_digit (take j (dec_nat m)) = take j (dec_nat m)"
    "dropWhile is_digit (take j (dec_nat m)) = []" for j m
    by (auto simp: takeWhile_eq_all_conv)
  show ?thesis
  proof (cases "n < 0")
    case True
    then show ?thesis by (cases k) (auto simp: dec_int_def read_int_def tk)
  next
    case False
    obtain c cs where c: "dec_nat (nat n) = c # cs" "is_digit c" using dec_nat_hd by blast
    show ?thesis
    proof (cases k)
      case (Suc j)
      have "takeWhile is_digit (take (Suc j) (c # cs)) = take (Suc j) (c # cs)"
        "dropWhile is_digit (take (Suc j) (c # cs)) = []"
        using tk [of "Suc j" "nat n"] c by simp_all
      with False c Suc show ?thesis by (auto simp: dec_int_def read_int_def is_digit_not)
    qed simp
  qed
qed

lemma sscan_cut:
  "fmt_ok fmt \<Longrightarrow> ends_plain fmt \<Longrightarrow> args_ok fmt vs \<Longrightarrow> k < length (sprintf fmt (map esc_arg vs)) \<Longrightarrow>
    sscan fmt (take k (sprintf fmt (map esc_arg vs))) = None"
proof (induction fmt vs arbitrary: k rule: args_ok.induct)
  case (3 c d f vs)
  show ?case
  proof (cases "c = CHR ''%'' \<and> d = CHR ''d''")
    case True
    with 3 obtain n vs' where vs: "vs = CInt n # vs'" by (auto split: list.splits cval.splits)
    let ?r = "sprintf f (map esc_arg vs')"
    have r: "?r = [] \<or> \<not> is_digit (hd ?r)"
    proof (cases f)
      case (Cons e f')
      with True 3 sprintf_hd [of e f' "map esc_arg vs'"] show ?thesis by auto
    qed simp
    have f: "fmt_ok f" "ends_plain f" "args_ok f vs'" using True 3 vs by auto
    show ?thesis
    proof (cases "k < length (dec_int n)")
      case le: True
      with read_int_cut [OF le] sscan_Nil [OF f(2)] True vs show ?thesis by auto
    next
      case ge: False
      have "take j ?r = [] \<or> \<not> is_digit (hd (take j ?r))" for j using r by (cases ?r; cases j) auto
      from read_int_dec_int [OF this] have ri: "read_int (dec_int n @ take j ?r) = Some (n, take j ?r)" for j .
      have "sscan f (take (k - length (dec_int n)) ?r) = None"
        using ge 3(1) [OF True vs refl f, of "k - length (dec_int n)"] 3(7) True vs by simp
      with ge True vs ri show ?thesis by simp
    qed
  next
    case nd: False
    show ?thesis
    proof (cases "c = CHR ''%'' \<and> d = CHR ''s''")
      case True
      with 3 obtain s vs' where vs: "vs = CStr s # vs'" by (auto split: list.splits cval.splits)
      let ?r = "sprintf f (map esc_arg vs')"
      from True 3 obtain f' where f': "f = QUOTE # f'" by (auto split: list.splits)
      obtain r where r: "?r = QUOTE # r"
        using sprintf_hd [of QUOTE f' "map esc_arg vs'"] f' by (auto simp: QUOTE_def)
      have f: "fmt_ok f" "ends_plain f" "args_ok f vs'" using True 3 vs by auto
      show ?thesis
      proof (cases "k \<le> length (ref_escape s)")
        case le: True
        with read_quoted_open [of k s] True vs show ?thesis by simp
      next
        case ge: False
        then obtain j where j: "k - length (ref_escape s) = Suc j" by (metis diff_is_0_eq not0_implies_Suc)
        have "sscan f (take (k - length (ref_escape s)) ?r) = None"
          using ge 3(2) [OF nd True vs refl f, of "k - length (ref_escape s)"] 3(7) True vs by simp
        with ge True vs r j show ?thesis by simp
      qed
    next
      case False
      from nd False have lit: "sprintf (c # d # f) ws = c # sprintf (d # f) ws"
        "sscan (c # d # f) (c # q) = sscan (d # f) q" "sscan (c # d # f) [] = None" for ws q
        by (simp_all only: sprintf.simps sscan.simps if_False list.case refl if_True)
      from nd False 3(4,6) have "fmt_ok (d # f)" "args_ok (d # f) vs"
        by (simp_all only: fmt_ok.simps args_ok.simps if_False)
      moreover have "ends_plain (d # f)" using nd False 3(5) by (auto split: if_splits)
      ultimately have "sscan (d # f) (take j (sprintf (d # f) (map esc_arg vs))) = None"
        if "j < length (sprintf (d # f) (map esc_arg vs))" for j
        using 3(3) [OF nd False] that by blast
      with 3(7) show ?thesis unfolding lit by (cases k) (simp_all only: take_0 take_Suc_Cons lit length_Cons Suc_less_eq)
    qed
  qed
qed simp_all

subsection \<open>The server\<close>

record ref_db =
  ru :: "(int \<times> string \<times> string \<times> string) list"
  rf :: "(int \<times> int) list"
  rg :: "(int \<times> string \<times> string) list"
  rm :: "((int \<times> int) \<times> string) list"
  ro :: "(int \<times> string) list"
  last_id :: int
  dbpool :: pool
  conns :: "handle list"

definition ref_tables :: "ref_db \<Rightarrow> tables" where
  "ref_tables s = \<lparr>users = map_of (ru s), friends = set (rf s), groups = map_of (rg s),
     members = map_of (rm s), offline = \<lambda>u. mset (map snd (filter (\<lambda>e. fst e = u) (ro s)))\<rparr>"

definition starts :: "string \<Rightarrow> string \<Rightarrow> bool" where
  "starts p q \<longleftrightarrow> take (length p) q = p"

definition next_id :: "(int \<times> 'a) list \<Rightarrow> int" where
  "next_id xs = 1 + foldr (\<lambda>e m. max (fst e) m) xs 0"

datatype stmt =
    Insert_user string string string
  | Set_state string int
  | Set_name string int
  | Reset
  | Add_friend int int
  | Insert_group string string
  | Insert_member int int string
  | Insert_offline int string
  | Delete_offline int

definition read_update :: "string \<Rightarrow> stmt option" where
  "read_update q =
     (if q = sql_reset_state then Some Reset
      else if starts ''insert into User('' q then
        (case sscan fmt_insert_user q of Some [CStr n, CStr p, CStr st] \<Rightarrow> Some (Insert_user n p st) | _ \<Rightarrow> None)
      else if starts ''update User set state'' q then
        (case sscan fmt_update_state q of Some [CStr st, CInt i] \<Rightarrow> Some (Set_state st i) | _ \<Rightarrow> None)
      else if starts ''update User set name'' q then
        (case sscan fmt_update_name q of Some [CStr n, CInt i] \<Rightarrow> Some (Set_name n i) | _ \<Rightarrow> None)
      else if starts ''insert ignore'' q then
        (case sscan fmt_insert_friend q of Some [CInt u, CInt f] \<Rightarrow> Some (Add_friend u f) | _ \<Rightarrow> None)
      else if starts ''insert into AllGroup'' q then
        (case sscan fmt_insert_group q of Some [CStr n, CStr d] \<Rightarrow> Some (Insert_group n d) | _ \<Rightarrow> None)
      else if starts ''insert into GroupUser'' q then
        (case sscan fmt_insert_member q of Some [CInt g, CInt u, CStr r] \<Rightarrow> Some (Insert_member g u r) | _ \<Rightarrow> None)
      else if starts ''delete'' q then
        (case sscan fmt_delete_offline q of Some [CInt u] \<Rightarrow> Some (Delete_offline u) | _ \<Rightarrow> None)
      else
        (case sscan fmt_insert_offline q of Some [CInt u, CStr m] \<Rightarrow> Some (Insert_offline u m) | _ \<Rightarrow> None))"

fun run_update :: "stmt \<Rightarrow> ref_db \<Rightarrow> bool \<times> ref_db" where
  "run_update (Insert_user n p st) s =
     (let i = next_id (ru s) in
      if n \<in> (\<lambda>j. fst (the (map_of (ru s) j))) ` keys (ru s) \<or> 2 ^ 31 \<le> i then (False, s)
      else (True, s\<lparr>ru := ru s @ [(i, n, p, st)], last_id := i\<rparr>))"
| "run_update (Set_state st i) s =
     (True, case map_of (ru s) i of None \<Rightarrow> s | Some (n, p, _) \<Rightarrow> s\<lparr>ru := AList.update i (n, p, st) (ru s)\<rparr>)"
| "run_update (Set_name n i) s =
     (if i \<in> keys (ru s) \<and> n \<in> (\<lambda>j. fst (the (map_of (ru s) j))) ` (keys (ru s) - {i}) then (False, s)
      else (True, case map_of (ru s) i of None \<Rightarrow> s | Some (_, p, st) \<Rightarrow> s\<lparr>ru := AList.update i (n, p, st) (ru s)\<rparr>))"
| "run_update Reset s =
     (True, s\<lparr>ru := map (\<lambda>(i, n, p, st). (i, n, p, if st = ''online'' then ''offline'' else st)) (ru s)\<rparr>)"
| "run_update (Add_friend u f) s =
     (True, if u \<in> keys (ru s) \<and> f \<in> keys (ru s) then s\<lparr>rf := List.insert (u, f) (rf s)\<rparr> else s)"
| "run_update (Insert_group n d) s =
     (let i = next_id (rg s) in
      if 2 ^ 31 \<le> i then (False, s) else (True, s\<lparr>rg := rg s @ [(i, n, d)], last_id := i\<rparr>))"
| "run_update (Insert_member g u r) s =
     (if g \<in> keys (rg s) \<and> u \<in> keys (ru s) \<and> (g, u) \<notin> keys (rm s)
      then (True, s\<lparr>rm := rm s @ [((g, u), r)]\<rparr>) else (False, s))"
| "run_update (Insert_offline u m) s =
     (if u \<in> keys (ru s) then (True, s\<lparr>ro := ro s @ [(u, m)]\<rparr>) else (False, s))"
| "run_update (Delete_offline u) s = (True, s\<lparr>ro := filter (\<lambda>e. fst e \<noteq> u) (ro s)\<rparr>)"

definition ref_update :: "string \<Rightarrow> ref_db \<Rightarrow> bool \<times> ref_db" where
  "ref_update q s = (case read_update q of None \<Rightarrow> (False, s) | Some st \<Rightarrow> run_update st s)"

definition ints :: "cval list option \<Rightarrow> int list option" where
  "ints vs = map_option (map (\<lambda>v. case v of CInt n \<Rightarrow> n | CStr _ \<Rightarrow> 0)) vs"

definition ref_select :: "string \<Rightarrow> ref_db \<Rightarrow> string list list option" where
  "ref_select q s =
     (if starts ''select * from User'' q then
        (case ints (sscan fmt_select_user q) of
           Some [u] \<Rightarrow> Some (case map_of (ru s) u of None \<Rightarrow> [] | Some (n, p, st) \<Rightarrow> [[dec_int u, n, p, st]])
         | _ \<Rightarrow> None)
      else if starts ''select a.id,a.name,a.state from'' q then
        (case ints (sscan fmt_select_friends q) of
           Some [u] \<Rightarrow> Some (somes (map (\<lambda>f. map_option (\<lambda>(n, p, st). [dec_int f, n, st]) (map_of (ru s) f))
             (remdups (map snd (filter (\<lambda>e. fst e = u) (rf s))))))
         | _ \<Rightarrow> None)
      else if starts ''select a.id,a.groupname'' q then
        (case ints (sscan fmt_select_groups q) of
           Some [u] \<Rightarrow> Some (somes (map (\<lambda>g. map_option (\<lambda>(n, d). [dec_int g, n, d]) (map_of (rg s) g))
             (remdups (map fst (filter (\<lambda>k. snd k = u) (map fst (rm s)))))))
         | _ \<Rightarrow> None)
      else if starts ''select a.id,a.name,a.state,b'' q then
        (case ints (sscan fmt_select_members q) of
           Some [g] \<Rightarrow> Some (somes (map (\<lambda>u. map_option (\<lambda>(n, p, st). [dec_int u, n, st, the (map_of (rm s) (g, u))])
               (map_of (ru s) u))
             (remdups (map snd (filter (\<lambda>k. fst k = g) (map fst (rm s)))))))
         | _ \<Rightarrow> None)
      else if starts ''select userid'' q then
        (case ints (sscan fmt_select_member_ids q) of
           Some [g, u] \<Rightarrow> Some (map (\<lambda>v. [dec_int v])
             (filter (\<lambda>v. v \<noteq> u) (remdups (map snd (filter (\<lambda>k. fst k = g) (map fst (rm s)))))))
         | _ \<Rightarrow> None)
      else if starts ''select id'' q then
        (case ints (sscan fmt_select_group q) of
           Some [g] \<Rightarrow> Some (case map_of (rg s) g of None \<Rightarrow> [] | Some (n, d) \<Rightarrow> [[dec_int g, n, d]])
         | _ \<Rightarrow> None)
      else
        (case ints (sscan fmt_select_offline q) of
           Some [u] \<Rightarrow> Some (map (\<lambda>e. [snd e]) (filter (\<lambda>e. fst e = u) (ro s)))
         | _ \<Rightarrow> None))"

text \<open>The driver is reachable, so a wait that finds the pool exhausted times out.\<close>

definition ref_env :: acquire_env where
  "ref_env = \<lparr>clock = 0, pings = \<lambda>_. True, created = None, timed_out = True\<rparr>"

definition ref_acquire :: "ref_db \<Rightarrow> bool \<times> ref_db" where
  "ref_acquire s = (case acquire_loop 1 (\<lambda>_. ref_env) 0 (dbpool s) of
      Some (Some c, p) \<Rightarrow> (True, s\<lparr>dbpool := p, conns := c # conns s\<rparr>)
    | _ \<Rightarrow> (False, s))"

definition ref_release :: "ref_db \<Rightarrow> ref_db" where
  "ref_release s = (case conns s of
      [] \<Rightarrow> s
    | c # cs \<Rightarrow> s\<lparr>dbpool := pooled_destroy 0 (\<lparr>pconn = c, acquireTime = 0, released = False\<rparr>, dbpool s), conns := cs\<rparr>)"

definition ref_mysql :: "ref_db mysql" where
  "ref_mysql = \<lparr>acquire = ref_acquire, release = ref_release, real_escape = ref_escape,
     mysql_update = ref_update, mysql_select = \<lambda>q s. (ref_select q s, s), insert_id = last_id\<rparr>"

definition ref_ready :: "ref_db \<Rightarrow> bool" where
  "ref_ready s \<longleftrightarrow> idleConns (dbpool s) \<noteq> [] \<and> \<not> stopped (dbpool s)"

definition ref_busy :: "ref_db \<Rightarrow> bool" where
  "ref_busy s \<longleftrightarrow> conns s \<noteq> [] \<and> \<not> stopped (dbpool s)"

subsection \<open>The statements as the server reads them\<close>

lemmas fmt_defs = fmt_insert_user_def fmt_select_user_def fmt_update_state_def fmt_update_name_def
  fmt_insert_friend_def fmt_select_friends_def fmt_insert_group_def fmt_insert_member_def
  fmt_select_groups_def fmt_select_members_def fmt_select_member_ids_def fmt_select_group_def
  fmt_insert_offline_def fmt_delete_offline_def fmt_select_offline_def

lemma fmts_ok:
  "fmt_ok fmt_insert_user" "fmt_ok fmt_select_user" "fmt_ok fmt_update_state" "fmt_ok fmt_update_name"
  "fmt_ok fmt_insert_friend" "fmt_ok fmt_select_friends" "fmt_ok fmt_insert_group" "fmt_ok fmt_insert_member"
  "fmt_ok fmt_select_groups" "fmt_ok fmt_select_members" "fmt_ok fmt_select_member_ids" "fmt_ok fmt_select_group"
  "fmt_ok fmt_insert_offline" "fmt_ok fmt_delete_offline" "fmt_ok fmt_select_offline" "ends_plain fmt_insert_offline"
  by (simp_all add: fmt_defs QUOTE_def is_digit_def)

lemma args_all_ok:
  "args_ok fmt_insert_user [CStr a, CStr b, CStr c]" "args_ok fmt_select_user [CInt i]"
  "args_ok fmt_update_state [CStr a, CInt i]" "args_ok fmt_update_name [CStr a, CInt i]"
  "args_ok fmt_insert_friend [CInt i, CInt j]" "args_ok fmt_select_friends [CInt i]"
  "args_ok fmt_insert_group [CStr a, CStr b]" "args_ok fmt_insert_member [CInt i, CInt j, CStr a]"
  "args_ok fmt_select_groups [CInt i]" "args_ok fmt_select_members [CInt i]"
  "args_ok fmt_select_member_ids [CInt i, CInt j]" "args_ok fmt_select_group [CInt i]"
  "args_ok fmt_insert_offline [CInt i, CStr a]" "args_ok fmt_delete_offline [CInt i]"
  "args_ok fmt_select_offline [CInt i]"
  by (simp_all add: fmt_defs)

lemmas read_back = sscan_sprintf [OF fmts_ok(1) args_all_ok(1)] sscan_sprintf [OF fmts_ok(2) args_all_ok(2)]
  sscan_sprintf [OF fmts_ok(3) args_all_ok(3)] sscan_sprintf [OF fmts_ok(4) args_all_ok(4)]
  sscan_sprintf [OF fmts_ok(5) args_all_ok(5)] sscan_sprintf [OF fmts_ok(6) args_all_ok(6)]
  sscan_sprintf [OF fmts_ok(7) args_all_ok(7)] sscan_sprintf [OF fmts_ok(8) args_all_ok(8)]
  sscan_sprintf [OF fmts_ok(9) args_all_ok(9)] sscan_sprintf [OF fmts_ok(10) args_all_ok(10)]
  sscan_sprintf [OF fmts_ok(11) args_all_ok(11)] sscan_sprintf [OF fmts_ok(12) args_all_ok(12)]
  sscan_sprintf [OF fmts_ok(13) args_all_ok(13)] sscan_sprintf [OF fmts_ok(14) args_all_ok(14)]
  sscan_sprintf [OF fmts_ok(15) args_all_ok(15)]

lemmas read_stmt = read_back [simplified list.map esc_arg.simps]

lemma c_str_sprintf:
  "CHR 0x00 \<notin> set fmt \<Longrightarrow> \<forall>s. CStr s \<in> set vs \<longrightarrow> CHR 0x00 \<notin> set s \<Longrightarrow> c_str (sprintf fmt vs) = sprintf fmt vs"
proof -
  assume "CHR 0x00 \<notin> set fmt" and "\<forall>s. CStr s \<in> set vs \<longrightarrow> CHR 0x00 \<notin> set s"
  then have "CHR 0x00 \<notin> set (sprintf fmt vs)"
    by (induction fmt vs rule: sprintf.induct)
      (auto split: list.splits cval.splits dest!: dec_int_chars simp: is_digit_def)
  then show ?thesis by simp
qed

lemma fmts_no_nul:
  "CHR 0x00 \<notin> set fmt_insert_user" "CHR 0x00 \<notin> set fmt_select_user" "CHR 0x00 \<notin> set fmt_update_state"
  "CHR 0x00 \<notin> set fmt_update_name" "CHR 0x00 \<notin> set fmt_insert_friend" "CHR 0x00 \<notin> set fmt_select_friends"
  "CHR 0x00 \<notin> set fmt_insert_group" "CHR 0x00 \<notin> set fmt_insert_member" "CHR 0x00 \<notin> set fmt_select_groups"
  "CHR 0x00 \<notin> set fmt_select_members" "CHR 0x00 \<notin> set fmt_select_member_ids"
  "CHR 0x00 \<notin> set fmt_select_group" "CHR 0x00 \<notin> set fmt_insert_offline" "CHR 0x00 \<notin> set fmt_delete_offline"
  "CHR 0x00 \<notin> set fmt_select_offline" "CHR 0x00 \<notin> set sql_reset_state"
  by (simp_all add: fmt_defs sql_reset_state_def)

lemma ref_escape_eq [simp]: "escape ref_mysql s = ref_escape s"
  using ref_escape_no_nul [of s] by (simp add: escape_def ref_mysql_def)

lemma starts_stmt:
  "starts ''insert into User('' (sprintf fmt_insert_user vs)" "sprintf fmt_insert_user vs \<noteq> sql_reset_state"
  "\<not> starts ''insert into User('' (sprintf fmt_update_state vs)"
  "starts ''update User set state'' (sprintf fmt_update_state vs)"
  "\<not> starts ''insert into User('' (sprintf fmt_update_name vs)"
  "\<not> starts ''update User set state'' (sprintf fmt_update_name vs)"
  "starts ''update User set name'' (sprintf fmt_update_name vs)" "sprintf fmt_update_name vs \<noteq> sql_reset_state"
  "\<not> starts ''insert into User('' (sprintf fmt_insert_friend vs)"
  "\<not> starts ''update User set state'' (sprintf fmt_insert_friend vs)"
  "\<not> starts ''update User set name'' (sprintf fmt_insert_friend vs)"
  "starts ''insert ignore'' (sprintf fmt_insert_friend vs)" "sprintf fmt_insert_friend vs \<noteq> sql_reset_state"
  "\<not> starts ''insert into User('' (sprintf fmt_insert_group vs)"
  "\<not> starts ''update User set state'' (sprintf fmt_insert_group vs)"
  "\<not> starts ''update User set name'' (sprintf fmt_insert_group vs)"
  "\<not> starts ''insert ignore'' (sprintf fmt_insert_group vs)"
  "starts ''insert into AllGroup'' (sprintf fmt_insert_group vs)" "sprintf fmt_insert_group vs \<noteq> sql_reset_state"
  by (simp_all add: starts_def fmt_defs sql_reset_state_def)

lemma starts_stmt2:
  "\<not> starts ''insert into User('' (sprintf fmt_insert_member vs)"
  "\<not> starts ''update User set state'' (sprintf fmt_insert_member vs)"
  "\<not> starts ''update User set name'' (sprintf fmt_insert_member vs)"
  "\<not> starts ''insert ignore'' (sprintf fmt_insert_member vs)"
  "\<not> starts ''insert into AllGroup'' (sprintf fmt_insert_member vs)"
  "starts ''insert into GroupUser'' (sprintf fmt_insert_member vs)" "sprintf fmt_insert_member vs \<noteq> sql_reset_state"
  "\<not> starts ''insert into User('' (sprintf fmt_delete_offline vs)"
  "\<not> starts ''update User set state'' (sprintf fmt_delete_offline vs)"
  "\<not> starts ''update User set name'' (sprintf fmt_delete_offline vs)"
  "\<not> starts ''insert ignore'' (sprintf fmt_delete_offline vs)"
  "\<not> starts ''insert into AllGroup'' (sprintf fmt_delete_offline vs)"
  "\<not> starts ''insert into GroupUser'' (sprintf fmt_delete_offline vs)"
  "starts ''delete'' (sprintf fmt_delete_offline vs)" "sprintf fmt_delete_offline vs \<noteq> sql_reset_state"
  by (simp_all add: starts_def fmt_defs sql_reset_state_def)

text \<open>Every prefix of the statement that stores an offline message goes to the last case.\<close>

lemma starts_take:
  assumes "starts p (take k q)"
  shows "starts p q"
proof -
  have "length p \<le> k \<or> length (take k q) < length p" by auto
  then show ?thesis
  proof
    assume "length p \<le> k"
    with assms show ?thesis by (simp add: starts_def min_def)
  next
    assume "length (take k q) < length p"
    then have "length (take (length p) (take k q)) < length p" by simp
    with assms show ?thesis by (simp add: starts_def)
  qed
qed

lemma starts_offline:
  "\<not> starts ''insert into User('' (take k (sprintf fmt_insert_offline vs))"
  "\<not> starts ''update User set state'' (take k (sprintf fmt_insert_offline vs))"
  "\<not> starts ''update User set name'' (take k (sprintf fmt_insert_offline vs))"
  "\<not> starts ''insert ignore'' (take k (sprintf fmt_insert_offline vs))"
  "\<not> starts ''insert into AllGroup'' (take k (sprintf fmt_insert_offline vs))"
  "\<not> starts ''insert into GroupUser'' (take k (sprintf fmt_insert_offline vs))"
  "\<not> starts ''delete'' (take k (sprintf fmt_insert_offline vs))"
  by (rule notI, drule starts_take, simp add: starts_def fmt_defs)+

lemma not_reset_offline: "take k (sprintf fmt_insert_offline vs) \<noteq> sql_reset_state"
  by (cases k) (simp_all add: fmt_defs sql_reset_state_def)

lemma not_reset_state: "sprintf fmt_update_state [CStr (ref_escape st), CInt i] \<noteq> sql_reset_state"
proof
  assume "sprintf fmt_update_state [CStr (ref_escape st), CInt i] = sql_reset_state"
  with read_stmt(3) [of st i] have "sscan fmt_update_state sql_reset_state = Some [CStr st, CInt i]" by simp
  moreover have "sscan fmt_update_state sql_reset_state = None"
    by (simp add: fmt_defs sql_reset_state_def QUOTE_def BACKSLASH_def)
  ultimately show False by simp
qed

lemma read_update_simps:
  "read_update (sprintf fmt_insert_user [CStr (ref_escape n), CStr (ref_escape p), CStr (ref_escape st)]) = Some (Insert_user n p st)"
  "read_update (sprintf fmt_update_state [CStr (ref_escape st), CInt i]) = Some (Set_state st i)"
  "read_update (sprintf fmt_update_name [CStr (ref_escape n), CInt i]) = Some (Set_name n i)"
  "read_update sql_reset_state = Some Reset"
  "read_update (sprintf fmt_insert_friend [CInt u, CInt f]) = Some (Add_friend u f)"
  "read_update (sprintf fmt_insert_group [CStr (ref_escape n), CStr (ref_escape d)]) = Some (Insert_group n d)"
  "read_update (sprintf fmt_insert_member [CInt g, CInt u, CStr (ref_escape r)]) = Some (Insert_member g u r)"
  "read_update (sprintf fmt_insert_offline [CInt u, CStr (ref_escape m)]) = Some (Insert_offline u m)"
  "read_update (sprintf fmt_delete_offline [CInt u]) = Some (Delete_offline u)"
  using starts_offline [of "length (sprintf fmt_insert_offline [CInt u, CStr (ref_escape m)])" "[CInt u, CStr (ref_escape m)]"]
    not_reset_offline [of "length (sprintf fmt_insert_offline [CInt u, CStr (ref_escape m)])" "[CInt u, CStr (ref_escape m)]"]
  by (simp_all add: read_update_def starts_stmt starts_stmt2 read_stmt not_reset_state)

lemma read_update_cut:
  "k < length (sprintf fmt_insert_offline [CInt u, CStr (ref_escape m)]) \<Longrightarrow>
    read_update (take k (sprintf fmt_insert_offline [CInt u, CStr (ref_escape m)])) = None"
  using sscan_cut [OF fmts_ok(13) fmts_ok(16) args_all_ok(13), of k u m]
  by (simp add: read_update_def starts_offline not_reset_offline)

subsection \<open>The laws\<close>

lemma update_stmt:
  assumes "CHR 0x00 \<notin> set fmt" and "\<forall>s. CStr s \<in> set vs \<longrightarrow> CHR 0x00 \<notin> set s"
    and "read_update (sprintf fmt vs) = Some st"
  shows "update_sql ref_mysql (sprintf fmt vs) s = run_update st s"
  using assms by (simp add: update_sql_def ref_mysql_def ref_update_def c_str_sprintf)

lemma update_simps:
  "update_sql ref_mysql (sprintf fmt_insert_user [CStr (ref_escape n), CStr (ref_escape p), CStr (ref_escape st)]) s = run_update (Insert_user n p st) s"
  "update_sql ref_mysql (sprintf fmt_update_state [CStr (ref_escape st), CInt i]) s = run_update (Set_state st i) s"
  "update_sql ref_mysql (sprintf fmt_update_name [CStr (ref_escape n), CInt i]) s = run_update (Set_name n i) s"
  "update_sql ref_mysql sql_reset_state s = run_update Reset s"
  "update_sql ref_mysql (sprintf fmt_insert_friend [CInt u, CInt f]) s = run_update (Add_friend u f) s"
  "update_sql ref_mysql (sprintf fmt_insert_group [CStr (ref_escape n), CStr (ref_escape d)]) s = run_update (Insert_group n d) s"
  "update_sql ref_mysql (sprintf fmt_insert_member [CInt g, CInt u, CStr (ref_escape r)]) s = run_update (Insert_member g u r) s"
  "update_sql ref_mysql (sprintf fmt_insert_offline [CInt u, CStr (ref_escape m)]) s = run_update (Insert_offline u m) s"
  "update_sql ref_mysql (sprintf fmt_delete_offline [CInt u]) s = run_update (Delete_offline u) s"
  by (rule update_stmt; auto simp: fmts_no_nul read_update_simps ref_escape_no_nul)
    (rule update_stmt; auto simp: fmts_no_nul read_update_simps ref_escape_no_nul |
     simp add: update_sql_def ref_mysql_def ref_update_def fmts_no_nul read_update_simps)+

lemma cut_fails:
  "k < length (sprintf fmt_insert_offline [CInt u, CStr (ref_escape m)]) \<Longrightarrow>
    update_sql ref_mysql (take k (sprintf fmt_insert_offline [CInt u, CStr (ref_escape m)])) s = (False, s)"
proof -
  let ?q = "sprintf fmt_insert_offline [CInt u, CStr (ref_escape m)]"
  assume k: "k < length ?q"
  have "c_str ?q = ?q" by (rule c_str_sprintf) (auto simp: fmts_no_nul ref_escape_no_nul)
  then have "CHR 0x00 \<notin> set ?q" by (auto simp: c_str_def takeWhile_eq_all_conv)
  then have "CHR 0x00 \<notin> set (take k ?q)" by (meson in_set_takeD)
  then have "c_str (take k ?q) = take k ?q" by (rule c_str_id)
  with read_update_cut [OF k] show ?thesis by (simp add: update_sql_def ref_mysql_def ref_update_def)
qed

lemma next_id_fresh: "e \<in> set xs \<Longrightarrow> fst e < next_id xs" and next_id_pos: "0 < next_id xs"
proof -
  have "e \<in> set xs \<Longrightarrow> fst e \<le> foldr (\<lambda>e m. max (fst e) m) xs 0" by (induction xs) auto
  then show "e \<in> set xs \<Longrightarrow> fst e < next_id xs" by (simp add: next_id_def)
  have "0 \<le> foldr (\<lambda>e m. max (fst e) m) xs 0" by (induction xs) auto
  then show "0 < next_id xs" by (simp add: next_id_def)
qed

lemma next_id_bound: "(\<And>e. e \<in> set xs \<Longrightarrow> fst e < b) \<Longrightarrow> 0 < b \<Longrightarrow> next_id xs \<le> b"
proof -
  assume "\<And>e. e \<in> set xs \<Longrightarrow> fst e < b" and "0 < b"
  then have "foldr (\<lambda>e m. max (fst e) m) xs 0 < b" by (induction xs) auto
  then show ?thesis by (simp add: next_id_def)
qed

lemma next_id_notin: "next_id xs \<notin> keys xs"
  using next_id_fresh [of _ xs] by (force simp: keys_def)

lemma map_of_snoc:
  assumes "k \<notin> keys xs"
  shows "[k \<mapsto> v] ++ map_of xs = (map_of xs)(k \<mapsto> v)"
proof -
  from assms have "map_of xs k = None" by (simp add: keys_map_of)
  then show ?thesis by (auto simp: fun_eq_iff map_add_def split: option.split)
qed

lemma name_unused:
  assumes "n \<notin> (\<lambda>j. fst (the (map_of xs j))) ` A" and "map_of xs i = Some row" and "i \<in> A"
  shows "fst row \<noteq> n"
  using assms by force

lemma run_insert_user:
  assumes "run_update (Insert_user n p st) s = (True, s')"
  shows "last_id s' \<notin> dom (users (ref_tables s)) \<and> 0 < last_id s' \<and> is_int32 (last_id s') \<and>
    (\<forall>i row. users (ref_tables s) i = Some row \<longrightarrow> fst row \<noteq> n) \<and>
    ref_tables s' = (ref_tables s)\<lparr>users := (users (ref_tables s))(last_id s' \<mapsto> (n, p, st))\<rparr>"
proof -
  have s': "s' = s\<lparr>ru := ru s @ [(next_id (ru s), n, p, st)], last_id := next_id (ru s)\<rparr>"
    and n: "n \<notin> (\<lambda>j. fst (the (map_of (ru s) j))) ` keys (ru s)" and b: "next_id (ru s) < 2 ^ 31"
    using assms by (auto simp: Let_def split: if_splits)
  have "fst row \<noteq> n" if "map_of (ru s) i = Some row" for i row
    using name_unused [OF n that] that by (simp add: keys_dom domI)
  with next_id_notin [of "ru s"] next_id_pos [of "ru s"] b show ?thesis
    by (auto simp: s' ref_tables_def map_of_snoc is_int32_def simp flip: keys_dom)
qed

lemma run_insert_group:
  assumes "run_update (Insert_group n d) s = (True, s')"
  shows "last_id s' \<notin> dom (groups (ref_tables s)) \<and> 0 < last_id s' \<and> is_int32 (last_id s') \<and>
    ref_tables s' = (ref_tables s)\<lparr>groups := (groups (ref_tables s))(last_id s' \<mapsto> (n, d))\<rparr>"
proof -
  have s': "s' = s\<lparr>rg := rg s @ [(next_id (rg s), n, d)], last_id := next_id (rg s)\<rparr>"
    and b: "next_id (rg s) < 2 ^ 31"
    using assms by (auto simp: Let_def split: if_splits)
  with next_id_notin [of "rg s"] next_id_pos [of "rg s"] b show ?thesis
    by (auto simp: s' ref_tables_def map_of_snoc is_int32_def simp flip: keys_dom)
qed

lemma filter_key:
  "filter (\<lambda>e. fst e = x) (filter (\<lambda>e. fst e \<noteq> u) xs) = (if x = u then [] else filter (\<lambda>e. fst e = x) xs)"
  by (induction xs) auto

lemma run_others:
  "run_update (Set_state st i) s = (True, s') \<Longrightarrow> ref_tables s' = set_state i st (ref_tables s)"
  "run_update (Set_name n i) s = (True, s') \<Longrightarrow> ref_tables s' = set_name i n (ref_tables s)"
  "run_update Reset s = (True, s') \<Longrightarrow> ref_tables s' = all_offline (ref_tables s)"
  "run_update (Add_friend u f) s = (True, s') \<Longrightarrow> ref_tables s' = add_friend u f (ref_tables s)"
  "run_update (Insert_offline u m) s = (True, s') \<Longrightarrow>
     u \<in> dom (users (ref_tables s)) \<and> ref_tables s' = add_offline u m (ref_tables s)"
  "run_update (Delete_offline u) s = (True, s') \<Longrightarrow> ref_tables s' = clear_offline u (ref_tables s)"
proof -
  have split: "(\<lambda>(i, n, p, st). (i, n, p, g st)) = (\<lambda>(i, x). (i, case x of (n, p, st) \<Rightarrow> (n, p, g st)))"
    for g :: "string \<Rightarrow> string" by (simp add: fun_eq_iff split: prod.split)
  show "run_update (Set_state st i) s = (True, s') \<Longrightarrow> ref_tables s' = set_state i st (ref_tables s)"
    by (auto simp: ref_tables_def set_state_def update_conv' split: option.splits)
  show "run_update (Set_name n i) s = (True, s') \<Longrightarrow> ref_tables s' = set_name i n (ref_tables s)"
    by (auto simp: ref_tables_def set_name_def update_conv' split: option.splits if_splits)
  show "run_update Reset s = (True, s') \<Longrightarrow> ref_tables s' = all_offline (ref_tables s)"
    by (auto simp: ref_tables_def all_offline_def split map_of_map fun_eq_iff comp_def)
  show "run_update (Add_friend u f) s = (True, s') \<Longrightarrow> ref_tables s' = add_friend u f (ref_tables s)"
    by (cases "u \<in> keys (ru s) \<and> f \<in> keys (ru s)") (auto simp: ref_tables_def add_friend_def simp flip: keys_dom)
  show "run_update (Insert_offline u m) s = (True, s') \<Longrightarrow>
     u \<in> dom (users (ref_tables s)) \<and> ref_tables s' = add_offline u m (ref_tables s)"
    by (auto simp: ref_tables_def add_offline_def keys_dom fun_eq_iff split: if_splits)
  show "run_update (Delete_offline u) s = (True, s') \<Longrightarrow> ref_tables s' = clear_offline u (ref_tables s)"
    by (auto simp: ref_tables_def clear_offline_def fun_eq_iff filter_key simp del: mset_filter mset_map filter_filter)
qed

lemma run_member:
  "run_update (Insert_member g u r) s = (True, s') \<Longrightarrow>
    g \<in> dom (groups (ref_tables s)) \<and> u \<in> dom (users (ref_tables s)) \<and> (g, u) \<notin> dom (members (ref_tables s)) \<and>
    ref_tables s' = (ref_tables s)\<lparr>members := (members (ref_tables s))((g, u) \<mapsto> r)\<rparr>"
  by (auto simp: ref_tables_def map_of_snoc simp flip: keys_dom split: if_splits)

lemma run_name_unique:
  "run_update (Set_name n i) s = (True, s') \<Longrightarrow> i \<in> dom (users (ref_tables s)) \<Longrightarrow>
    users (ref_tables s) j = Some row \<Longrightarrow> fst row = n \<Longrightarrow> j = i"
  using name_unused [of n "ru s" "keys (ru s) - {i}" j row]
  by (auto simp: ref_tables_def keys_dom split: if_splits)

text \<open>The selections.\<close>

lemma starts_select:
  "starts ''select * from User'' (sprintf fmt_select_user vs)"
  "\<not> starts ''select * from User'' (sprintf fmt_select_friends vs)"
  "starts ''select a.id,a.name,a.state from'' (sprintf fmt_select_friends vs)"
  "\<not> starts ''select * from User'' (sprintf fmt_select_groups vs)"
  "\<not> starts ''select a.id,a.name,a.state from'' (sprintf fmt_select_groups vs)"
  "starts ''select a.id,a.groupname'' (sprintf fmt_select_groups vs)"
  "\<not> starts ''select * from User'' (sprintf fmt_select_members vs)"
  "\<not> starts ''select a.id,a.name,a.state from'' (sprintf fmt_select_members vs)"
  "\<not> starts ''select a.id,a.groupname'' (sprintf fmt_select_members vs)"
  "starts ''select a.id,a.name,a.state,b'' (sprintf fmt_select_members vs)"
  "\<not> starts ''select * from User'' (sprintf fmt_select_member_ids vs)"
  "\<not> starts ''select a.id,a.name,a.state from'' (sprintf fmt_select_member_ids vs)"
  "\<not> starts ''select a.id,a.groupname'' (sprintf fmt_select_member_ids vs)"
  "\<not> starts ''select a.id,a.name,a.state,b'' (sprintf fmt_select_member_ids vs)"
  "starts ''select userid'' (sprintf fmt_select_member_ids vs)"
  by (simp_all add: starts_def fmt_defs)

lemma starts_select2:
  "\<not> starts ''select * from User'' (sprintf fmt_select_group vs)"
  "\<not> starts ''select a.id,a.name,a.state from'' (sprintf fmt_select_group vs)"
  "\<not> starts ''select a.id,a.groupname'' (sprintf fmt_select_group vs)"
  "\<not> starts ''select a.id,a.name,a.state,b'' (sprintf fmt_select_group vs)"
  "\<not> starts ''select userid'' (sprintf fmt_select_group vs)"
  "starts ''select id'' (sprintf fmt_select_group vs)"
  "\<not> starts ''select * from User'' (sprintf fmt_select_offline vs)"
  "\<not> starts ''select a.id,a.name,a.state from'' (sprintf fmt_select_offline vs)"
  "\<not> starts ''select a.id,a.groupname'' (sprintf fmt_select_offline vs)"
  "\<not> starts ''select a.id,a.name,a.state,b'' (sprintf fmt_select_offline vs)"
  "\<not> starts ''select userid'' (sprintf fmt_select_offline vs)"
  "\<not> starts ''select id'' (sprintf fmt_select_offline vs)"
  by (simp_all add: starts_def fmt_defs)

lemma ints_simps [simp]: "ints (Some [CInt a]) = Some [a]" "ints (Some [CInt a, CInt b]) = Some [a, b]"
  by (simp_all add: ints_def)

lemma c_str_select:
  "c_str (sprintf fmt_select_user [CInt a]) = sprintf fmt_select_user [CInt a]"
  "c_str (sprintf fmt_select_friends [CInt a]) = sprintf fmt_select_friends [CInt a]"
  "c_str (sprintf fmt_select_groups [CInt a]) = sprintf fmt_select_groups [CInt a]"
  "c_str (sprintf fmt_select_members [CInt a]) = sprintf fmt_select_members [CInt a]"
  "c_str (sprintf fmt_select_member_ids [CInt a, CInt b]) = sprintf fmt_select_member_ids [CInt a, CInt b]"
  "c_str (sprintf fmt_select_group [CInt a]) = sprintf fmt_select_group [CInt a]"
  "c_str (sprintf fmt_select_offline [CInt a]) = sprintf fmt_select_offline [CInt a]"
  by (rule c_str_sprintf; simp add: fmts_no_nul)+

lemma query_simps:
  "query_sql ref_mysql (sprintf fmt_select_user [CInt u]) s =
    (Some (case map_of (ru s) u of None \<Rightarrow> [] | Some (n, p, st) \<Rightarrow> [[dec_int u, n, p, st]]), s)"
  "query_sql ref_mysql (sprintf fmt_select_friends [CInt u]) s =
    (Some (somes (map (\<lambda>f. map_option (\<lambda>(n, p, st). [dec_int f, n, st]) (map_of (ru s) f))
      (remdups (map snd (filter (\<lambda>e. fst e = u) (rf s)))))), s)"
  "query_sql ref_mysql (sprintf fmt_select_groups [CInt u]) s =
    (Some (somes (map (\<lambda>g. map_option (\<lambda>(n, d). [dec_int g, n, d]) (map_of (rg s) g))
      (remdups (map fst (filter (\<lambda>k. snd k = u) (map fst (rm s))))))), s)"
  "query_sql ref_mysql (sprintf fmt_select_members [CInt g]) s =
    (Some (somes (map (\<lambda>u. map_option (\<lambda>(n, p, st). [dec_int u, n, st, the (map_of (rm s) (g, u))]) (map_of (ru s) u))
      (remdups (map snd (filter (\<lambda>k. fst k = g) (map fst (rm s))))))), s)"
  "query_sql ref_mysql (sprintf fmt_select_member_ids [CInt g, CInt u]) s =
    (Some (map (\<lambda>v. [dec_int v])
      (filter (\<lambda>v. v \<noteq> u) (remdups (map snd (filter (\<lambda>k. fst k = g) (map fst (rm s))))))), s)"
  "query_sql ref_mysql (sprintf fmt_select_group [CInt g]) s =
    (Some (case map_of (rg s) g of None \<Rightarrow> [] | Some (n, d) \<Rightarrow> [[dec_int g, n, d]]), s)"
  "query_sql ref_mysql (sprintf fmt_select_offline [CInt u]) s =
    (Some (map (\<lambda>e. [snd e]) (filter (\<lambda>e. fst e = u) (ro s))), s)"
  by (simp_all add: query_sql_def ref_mysql_def ref_select_def c_str_select starts_select starts_select2 read_stmt)

lemma distinct_somes_map:
  "distinct xs \<Longrightarrow> (\<And>x y v. g x = Some v \<Longrightarrow> g y = Some v \<Longrightarrow> x = y) \<Longrightarrow> distinct (somes (map g xs))"
proof (induction xs)
  case (Cons x xs)
  have inj: "g y = g x \<Longrightarrow> g x \<noteq> None \<Longrightarrow> y = x" for y using Cons.prems(2) by fastforce
  from Cons show ?case by (cases "g x") (use inj in \<open>auto simp: set_somes dest: sym\<close>)
qed simp

lemma set_somes_map_option:
  "set (somes (map (\<lambda>f. map_option (h f) (m f)) xs)) = {h f v | f v. f \<in> set xs \<and> m f = Some v}"
proof (rule set_eqI)
  fix x
  have "Some x = map_option (h f) (m f) \<longleftrightarrow> (\<exists>v. x = h f v \<and> m f = Some v)" for f by (cases "m f") auto
  then show "x \<in> set (somes (map (\<lambda>f. map_option (h f) (m f)) xs)) \<longleftrightarrow>
      x \<in> {h f v | f v. f \<in> set xs \<and> m f = Some v}"
    by (simp add: set_somes image_iff Bex_def) blast
qed

lemma ref_mysql_simps [simp]:
  "insert_id ref_mysql = last_id" "acquire ref_mysql = ref_acquire" "release ref_mysql = ref_release"
  by (simp_all add: ref_mysql_def)

lemma ref_offline: "image_mset (\<lambda>e. [snd e]) (filter_mset (\<lambda>e. fst e = u) (mset (ro s))) =
    image_mset (\<lambda>m. [m]) (offline (ref_tables s) u)"
  by (simp add: ref_tables_def image_mset.compositionality comp_def)

lemma ref_table_simps: "users (ref_tables s) = map_of (ru s)" "groups (ref_tables s) = map_of (rg s)"
  by (simp_all add: ref_tables_def)

lemma ref_query_pure: "T (snd (query_sql ref_mysql q s)) = T s"
  by (simp add: query_sql_def ref_mysql_def)

lemma ref_query_snd: "snd (query_sql ref_mysql q s) = s"
  by (simp add: query_sql_def ref_mysql_def)

lemma ref_acquire_tables: "ref_tables (snd (ref_acquire s)) = ref_tables s"
  by (auto simp: ref_acquire_def ref_tables_def split: option.split prod.split)

lemma ref_release_tables: "ref_tables (ref_release s) = ref_tables s"
  by (auto simp: ref_release_def ref_tables_def split: list.split)

lemma run_update_failed: "run_update st s = (False, s') \<Longrightarrow> s' = s"
  by (cases st) (auto simp: Let_def split: if_splits)

lemma run_update_pool:
  "dbpool (snd (run_update st s)) = dbpool s \<and> conns (snd (run_update st s)) = conns s"
  by (cases st) (auto simp: Let_def split: option.split)

interpretation ref: mysql_server ref_mysql ref_tables "\<lambda>n. n"
proof (unfold_locales, goal_cases)
  case (4 q db db')
  then show ?case
    by (auto simp: update_sql_def ref_mysql_def ref_update_def dest!: run_update_failed split: option.splits)
next
  case (6 n p st db db')
  then show ?case using run_insert_user [of n p st db db'] by (simp del: run_update.simps add: update_simps)
next
  case (8 n i db db')
  then show ?case using run_others(2) [of n i db db'] run_name_unique [of n i db db']
    by (simp only: update_simps ref_escape_eq) blast
next
  case (11 n d db db')
  then show ?case using run_insert_group [of n d db db'] by (simp del: run_update.simps add: update_simps)
next
  case (12 g u r db db')
  then show ?case using run_member [of g u r db db'] by (simp del: run_update.simps add: update_simps)
next
  case (13 u m db db')
  then show ?case using run_others(5) [of u m db db'] by (simp del: run_update.simps add: update_simps)
next
  case (17 u db rows db')
  have "distinct rows" using 17 by (auto simp: query_simps intro!: distinct_somes_map)
  moreover have "set rows = {[dec_int f, n, st] | f n p st. (u, f) \<in> set (rf db) \<and> map_of (ru db) f = Some (n, p, st)}"
    using 17 by (force simp: query_simps set_somes_map_option)
  ultimately show ?case by (simp add: ref_tables_def)
next
  case (18 u db rows db')
  have "distinct rows" using 18 by (auto simp: query_simps intro!: distinct_somes_map)
  moreover have "set rows = {[dec_int g, n, d] | g n d. (g, u) \<in> keys (rm db) \<and> map_of (rg db) g = Some (n, d)}"
    using 18 by (force simp: query_simps set_somes_map_option keys_def)
  ultimately show ?case by (simp add: ref_tables_def keys_dom)
next
  case (19 g db rows db')
  have "distinct rows" using 19 by (auto simp: query_simps intro!: distinct_somes_map)
  moreover have "set rows = {[dec_int u, n, st, the (map_of (rm db) (g, u))] | u n p st.
      (g, u) \<in> keys (rm db) \<and> map_of (ru db) u = Some (n, p, st)}"
    using 19 by (force simp: query_simps set_somes_map_option keys_def)
  moreover have "{[dec_int u, n, st, the (map_of (rm db) (g, u))] | u n p st.
      (g, u) \<in> keys (rm db) \<and> map_of (ru db) u = Some (n, p, st)} =
    {[dec_int u, n, st, r] | u n p st r. map_of (rm db) (g, u) = Some r \<and> map_of (ru db) u = Some (n, p, st)}"
    by (force simp: keys_dom)
  ultimately show ?case by (simp add: ref_tables_def)
next
  case (20 g u db rows db')
  then show ?case
    by (auto simp: query_simps ref_tables_def distinct_map inj_on_def image_iff keys_def intro!: rev_bexI simp flip: keys_dom)
qed (auto simp: ref_acquire_tables ref_release_tables ref_query_pure update_simps cut_fails run_others
  query_simps ref_escape_length ref_offline ref_table_simps)

lemma ref_update_pool:
  "dbpool (snd (update_sql ref_mysql q s)) = dbpool s \<and> conns (snd (update_sql ref_mysql q s)) = conns s"
  using run_update_pool by (auto simp: update_sql_def ref_mysql_def ref_update_def split: option.split)

interpretation ref: reliable_mysql ref_mysql ref_tables "\<lambda>n. n" ref_ready ref_busy
proof (unfold_locales, goal_cases)
  case (1 db)
  then obtain c t rest where "idleConns (dbpool db) = (c, t) # rest" "\<not> stopped (dbpool db)"
    by (cases "idleConns (dbpool db)") (auto simp: ref_ready_def)
  then show ?case
    by (simp add: ref_busy_def ref_acquire_def ref_env_def borrow_def acquire_iter_def Let_def)
next
  case (2 db)
  then show ?case
    by (auto simp: ref_ready_def ref_busy_def ref_release_def pooled_destroy_def pooled_release_def
      returnConnection_def split: list.splits)
next
  case (5 db q u v)
  then show ?case by (auto simp: query_simps)
next
  case (6 db n p st)
  have "keys (ru db) \<subseteq> {..<2 ^ 31 - 1}" using 6(2) by (simp add: ref_table_simps keys_dom)
  then have "fst e < 2 ^ 31 - 1" if "e \<in> set (ru db)" for e
    using that by (auto simp: keys_def)
  then have "next_id (ru db) \<le> 2 ^ 31 - 1" by (intro next_id_bound) auto
  moreover have "n \<notin> (\<lambda>j. fst (the (map_of (ru db) j))) ` keys (ru db)"
  proof
    assume "n \<in> (\<lambda>j. fst (the (map_of (ru db) j))) ` keys (ru db)"
    then obtain j row where "map_of (ru db) j = Some row" "n = fst row" by (auto simp: keys_dom)
    with 6(6) [of j row] show False by (simp add: ref_table_simps)
  qed
  ultimately show ?case by (simp add: update_simps Let_def)
qed (auto simp: ref_busy_def ref_update_pool update_simps ref_query_snd keys_dom ref_table_simps)

end
