(* ===== verification/RefChat.thy ===== *)
theory RefChat
  imports ServiceFacts RefServer
begin

section \<open>The service on the concrete libraries\<close>

text \<open>
  The contracts of \<open>chat_libs\<close> and \<open>chat_reliable\<close> hold for the service over the concrete
  database, the concrete Redis link and a JSON library that prints values as text and reads
  the texts of a given list of documents. The witnesses of the service's properties run here.
\<close>

fun commas :: "string list \<Rightarrow> string" where
  "commas [] = []"
| "commas [s] = s"
| "commas (s # t # ss) = s @ CHR '','' # commas (t # ss)"

definition quoted :: "string \<Rightarrow> string" where
  "quoted s = CHR 0x22 # concat (map (\<lambda>c. if c = CHR 0x22 \<or> c = BACKSLASH then [BACKSLASH, c] else [c]) s) @ [CHR 0x22]"

fun ref_dump :: "json \<Rightarrow> string" where
  "ref_dump JNull = ''null''"
| "ref_dump (JBool b) = (if b then ''true'' else ''false'')"
| "ref_dump (JInt n) = dec_int n"
| "ref_dump (JFloat f) = dec_int (uint f)"
| "ref_dump (JStr s) = quoted s"
| "ref_dump (JArr js) = CHR ''['' # commas (map ref_dump js) @ '']''"
| "ref_dump (JObj kvs) = CHR ''{'' # commas (map (\<lambda>kv. quoted (fst kv) @ CHR '':'' # ref_dump (snd kv)) kvs) @ ''}''"

definition ref_json :: "json list \<Rightarrow> json_lib" where
  "ref_json docs = \<lparr>dump = ref_dump, parse = \<lambda>s. List.find (\<lambda>j. ref_dump j = s) docs, float_int = \<lambda>_. 0\<rparr>"

lemma ref_json_ok: "json_lib_ok (ref_json docs)"
  by (auto simp: json_lib_ok_def ref_json_def find_Some_iff)

definition ref_chat :: "json list \<Rightarrow> (ref_db, link) env" where
  "ref_chat docs = \<lparr>sql = ref_mysql, jlib = ref_json docs, hlib = ref_hiredis\<rparr>"

lemma ref_chat_simps [simp]:
  "sql (ref_chat docs) = ref_mysql" "jlib (ref_chat docs) = ref_json docs" "hlib (ref_chat docs) = ref_hiredis"
  by (simp_all add: ref_chat_def)

interpretation chat: chat_reliable "ref_chat docs" ref_tables "\<lambda>n. n" bufs wires ref_resp ref_ready ref_busy
  for docs
  using ref.reliable_mysql_axioms ref_link.redis_link_axioms ref.mysql_server_axioms
  by (simp add: chat_reliable_def chat_libs_def)

text \<open>A database with three users, of whom the first two are friends, and one group of all three.\<close>

definition demo_db :: ref_db where
  "demo_db = \<lparr>ru = [(1, ''ann'', ''a'', ''offline''), (2, ''bob'', ''b'', ''offline''), (3, ''cyd'', ''c'', ''offline'')],
     rf = [(1, 2), (2, 1)], rg = [(1, ''club'', ''all'')],
     rm = [((1, 1), ''creator''), ((1, 2), ''normal''), ((1, 3), ''normal'')], ro = [], last_id = 0,
     dbpool = snd (pool_init 0 1 2 [Some 5] new_pool), conns = []\<rparr>"

definition demo_conn :: "nat \<Rightarrow> conn" where
  "demo_conn n = \<lparr>cid = n, cname = dec_int (int n)\<rparr>"

definition demo :: "(ref_db, link) svc" where
  "demo = \<lparr>dbs = demo_db, redis_st = new_redis new_link, userConnMap = [(2, demo_conn 2)],
     connectionLastTime = [(dec_int 2, 0, demo_conn 2)], now = 40, sent = [], shut = []\<rparr>"

lemma demo_ready [simp]: "ref_ready demo_db" "dbs demo = demo_db"
  by (simp_all add: ref_ready_def demo_db_def demo_def pool_init_eq new_pool_def)

lemma demo_conns: "userConnMap demo = [(2, demo_conn 2)]" "shut demo = []" "sent demo = []"
  by (simp_all add: demo_def)

lemma demo_tables [simp]:
  "users (ref_tables demo_db) = [1 \<mapsto> (''ann'', ''a'', ''offline''), 2 \<mapsto> (''bob'', ''b'', ''offline''), 3 \<mapsto> (''cyd'', ''c'', ''offline'')]"
  by (auto simp: ref_tables_def demo_db_def fun_eq_iff)

end
