(* ===== verification/LoginProps.thy ===== *)
theory LoginProps
  imports RefChat
begin

section \<open>Properties of registration, login and lost connections\<close>

text \<open>
  The theorems name the contract they use: \<open>mysql_server\<close> (statements may fail), \<open>chat_libs\<close>
  or \<open>chat_reliable\<close> (the database is up). The witnesses run on the concrete libraries.
\<close>

definition demo_login :: "int \<Rightarrow> string \<Rightarrow> json" where
  "demo_login i pwd = JObj [(''id'', JInt i), (''password'', JStr pwd)]"

lemma demo_login_request: "is_int32 i \<Longrightarrow> login_request J (demo_login i pwd) i pwd"
  by (simp add: login_request_def demo_login_def contains_def int_field_def string_field_def jindex_def get_int_def get_string_def)

lemma small_int32 [simp]: "is_int32 2" "is_int32 3" "is_int32 4"
  by (simp_all add: is_int32_def)

text \<open>
  (C7) A login changes sessions only with the right password: if the database may fail in any
  way but does not invent rows, a login request either names a stored user whose stored password
  (read as a C string) is the one given, or is the request for user -1 with an empty password,
  or it is answered with the error and changes no session, no connection and no table.
\<close>
theorem login_needs_password:
  assumes "mysql_server (sql E) T K" and "login_request (jlib E) js i pwd" and "login E c js w = Some (Inr w')"
  shows "(\<exists>n p st. users (T (dbs w)) i = Some (n, p, st) \<and> c_str p = pwd) \<or> (i = -1 \<and> pwd = []) \<or>
    (quiet w w' \<and> T (dbs w') = T (dbs w) \<and> redis_st w' = redis_st w \<and>
      sent w' = sent w @ [(c, packet (dump (jlib E) (error_reply LOGIN_MSG_ACK ''id or password is invalid!'')))])"
proof -
  from assms(2,3) obtain u w1 where q: "on_db (UserModel_query (sql E) i) w = Some (u, w1)"
    and rest: "(uid u = i \<and> upwd u = pwd) \<or>
      w' = sendJson E c (error_reply LOGIN_MSG_ACK ''id or password is invalid!'') w1"
    by (auto simp: login_def login_request_def split: bind_splits if_splits)
  from q obtain d where d: "UserModel_query (sql E) i (dbs w) = Some (u, d)" "w1 = w\<lparr>dbs := d\<rparr>"
    by (rule on_db_SomeE)
  from mysql_server.user_query [OF assms(1) d(1)] have t: "T d = T (dbs w)" "u = user_of (T (dbs w)) i \<or> u = new_user"
    by auto
  from rest show ?thesis
  proof
    assume a: "uid u = i \<and> upwd u = pwd"
    have "i = -1 \<and> pwd = []" if "u = new_user" using a that by (auto simp: new_user_def)
    moreover have "u = new_user \<or> (\<exists>n p st. users (T (dbs w)) i = Some (n, p, st) \<and> c_str p = pwd)"
    proof (cases "users (T (dbs w)) i")
      case None
      with t(2) show ?thesis by (simp add: user_of_def)
    next
      case (Some row)
      obtain n p st where row: "row = (n, p, st)" by (cases row)
      have "u = new_user \<or> upwd u = c_str p" using t(2) Some row by (auto simp: user_of_def)
      with a Some row show ?thesis by auto
    qed
    ultimately show ?thesis by blast
  next
    assume "w' = sendJson E c (error_reply LOGIN_MSG_ACK ''id or password is invalid!'') w1"
    with d(2) t(1) show ?thesis by (simp add: quiet_def)
  qed
qed

theorem login_needs_password_witness:
  "\<exists>w'. login (ref_chat []) (demo_conn 9) (demo_login 1 ''x'') demo = Some (Inr w') \<and>
    userConnMap w' = userConnMap demo"
proof -
  let ?r = "login (ref_chat []) (demo_conn 9) (demo_login 1 ''x'') demo"
  from chat.login_returns [of "[]" "demo_conn 9" "demo_login 1 ''x''" demo] obtain r where r: "?r = Some r" by (auto elim: returnsE)
  from r have "\<exists>w'. r = Inr w'"
    using demo_login_request [of 1 "ref_json []" "''x''"]
    by (auto simp: login_def login_request_def split: bind_splits if_splits)
  then obtain w' where w': "?r = Some (Inr w')" using r by blast
  from login_needs_password [OF _ _ w', of ref_tables "\<lambda>n. n" 1 "''x''"] ref.mysql_server_axioms
    demo_login_request [of 1 "ref_json []" "''x''"] w'
  show ?thesis by (auto simp: quiet_def c_str_def)
qed

text \<open>
  The reserved answer for a missing user opens a login without an account: when no row
  has id -1, the request for user -1 with an empty password is accepted, and the connection
  is registered as the session of user -1.
\<close>
theorem login_default_user:
  assumes "chat_reliable E T K obuf wire resp ready busy" and "ready (dbs w)"
    and "login_request (jlib E) js (-1) []" and "-1 \<notin> dom (users (T (dbs w)))"
  shows "\<exists>w' r rest. login E c js w = Some (Inr w') \<and> map_of (userConnMap w') (-1) = Some c \<and>
    sent w' = sent w @ (c, packet (dump (jlib E) r)) # rest \<and> int_field (jlib E) r ''errno'' = Inr 0"
proof -
  have u: "user_of (T (dbs w)) (-1) = new_user" using assms(4) by (auto simp: user_of_def split: option.split)
  have "uid (user_of (T (dbs w)) (-1)) = -1" "upwd (user_of (T (dbs w)) (-1)) = []"
    by (simp_all add: u new_user_def)
  from chat_reliable.login_ready [OF assms(1,2,3) this, of c] obtain w' vec fs gs rest where
    "login E c js w = Some (Inr w')" "map_of (userConnMap w') = (map_of (userConnMap w))(-1 \<mapsto> c)"
    "sent w' = sent w @ (c, packet (dump (jlib E) (login_response (jlib E) (new_user\<lparr>ustate := ''online''\<rparr>) vec fs gs))) # rest"
    unfolding u by blast
  moreover have "int_field (jlib E) (login_response (jlib E) x vec fs gs) ''errno'' = Inr 0" for x
    unfolding login_response_def by (subst int_field_jobj [of _ _ 0]) auto
  ultimately show ?thesis
    by (intro exI [of _ w'] exI [of _ "login_response (jlib E) (new_user\<lparr>ustate := ''online''\<rparr>) vec fs gs"] exI [of _ rest]) simp
qed

theorem login_default_user_witness:
  "\<exists>w'. login (ref_chat []) (demo_conn 9) (demo_login (-1) []) demo = Some (Inr w') \<and>
    map_of (userConnMap w') (-1) = Some (demo_conn 9)"
  using login_default_user [OF chat.chat_reliable_axioms, of demo "[]" "demo_login (-1) []" "demo_conn 9"]
    demo_login_request [of "-1" "ref_json []" "[]"] by auto

lemma login_accepted:
  assumes "chat_reliable E T K obuf wire resp ready busy" and "ready (dbs w)"
    and "login_request (jlib E) js i pwd" and "users (T (dbs w)) i = Some (n, p, st)" and "c_str p = pwd"
  shows "\<exists>w' vec fs gs rest. login E c js w = Some (Inr w') \<and>
    map_of (userConnMap w') = (map_of (userConnMap w))(i \<mapsto> c) \<and>
    shut w' = shut w @ kicked w i (user_of (T (dbs w)) i) \<and>
    users (T (dbs w')) = (users (T (dbs w)))(i \<mapsto> (n, p, ''online'')) \<and>
    sent w' = sent w @ (c, packet (dump (jlib E) (login_response (jlib E)
      \<lparr>uid = i, uname = c_str n, upwd = pwd, ustate = ''online''\<rparr> vec fs gs))) # rest \<and>
    mset vec = image_mset c_str (offline (T (dbs w)) i) \<and> offline (T (dbs w')) i = {#}"
proof -
  have u: "user_of (T (dbs w)) i = \<lparr>uid = i, uname = c_str n, upwd = pwd, ustate = c_str st\<rparr>"
    using assms(4,5) by (simp add: user_of_def)
  have "uid (user_of (T (dbs w)) i) = i" "upwd (user_of (T (dbs w)) i) = pwd" by (simp_all add: u)
  from chat_reliable.login_ready [OF assms(1,2,3) this, of c] assms(4) show ?thesis
    by (fastforce simp: u set_state_def clear_offline_def)
qed

text \<open>
  (C11) On a database that is up, the right id and password log the user in: the connection
  becomes the user's only session here, an older session of a user marked online is shut down,
  the user is marked online, the first packet sent is the acknowledgement on this connection,
  it carries exactly the stored offline messages, and these are deleted from the database.
\<close>
theorem login_succeeds:
  assumes "chat_reliable E T K obuf wire resp ready busy" and "ready (dbs w)"
    and "login_request (jlib E) js i pwd" and "users (T (dbs w)) i = Some (n, p, st)" and "c_str p = pwd"
  shows "\<exists>w' vec fs gs rest. login E c js w = Some (Inr w') \<and>
    map_of (userConnMap w') = (map_of (userConnMap w))(i \<mapsto> c) \<and>
    shut w' = shut w @ kicked w i (user_of (T (dbs w)) i) \<and>
    users (T (dbs w')) = (users (T (dbs w)))(i \<mapsto> (n, p, ''online'')) \<and>
    sent w' = sent w @ (c, packet (dump (jlib E) (login_response (jlib E)
      \<lparr>uid = i, uname = c_str n, upwd = pwd, ustate = ''online''\<rparr> vec fs gs))) # rest \<and>
    mset vec = image_mset c_str (offline (T (dbs w)) i) \<and> offline (T (dbs w')) i = {#}"
  using assms by (rule login_accepted)

theorem login_succeeds_witness:
  "\<exists>w'. login (ref_chat []) (demo_conn 9) (demo_login 1 ''a'') demo = Some (Inr w') \<and>
    map_of (userConnMap w') 1 = Some (demo_conn 9) \<and> map_of (userConnMap w') 2 = Some (demo_conn 2)"
  using login_succeeds [OF chat.chat_reliable_axioms, of demo "[]" "demo_login 1 ''a''" 1 "''a''" "''ann''" "''a''" "''offline''" "demo_conn 9"]
    demo_login_request [of 1 "ref_json []" "''a''"] by (auto simp: c_str_def demo_conns)

text \<open>
  (C18) A second login takes the session over: when the user is marked online and has a
  connection here, a login from another connection shuts the old one down, and the close event
  of the old connection that follows does not end the new session.
\<close>
theorem relogin_keeps_session:
  assumes "chat_reliable E T K obuf wire resp ready busy" and "ready (dbs w)" and "svc_inv w"
    and "login_request (jlib E) js i pwd" and "users (T (dbs w)) i = Some (n, p, ''online'')" and "c_str p = pwd"
    and "map_of (userConnMap w) i = Some old" and "old \<noteq> c"
  shows "\<exists>w' w''. login E c js w = Some (Inr w') \<and> old \<in> set (shut w') \<and>
    clientCloseException E old w' = Some w'' \<and> map_of (userConnMap w'') i = Some c"
proof -
  have u: "user_of (T (dbs w)) i = \<lparr>uid = i, uname = c_str n, upwd = pwd, ustate = ''online''\<rparr>"
    using assms(5,6) by (simp add: user_of_def c_str_def)
  have "uid (user_of (T (dbs w)) i) = i" "upwd (user_of (T (dbs w)) i) = pwd" by (simp_all add: u)
  from chat_reliable.login_ready [OF assms(1,2,4) this, of c] obtain w' where
    l: "login E c js w = Some (Inr w')" "map_of (userConnMap w') = (map_of (userConnMap w))(i \<mapsto> c)"
      "shut w' = shut w @ kicked w i (user_of (T (dbs w)) i)" by blast
  have inv: "svc_inv w'" using login_inv [OF assms(3) l(1)] .
  from assms(1) have "chat_libs E T K obuf wire resp" by (simp add: chat_reliable_def)
  from chat_libs.close_returns [OF this inv, of old] obtain w'' where
    cl: "clientCloseException E old w' = Some w''" by (auto elim: returnsE)
  from close_keeps [OF inv cl] l(2) assms(8) have "map_of (userConnMap w'') i = Some c" by simp
  with l cl assms(7) show ?thesis by (auto simp: kicked_def u)
qed

definition demo_online :: "(ref_db, link) svc" where
  "demo_online = demo\<lparr>dbs := demo_db\<lparr>ru := [(1, ''ann'', ''a'', ''offline''), (2, ''bob'', ''b'', ''online'')]\<rparr>\<rparr>"

lemma demo_online_simps [simp]:
  "ref_ready (dbs demo_online)" "userConnMap demo_online = [(2, demo_conn 2)]" "svc_inv demo_online" "svc_inv demo"
  "users (ref_tables (dbs demo_online)) = [1 \<mapsto> (''ann'', ''a'', ''offline''), 2 \<mapsto> (''bob'', ''b'', ''online'')]"
  by (auto simp: demo_online_def demo_def demo_conn_def svc_inv_def ref_ready_def demo_db_def pool_init_eq new_pool_def
      ref_tables_def fun_eq_iff)

theorem relogin_keeps_session_witness:
  "\<exists>w' w''. login (ref_chat []) (demo_conn 9) (demo_login 2 ''b'') demo_online = Some (Inr w') \<and>
    demo_conn 2 \<in> set (shut w') \<and> clientCloseException (ref_chat []) (demo_conn 2) w' = Some w'' \<and>
    map_of (userConnMap w'') 2 = Some (demo_conn 9)"
  by (rule relogin_keeps_session [OF chat.chat_reliable_axioms, where pwd = "''b''" and n = "''bob''" and p = "''b''"])
    (simp_all add: demo_login_request c_str_def, simp add: demo_conn_def)

text \<open>
  (C14) A lost connection ends its user's session: the user has no connection left here, is
  marked offline in the database, the time of the connection is forgotten, and every friend
  connected here is sent the notice once.
\<close>
theorem close_logs_out:
  assumes "chat_reliable E T K obuf wire resp ready busy" and "ready (dbs w)" and "svc_inv w"
    and "map_of (userConnMap w) u = Some c" and "\<forall>v. map_of (userConnMap w) v = Some c \<longrightarrow> v = u" and "u \<noteq> -1"
  shows "\<exists>w' as. clientCloseException E c w = Some w' \<and>
    map_of (userConnMap w') = (map_of (userConnMap w))(u := None) \<and> c \<notin> snd ` set (userConnMap w') \<and>
    cname c \<notin> keys (connectionLastTime w') \<and> T (dbs w') = set_state u ''offline'' (T (dbs w)) \<and>
    distinct as \<and> set as = friend_ids (T (dbs w)) u \<and>
    sent w' = sent w @ map (\<lambda>c. (c, packet (dump (jlib E) (state_notice u ''offline'')))) (here w' as)"
proof -
  obtain v where v: "user_of_conn c (userConnMap w) = Some v"
    using user_of_conn_ex [OF map_of_SomeD [OF assms(4)]] by blast
  with user_of_conn_Some [OF v] assms(3,5) have uv: "user_of_conn c (userConnMap w) = Some u"
    by (auto simp: svc_inv_def)
  have "is_int32 u" using assms(3,4) by (auto simp: svc_inv_def keys_dom)
  from chat_reliable.close_ready [OF assms(1,2) uv assms(6) this] obtain w' as where
    c: "clientCloseException E c w = Some w'" "userConnMap w' = AList.delete u (userConnMap w)"
      "connectionLastTime w' = AList.delete (cname c) (connectionLastTime w)"
      "T (dbs w') = set_state u ''offline'' (T (dbs w))" "distinct as" "set as = friend_ids (T (dbs w')) u"
      "sent w' = sent w @ map (\<lambda>c. (c, packet (dump (jlib E) (state_notice u ''offline'')))) (here w' as)" by blast
  have "c \<notin> snd ` set (AList.delete u (userConnMap w))"
  proof
    assume "c \<in> snd ` set (AList.delete u (userConnMap w))"
    then obtain v where "u \<noteq> v" "(v, c) \<in> set (userConnMap w)" by (auto simp: AList.delete_eq)
    with assms(3,5) show False by (auto simp: svc_inv_def)
  qed
  moreover have "friend_ids (T (dbs w')) u = friend_ids (T (dbs w)) u"
    by (auto simp: c(4) friend_ids_def set_state_def split: option.splits if_splits)
  ultimately show ?thesis using c by (intro exI [of _ w'] exI [of _ as]) (simp add: delete_conv')
qed

theorem close_logs_out_witness:
  "\<exists>w'. clientCloseException (ref_chat []) (demo_conn 2) demo_online = Some w' \<and>
    users (ref_tables (dbs w')) 2 = Some (''bob'', ''b'', ''offline'') \<and> map_of (userConnMap w') 2 = None"
proof -
  have "map_of (userConnMap demo_online) 2 = Some (demo_conn 2)"
    "\<forall>v. map_of (userConnMap demo_online) v = Some (demo_conn 2) \<longrightarrow> v = 2" "(2::int) \<noteq> -1" by simp_all
  from close_logs_out [OF chat.chat_reliable_axioms demo_online_simps(1,3) this, of "[]"] obtain w' where
    w': "clientCloseException (ref_chat []) (demo_conn 2) demo_online = Some w'"
      "map_of (userConnMap w') = (map_of (userConnMap demo_online))(2 := None)"
      "ref_tables (dbs w') = set_state 2 ''offline'' (ref_tables (dbs demo_online))" by blast
  have "users (ref_tables (dbs w')) 2 = Some (''bob'', ''b'', ''offline'')" by (simp add: w'(3) set_state_def)
  with w'(1,2) show ?thesis by auto
qed

text \<open>
  Only one user of a lost connection is logged out: when two users logged in on the same
  connection, one of them keeps the dead connection as its session and its state in the
  database, so that later messages for it are sent there.
\<close>
theorem close_forgets_second_user:
  assumes "mysql_server (sql E) T K" and "svc_inv w" and "map_of (userConnMap w) u = Some c"
    and "map_of (userConnMap w) v = Some c" and "u \<noteq> v" and "clientCloseException E c w = Some w'"
  shows "\<exists>x. (x = u \<or> x = v) \<and> map_of (userConnMap w') x = Some c \<and> users (T (dbs w')) x = users (T (dbs w)) x"
proof -
  obtain y where y: "user_of_conn c (userConnMap w) = Some y"
    using user_of_conn_ex [OF map_of_SomeD [OF assms(3)]] by blast
  define x where "x = (if y = u then v else u)"
  have x: "x = u \<or> x = v" "x \<noteq> y" "map_of (userConnMap w) x = Some c" using assms(3-5) by (auto simp: x_def)
  from close_effect [OF assms(6)] y x(2,3) have "map_of (userConnMap w') x = Some c" by (simp add: delete_conv')
  moreover have "users (T (dbs w')) x = users (T (dbs w)) x"
  proof -
    from assms(6) y obtain w2 where r: "on_redis (unsubscribe (hlib E) y) (w\<lparr>userConnMap := AList.delete y (userConnMap w)\<rparr>) = Some w2"
      and "(if y \<noteq> -1 then go_offline E y (w2\<lparr>connectionLastTime := AList.delete (cname c) (connectionLastTime w2)\<rparr>)
        else Some (w2\<lparr>connectionLastTime := AList.delete (cname c) (connectionLastTime w2)\<rparr>)) = Some w'"
      by (auto simp: clientCloseException_def Let_def split: bind_splits)
    with quiet_on_redis [OF r] go_offline_tables [OF assms(1), of y _ w'] show ?thesis
      using x(2) by (fastforce simp: set_state_def split: if_splits option.splits)
  qed
  ultimately show ?thesis using x(1) by blast
qed

theorem close_forgets_second_user_witness:
  "\<exists>w' x. clientCloseException (ref_chat []) (demo_conn 2) (demo\<lparr>userConnMap := [(2, demo_conn 2), (1, demo_conn 2)]\<rparr>) = Some w' \<and>
    map_of (userConnMap w') x = Some (demo_conn 2)"
proof -
  let ?w = "demo\<lparr>userConnMap := [(2, demo_conn 2), (1, demo_conn 2)]\<rparr>"
  have inv: "svc_inv ?w" by (simp add: svc_inv_def demo_def demo_conn_def)
  from chat.close_returns [OF inv, of "[]" "demo_conn 2"] obtain w' where
    c: "clientCloseException (ref_chat []) (demo_conn 2) ?w = Some w'" by (auto elim: returnsE)
  from close_forgets_second_user [OF _ inv _ _ _ c, of ref_tables "\<lambda>n. n" 2 1] ref.mysql_server_axioms c
  show ?thesis by auto
qed

text \<open>
  (C20) Registration and login fit together: on a database that is up, a new name that fits its
  column gets a fresh positive id, which the acknowledgement carries, and a login with that id
  and the same password (free of zero bytes) is accepted and greets the user by that name.
\<close>
theorem reg_then_login:
  assumes "chat_reliable E T K obuf wire resp ready busy" and "ready (dbs w)"
    and "reg_request js name pwd" and "length name \<le> 50" and "length pwd \<le> 100"
    and "CHR 0x00 \<notin> set name" and "CHR 0x00 \<notin> set pwd" and "dom (users (T (dbs w))) \<subseteq> {..<2 ^ 31 - 1}"
    and "\<forall>i row. users (T (dbs w)) i = Some row \<longrightarrow> K (fst row) \<noteq> K name"
  shows "\<exists>i w1 w2 vec fs gs rest. reg E c js w = Some (Inr w1) \<and> 0 < i \<and> i \<notin> dom (users (T (dbs w))) \<and>
    sent w1 = sent w @ [(c, packet (dump (jlib E) (jobj
      [(''msgid'', JInt (code REG_MSG_ACK)), (''errno'', JInt 0), (''id'', JInt i)])))] \<and>
    login E c (JObj [(''id'', JInt i), (''password'', JStr pwd)]) w1 = Some (Inr w2) \<and>
    map_of (userConnMap w2) i = Some c \<and>
    sent w2 = sent w1 @ (c, packet (dump (jlib E) (login_response (jlib E)
      \<lparr>uid = i, uname = name, upwd = pwd, ustate = ''online''\<rparr> vec fs gs))) # rest"
proof -
  from chat_reliable.reg_ready [OF assms(1,2,3,4,5,8,9), where c = c] obtain w1 i where
    r: "reg E c js w = Some (Inr w1)" "ready (dbs w1)" "0 < i" "is_int32 i" "i \<notin> dom (users (T (dbs w)))"
      "T (dbs w1) = (T (dbs w))\<lparr>users := (users (T (dbs w)))(i \<mapsto> (name, pwd, ''offline''))\<rparr>"
      "sent w1 = sent w @ [(c, packet (dump (jlib E) (jobj
        [(''msgid'', JInt (code REG_MSG_ACK)), (''errno'', JInt 0), (''id'', JInt i)])))]"
    by blast
  then have u: "users (T (dbs w1)) i = Some (name, pwd, ''offline'')" by simp
  have "login_request (jlib E) (JObj [(''id'', JInt i), (''password'', JStr pwd)]) i pwd"
    using demo_login_request [OF r(4)] by (simp add: demo_login_def)
  from login_accepted [OF assms(1) r(2) this u, of c] assms(6,7) obtain w2 vec fs gs rest where
    "login E c (JObj [(''id'', JInt i), (''password'', JStr pwd)]) w1 = Some (Inr w2)"
    "map_of (userConnMap w2) = (map_of (userConnMap w1))(i \<mapsto> c)"
    "sent w2 = sent w1 @ (c, packet (dump (jlib E) (login_response (jlib E)
      \<lparr>uid = i, uname = name, upwd = pwd, ustate = ''online''\<rparr> vec fs gs))) # rest"
    by auto
  with r show ?thesis
    by (intro exI [of _ i] exI [of _ w1] exI [of _ w2] exI [of _ vec] exI [of _ fs] exI [of _ gs] exI [of _ rest]) simp
qed

theorem reg_then_login_witness:
  "\<exists>i w1 w2. reg (ref_chat []) (demo_conn 9) (JObj [(''name'', JStr ''dan''), (''password'', JStr ''it's'')]) demo = Some (Inr w1) \<and>
    login (ref_chat []) (demo_conn 9) (JObj [(''id'', JInt i), (''password'', JStr ''it's'')]) w1 = Some (Inr w2) \<and>
    map_of (userConnMap w2) i = Some (demo_conn 9)"
proof -
  let ?js = "JObj [(''name'', JStr ''dan''), (''password'', JStr ''it's'')]"
  have "reg_request ?js ''dan'' ''it's''"
    by (simp add: reg_request_def contains_def string_field_def jindex_def get_string_def)
  moreover have "\<forall>i row. users (ref_tables (dbs demo)) i = Some row \<longrightarrow> fst row \<noteq> ''dan''"
    by (auto split: if_splits)
  moreover have "dom (users (ref_tables (dbs demo))) \<subseteq> {..<2 ^ 31 - 1}" by simp
  ultimately show ?thesis
    using reg_then_login [OF chat.chat_reliable_axioms, of demo ?js "''dan''" "''it's''" "[]" "demo_conn 9"]
    by (simp only: demo_ready) (fastforce simp del: demo_tables)
qed

text \<open>
  A long name or password overruns the statement buffer of the registration: once a
  connection is acquired, the result is undefined exactly when the escaped name, password and
  state together need more than the 965 bytes that \<open>char sql[1024]\<close> leaves.
\<close>
theorem reg_overflow:
  assumes "reg_request js name pwd" and "fst (acquire (sql E) (dbs w))"
  shows "reg E c js w = None \<longleftrightarrow>
    966 \<le> length (escape (sql E) name) + length (escape (sql E) pwd) + length (escape (sql E) ''offline'')"
proof -
  obtain db1 where a: "acquire (sql E) (dbs w) = (True, db1)" using assms(2) by (cases "acquire (sql E) (dbs w)") auto
  show ?thesis
    using assms(1) a
    by (auto simp: reg_def reg_request_def on_db_def UserModel_insert_def with_conn_def sprintf_buf_def statement_lengths
        new_user_def Let_def split: bind_splits prod.splits if_splits)
qed

theorem reg_overflow_witness:
  "reg (ref_chat []) (demo_conn 9) (JObj [(''name'', JStr (replicate 1000 CHR ''x'')), (''password'', JStr [])]) demo = None"
proof -
  let ?js = "JObj [(''name'', JStr (replicate 1000 CHR ''x'')), (''password'', JStr [])]"
  have r: "reg_request ?js (replicate 1000 CHR ''x'') []"
    by (simp add: reg_request_def contains_def string_field_def jindex_def get_string_def)
  have "length (ref_escape (replicate n CHR ''x'')) = n" for n
    by (induction n) (simp_all add: esc_char_def QUOTE_def BACKSLASH_def)
  moreover have "fst (ref_acquire demo_db)"
    using ref.acquire_ok [of demo_db] by simp
  ultimately show ?thesis using reg_overflow [OF r, of "ref_chat []" demo "demo_conn 9"] by simp
qed

end
