(* ===== verification/ChatProps.thy ===== *)
theory ChatProps
  imports RefChat
begin

section \<open>Properties of chat, friends, groups and heartbeats\<close>

text \<open>
  Where a message goes: exactly one of the connection here, the Redis channel and the table of
  offline messages; for a group, once per other member. What is lost, and when.
\<close>

definition demo_chat :: "string \<Rightarrow> int \<Rightarrow> int \<Rightarrow> json" where
  "demo_chat k i j = JObj [(''id'', JInt i), (k, JInt j)]"

lemma demo_chat_request: "k \<noteq> ''id'' \<Longrightarrow> is_int32 i \<Longrightarrow> is_int32 j \<Longrightarrow> ids_request J (demo_chat k i j) k i j"
  by (simp add: ids_request_def demo_chat_def contains_def int_field_def jindex_def get_int_def)

lemma three_int32 [simp]: "is_int32 2" "is_int32 3"
  by (simp_all add: is_int32_def)

lemma ref_dump_demo:
  "length (ref_escape (ref_dump (demo_chat ''toid'' 1 3))) \<le> 60" "length (ref_dump (demo_chat ''toid'' 1 3)) \<le> 30"
proof -
  show l: "length (ref_dump (demo_chat ''toid'' 1 3)) \<le> 30"
    by (simp add: demo_chat_def quoted_def dec_int_def dec_nat.simps)
  with ref_escape_length [of "ref_dump (demo_chat ''toid'' 1 3)"]
  show "length (ref_escape (ref_dump (demo_chat ''toid'' 1 3))) \<le> 60" by linarith
qed

text \<open>
  (C10) A chat message for an existing user, short enough to be stored, goes to exactly one
  place: unchanged to the user's connection if there is one here, else to the user's Redis
  channel if the database says online, else into the user's offline messages.
\<close>
theorem oneChat_routes:
  assumes "chat_reliable E T K obuf wire resp ready busy" and "ready (dbs w)"
    and "ids_request (jlib E) js ''toid'' fromid toid" and "storable E (T (dbs w)) toid (dump (jlib E) js)"
  shows "\<exists>w'. oneChat E c js w = Some (Inr w') \<and> quiet w w' \<and>
    (case map_of (userConnMap w) toid of
       Some tc \<Rightarrow> sent w' = sent w @ [(tc, packet (dump (jlib E) js))] \<and> redis_st w' = redis_st w \<and> T (dbs w') = T (dbs w)
     | None \<Rightarrow> sent w' = sent w \<and>
         (if is_online (T (dbs w)) toid
          then redis_st w' = snd (publish (hlib E) toid (dump (jlib E) js) (redis_st w)) \<and> T (dbs w') = T (dbs w)
          else redis_st w' = redis_st w \<and> T (dbs w') = add_offline toid (dump (jlib E) js) (T (dbs w))))"
  using chat_reliable.oneChat_ready [OF assms, of c] by blast

theorem oneChat_routes_witness:
  "\<exists>w'. oneChat (ref_chat []) (demo_conn 1) (demo_chat ''toid'' 1 3) demo = Some (Inr w') \<and> sent w' = [] \<and>
    offline (ref_tables (dbs w')) 3 = {# ref_dump (demo_chat ''toid'' 1 3) #}"
proof -
  have st: "storable (ref_chat []) (ref_tables (dbs demo)) 3 (dump (jlib (ref_chat [])) (demo_chat ''toid'' 1 3))"
    using ref_dump_demo by (simp add: storable_def ref_json_def statement_lengths dec_int_def dec_nat.simps)
  have o: "offline (ref_tables (dbs demo)) 3 = {#}" "\<not> is_online (ref_tables (dbs demo)) 3"
    by (simp add: ref_tables_def demo_db_def, simp add: user_of_def c_str_def)
  from oneChat_routes [OF chat.chat_reliable_axioms _ demo_chat_request st, of "demo_conn 1"] obtain w' where
    w': "oneChat (ref_chat []) (demo_conn 1) (demo_chat ''toid'' 1 3) demo = Some (Inr w')" "sent w' = sent demo"
      "ref_tables (dbs w') = add_offline 3 (ref_dump (demo_chat ''toid'' 1 3)) (ref_tables (dbs demo))"
    using o(2) by (auto simp: demo_conns ref_json_def)
  then show ?thesis using o(1) by (auto simp: demo_conns add_offline_def)
qed

text \<open>
  An offline message whose statement exceeds 2047 bytes is lost: \<open>snprintf\<close> cuts the
  statement inside the quoted text, the server rejects it, and nothing is stored, sent or
  answered, however often the database is asked.
\<close>
theorem long_offline_message_lost:
  assumes "mysql_server (sql E) T K" and "ids_request (jlib E) js ''toid'' fromid toid"
    and "map_of (userConnMap w) toid = None" and "\<not> is_online (T (dbs w)) toid"
    and "2047 < length (sprintf fmt_insert_offline [CInt toid, CStr (escape (sql E) (dump (jlib E) js))])"
  shows "\<exists>w'. oneChat E c js w = Some (Inr w') \<and> sent w' = sent w \<and> redis_st w' = redis_st w \<and> T (dbs w') = T (dbs w)"
proof -
  let ?m = "dump (jlib E) js"
  from model_returns(1) [of "sql E" toid "dbs w"] obtain u d where
    q: "UserModel_query (sql E) toid (dbs w) = Some (u, d)" by (rule returns2E)
  from mysql_server.user_query [OF assms(1) q] have t: "T d = T (dbs w)" "u = user_of (T (dbs w)) toid \<or> u = new_user"
    by auto
  with assms(4) have u: "ustate u \<noteq> ''online''" by (auto simp: new_user_def)
  from model_returns(8) [of "sql E" toid ?m d] obtain d2 where
    i: "OfflineMsgModel_insert (sql E) toid ?m d = Some ((), d2)" by (rule returns2E) simp
  from mysql_server.offline_insert [OF assms(1) i] assms(5) t(1) have "T d2 = T (dbs w)" by auto
  with q u i assms(2,3) show ?thesis by (simp add: oneChat_def ids_request_def on_db_def)
qed

theorem long_offline_message_lost_witness:
  "\<exists>js w'. oneChat (ref_chat []) (demo_conn 1) js demo = Some (Inr w') \<and> sent w' = [] \<and>
    offline (ref_tables (dbs w')) 3 = {#}"
proof -
  let ?x = "replicate 2048 CHR ''x''"
  let ?js = "JObj [(''id'', JInt 1), (''msg'', JStr ?x), (''toid'', JInt 3)]"
  have r: "ids_request (jlib (ref_chat [])) ?js ''toid'' 1 3"
    by (simp add: ids_request_def contains_def int_field_def jindex_def get_int_def)
  have "length s \<le> length (ref_escape s)" for s by (induction s) (auto simp: esc_char_def)
  then have e: "length (ref_dump ?js) \<le> length (ref_escape (ref_dump ?js))" .
  have "length s \<le> length (quoted s)" for s
    by (induction s) (auto simp: quoted_def)
  from this [of ?x] have "2048 \<le> length (ref_dump ?js)" by simp
  with e have long: "2047 < length (sprintf fmt_insert_offline [CInt 3, CStr (escape (sql (ref_chat [])) (dump (jlib (ref_chat [])) ?js))])"
    by (simp add: statement_lengths ref_json_def del: ref_dump.simps)
  have o: "offline (ref_tables (dbs demo)) 3 = {#}" "\<not> is_online (ref_tables (dbs demo)) 3" "map_of (userConnMap demo) 3 = None"
    by (simp add: ref_tables_def demo_db_def, simp add: user_of_def c_str_def, simp add: demo_conns)
  from long_offline_message_lost [of "ref_chat []" ref_tables "\<lambda>n. n" ?js 1 3 demo "demo_conn 1"] ref.mysql_server_axioms r o(2,3) long
  obtain w' where "oneChat (ref_chat []) (demo_conn 1) ?js demo = Some (Inr w')" "sent w' = sent demo"
    "ref_tables (dbs w') = ref_tables (dbs demo)" by auto
  with o(1) show ?thesis by (intro exI [of _ ?js] exI [of _ w']) (simp add: demo_conns)
qed

text \<open>
  (C12) What was kept while a user was offline arrives with the login: after a chat message to
  an offline user was stored, the next login of that user with the right password is answered
  with the text of that message (up to a zero byte) among the offline messages.
\<close>
theorem offline_message_delivered:
  assumes "chat_reliable E T K obuf wire resp ready busy" and "ready (dbs w)"
    and "ids_request (jlib E) js ''toid'' fromid toid" and "storable E (T (dbs w)) toid (dump (jlib E) js)"
    and "map_of (userConnMap w) toid = None" and "\<not> is_online (T (dbs w)) toid"
    and "login_request (jlib E) ljs toid pwd" and "users (T (dbs w)) toid = Some (n, p, st)" and "c_str p = pwd"
  shows "\<exists>w1 w2 u vec fs gs rest. oneChat E c js w = Some (Inr w1) \<and> login E lc ljs w1 = Some (Inr w2) \<and>
    c_str (dump (jlib E) js) \<in> set vec \<and>
    sent w2 = sent w1 @ (lc, packet (dump (jlib E) (login_response (jlib E) u vec fs gs))) # rest"
proof -
  let ?m = "dump (jlib E) js"
  from chat_reliable.oneChat_ready [OF assms(1-4), of c] assms(5,6) obtain w1 where
    o: "oneChat E c js w = Some (Inr w1)" "ready (dbs w1)" "T (dbs w1) = add_offline toid ?m (T (dbs w))"
    by auto
  have u: "user_of (T (dbs w1)) toid = \<lparr>uid = toid, uname = c_str n, upwd = pwd, ustate = c_str st\<rparr>"
    using assms(8,9) by (simp add: o(3) user_of_def add_offline_def)
  have "uid (user_of (T (dbs w1)) toid) = toid" "upwd (user_of (T (dbs w1)) toid) = pwd" by (simp_all add: u)
  from chat_reliable.login_ready [OF assms(1) o(2) assms(7) this, of lc] obtain w2 vec fs gs rest where
    l: "login E lc ljs w1 = Some (Inr w2)" "mset vec = image_mset c_str (offline (T (dbs w1)) toid)"
      "sent w2 = sent w1 @ (lc, packet (dump (jlib E) (login_response (jlib E)
        ((user_of (T (dbs w1)) toid)\<lparr>ustate := ''online''\<rparr>) vec fs gs))) # rest" by blast
  have "c_str ?m \<in># mset vec" by (simp add: l(2) o(3) add_offline_def)
  with o(1) l(1,3) show ?thesis by auto
qed

theorem offline_message_delivered_witness:
  "\<exists>w1 w2. oneChat (ref_chat []) (demo_conn 1) (demo_chat ''toid'' 1 3) demo = Some (Inr w1) \<and>
    login (ref_chat []) (demo_conn 9) (JObj [(''id'', JInt 3), (''password'', JStr ''c'')]) w1 = Some (Inr w2)"
proof -
  let ?l = "JObj [(''id'', JInt 3), (''password'', JStr ''c'')]"
  have st: "storable (ref_chat []) (ref_tables (dbs demo)) 3 (dump (jlib (ref_chat [])) (demo_chat ''toid'' 1 3))"
    using ref_dump_demo by (simp add: storable_def ref_json_def statement_lengths dec_int_def dec_nat.simps)
  have l: "login_request (jlib (ref_chat [])) ?l 3 ''c''"
    by (simp add: login_request_def contains_def int_field_def string_field_def jindex_def get_int_def get_string_def)
  have o: "\<not> is_online (ref_tables (dbs demo)) 3" "map_of (userConnMap demo) 3 = None"
    by (simp add: user_of_def c_str_def, simp add: demo_conns)
  from offline_message_delivered [OF chat.chat_reliable_axioms, of demo "[]" "demo_chat ''toid'' 1 3" 1 3 ?l "''c''"
      "''cyd''" "''c''" "''offline''" "demo_conn 1" "demo_conn 9"] st l o demo_chat_request [of "''toid''" 1 3 "jlib (ref_chat [])"]
  show ?thesis by (auto simp: c_str_def)
qed

text \<open>
  (C3) A group message goes to every other member of the group once and to nobody else: unchanged on
  the connection of each member connected here, on the channel of each member online elsewhere, and
  as one offline message of each of the others for whom it can be stored, that is whose \<open>INSERT\<close> fits
  the buffer of 2047 bytes. For an offline member for whom it does not fit the message is lost:
  nothing is stored. The database is up and the document has at most 65535 bytes.
\<close>
theorem groupChat_once:
  assumes "chat_reliable E T K obuf wire resp ready busy" and "ready (dbs w)"
    and "ids_request (jlib E) js ''groupid'' u g" and "length (dump (jlib E) js) \<le> 65535"
  shows "\<exists>w' ids. groupChat E c js w = Some (Inr w') \<and> quiet w w' \<and>
    distinct ids \<and> set ids = member_ids (T (dbs w)) g u \<and>
    sent w' = sent w @ map (\<lambda>c. (c, packet (dump (jlib E) js))) (here w ids) \<and>
    redis_st w' = publish_all (hlib E) (dump (jlib E) js) (filter (is_online (T (dbs w))) (elsewhere w ids)) (redis_st w) \<and>
    T (dbs w') = fold (\<lambda>v. add_offline v (dump (jlib E) js))
      (filter (\<lambda>v. \<not> is_online (T (dbs w)) v \<and> storable E (T (dbs w)) v (dump (jlib E) js)) (elsewhere w ids)) (T (dbs w))"
  using chat_reliable.groupChat_ready [OF assms, of c] by blast

lemma demo_group_dump: "length (ref_dump (demo_chat ''groupid'' 3 1)) \<le> 30"
  by (simp add: demo_chat_def quoted_def dec_int_def dec_nat.simps)

theorem groupChat_once_witness:
  "\<exists>w'. groupChat (ref_chat []) (demo_conn 1) (demo_chat ''groupid'' 3 1) demo = Some (Inr w') \<and>
    sent w' = [(demo_conn 2, packet (ref_dump (demo_chat ''groupid'' 3 1)))] \<and>
    offline (ref_tables (dbs w')) 1 = {# ref_dump (demo_chat ''groupid'' 3 1) #}"
proof -
  let ?m = "ref_dump (demo_chat ''groupid'' 3 1)"
  have m: "member_ids (ref_tables (dbs demo)) 1 3 = {1, 2}"
    by (auto simp: member_ids_def ref_tables_def demo_db_def split: if_splits)
  have "length (dump (jlib (ref_chat [])) (demo_chat ''groupid'' 3 1)) \<le> 65535"
    using demo_group_dump by (simp add: ref_json_def)
  from groupChat_once [OF chat.chat_reliable_axioms [of "[]"], of demo, OF _ demo_chat_request this, of "demo_conn 1"] m
  obtain w' ids where g: "groupChat (ref_chat []) (demo_conn 1) (demo_chat ''groupid'' 3 1) demo = Some (Inr w')"
      "distinct ids" "set ids = {1, 2}" "sent w' = map (\<lambda>c. (c, packet ?m)) (here demo ids)"
      "ref_tables (dbs w') = fold (\<lambda>v. add_offline v ?m) (filter (\<lambda>v. \<not> is_online (ref_tables (dbs demo)) v \<and>
        storable (ref_chat []) (ref_tables (dbs demo)) v ?m) (elsewhere demo ids)) (ref_tables (dbs demo))"
    by (auto simp: ref_json_def demo_conns)
  have ids: "ids = [1, 2] \<or> ids = [2, 1]"
  proof -
    have "length ids = 2" using distinct_card [OF g(2)] g(3) by simp
    then obtain a b where "ids = [a, b]" by (auto simp: numeral_2_eq_2 length_Suc_conv)
    with g(2,3) show ?thesis by (auto simp: doubleton_eq_iff)
  qed
  then have e: "elsewhere demo ids = [1]" "here demo ids = [demo_conn 2]" by (auto simp: demo_conns)
  have "storable (ref_chat []) (ref_tables (dbs demo)) 1 ?m"
    using demo_group_dump ref_escape_length [of ?m] by (simp add: storable_def statement_lengths dec_int_def dec_nat.simps)
  moreover have "\<not> is_online (ref_tables (dbs demo)) 1" by (simp add: user_of_def c_str_def)
  moreover have "offline (ref_tables (dbs demo)) 1 = {#}" by (simp add: ref_tables_def demo_db_def)
  ultimately have "offline (ref_tables (dbs w')) 1 = {# ?m #}" using g(5) e by (simp add: add_offline_def)
  with g(1,4) e show ?thesis by auto
qed

text \<open>
  (C15) A change of state is told to every friend exactly once: on the connection of each friend
  connected here, on the Redis channel of every other friend, with the user's id and new state;
  the tables are only read.
\<close>
theorem notify_once:
  assumes "chat_reliable E T K obuf wire resp ready busy" and "ready (dbs w)"
  shows "\<exists>w' as. notifyFriendState E u st w = Some w' \<and> quiet w w' \<and> T (dbs w') = T (dbs w) \<and>
    distinct as \<and> set as = friend_ids (T (dbs w)) u \<and>
    sent w' = sent w @ map (\<lambda>c. (c, packet (dump (jlib E) (state_notice u st)))) (here w as) \<and>
    redis_st w' = publish_all (hlib E) (dump (jlib E) (state_notice u st)) (elsewhere w as) (redis_st w)"
  using chat_reliable.notify_ready [OF assms, of u st] by blast

theorem notify_once_witness:
  "\<exists>w'. notifyFriendState (ref_chat []) 1 ''online'' demo = Some w' \<and>
    sent w' = [(demo_conn 2, packet (ref_dump (state_notice 1 ''online'')))]"
proof -
  have f: "friend_ids (ref_tables (dbs demo)) 1 = {2}"
    by (auto simp: friend_ids_def ref_tables_def demo_db_def split: if_splits)
  from notify_once [OF chat.chat_reliable_axioms, of demo "[]" 1 "''online''"] f obtain w' as where
    n: "notifyFriendState (ref_chat []) 1 ''online'' demo = Some w'" "distinct as" "set as = {2}"
      "sent w' = sent demo @ map (\<lambda>c. (c, packet (ref_dump (state_notice 1 ''online'')))) (here demo as)"
    by (auto simp: ref_json_def)
  have "as = [2]"
  proof (cases as)
    case (Cons a bs)
    with n(2,3) have "a = 2" "bs = []" by (auto, cases bs, auto)
    with Cons show ?thesis by simp
  qed (use n(3) in simp)
  with n(1,4) show ?thesis by (simp add: demo_conns)
qed

text \<open>
  (C36) Friendship stays symmetric: adding a friend on a database that is up adds both directions
  when both users exist and nothing otherwise, so a symmetric friend table stays symmetric; the
  answer describes the friend as stored.
\<close>
theorem addFriend_symmetric:
  assumes "chat_reliable E T K obuf wire resp ready busy" and "ready (dbs w)"
    and "ids_request (jlib E) js ''friendid'' u f" and "sym (friends (T (dbs w)))"
  shows "\<exists>w'. addFriend E c js w = Some (Inr w') \<and> sym (friends (T (dbs w'))) \<and>
    friends (T (dbs w')) = friends (T (dbs w)) \<union>
      (if u \<in> dom (users (T (dbs w))) \<and> f \<in> dom (users (T (dbs w))) then {(u, f), (f, u)} else {}) \<and>
    users (T (dbs w')) = users (T (dbs w)) \<and> (\<exists>r. sent w' = sent w @ [(c, packet (dump (jlib E) r))])"
proof -
  from chat_reliable.addFriend_ready [OF assms(1-3), of c] obtain w' where
    a: "addFriend E c js w = Some (Inr w')" "T (dbs w') = add_friend f u (add_friend u f (T (dbs w)))"
      "\<exists>r. sent w' = sent w @ [(c, packet (dump (jlib E) r))]"
    by (auto simp: Let_def)
  have "friends (T (dbs w')) = friends (T (dbs w)) \<union>
      (if u \<in> dom (users (T (dbs w))) \<and> f \<in> dom (users (T (dbs w))) then {(u, f), (f, u)} else {})"
    "users (T (dbs w')) = users (T (dbs w))"
    by (auto simp: a(2) add_friend_def)
  with assms(4) a(1,3) show ?thesis by (intro exI [of _ w']) (auto simp: sym_def)
qed

theorem addFriend_symmetric_witness:
  "\<exists>w'. addFriend (ref_chat []) (demo_conn 1) (demo_chat ''friendid'' 1 3) demo = Some (Inr w') \<and>
    (1, 3) \<in> friends (ref_tables (dbs w')) \<and> (3, 1) \<in> friends (ref_tables (dbs w'))"
proof -
  have "sym (friends (ref_tables (dbs demo)))" by (auto simp: sym_def ref_tables_def demo_db_def)
  moreover have "ids_request (jlib (ref_chat [])) (demo_chat ''friendid'' 1 3) ''friendid'' 1 3" by (simp add: demo_chat_request)
  ultimately show ?thesis
    using addFriend_symmetric [OF chat.chat_reliable_axioms [of "[]"], of demo "demo_chat ''friendid'' 1 3" 1 3 "demo_conn 1"]
    by auto
qed

text \<open>
  Creating a group answers only when the group was stored: then the answer carries its fresh
  id, and its one member, if that row could be stored, is the creator with the role creator; no
  other table changes, whatever fails.
\<close>
theorem createGroup_creator:
  assumes "mysql_server (sql E) T K" and "createGroup E c js w = Some (Inr w')"
  shows "T (dbs w') = T (dbs w) \<and> sent w' = sent w \<or>
    (\<exists>u n d g t. int_field (jlib E) js ''id'' = Inr u \<and> string_field js ''groupname'' = Inr n \<and>
      string_field js ''groupdesc'' = Inr d \<and> g \<notin> dom (groups (T (dbs w))) \<and> 0 < g \<and>
      t = (T (dbs w))\<lparr>groups := (groups (T (dbs w)))(g \<mapsto> (n, d))\<rparr> \<and>
      (T (dbs w') = t \<or> T (dbs w') = t\<lparr>members := (members (T (dbs w)))((g, u) \<mapsto> ''creator'')\<rparr>) \<and>
      sent w' = sent w @ [(c, packet (dump (jlib E) (jobj [(''msgid'', JInt (code CREATE_GROUP_MSG)), (''groupid'', JInt g),
        (''groupname'', JStr n), (''groupdesc'', JStr d)])))])"
proof (cases "w' = w")
  case False
  with assms(2) obtain u n d ok g w1 where f: "int_field (jlib E) js ''id'' = Inr u" "string_field js ''groupname'' = Inr n"
      "string_field js ''groupdesc'' = Inr d"
    and c: "on_db (GroupModel_createGroup (sql E) (new_group\<lparr>gname := n, gdesc := d\<rparr>)) w = Some ((ok, g), w1)"
    and r: "if ok then (\<exists>x w2. on_db (GroupModel_addGroup (sql E) u (gid g) ''creator'') w1 = Some (x, w2) \<and>
        w' = sendJson E c (jobj [(''msgid'', JInt (code CREATE_GROUP_MSG)), (''groupid'', JInt (gid g)),
          (''groupname'', JStr (gname g)), (''groupdesc'', JStr (gdesc g))]) w2) else w' = w1"
    by (auto simp: createGroup_def split: if_splits sum.splits bind_splits)
  from c obtain d1 where d1: "GroupModel_createGroup (sql E) (new_group\<lparr>gname := n, gdesc := d\<rparr>) (dbs w) = Some ((ok, g), d1)"
    "w1 = w\<lparr>dbs := d1\<rparr>" by (rule on_db_SomeE)
  note ins = mysql_server.group_insert [OF assms(1) d1(1)]
  show ?thesis
  proof (cases ok)
    case True
    with r obtain x w2 where "on_db (GroupModel_addGroup (sql E) u (gid g) ''creator'') w1 = Some (x, w2)"
      and w': "w' = sendJson E c (jobj [(''msgid'', JInt (code CREATE_GROUP_MSG)), (''groupid'', JInt (gid g)),
          (''groupname'', JStr (gname g)), (''groupdesc'', JStr (gdesc g))]) w2" by auto
    then obtain d2 where d2: "GroupModel_addGroup (sql E) u (gid g) ''creator'' d1 = Some (x, d2)" "w2 = w\<lparr>dbs := d2\<rparr>"
      using d1(2) by (auto elim: on_db_SomeE)
    show ?thesis
      using True ins mysql_server.group_addMember [OF assms(1) d2(1)] f
      by (intro disjI2 exI [of _ u] exI [of _ n] exI [of _ d] exI [of _ "gid g"] exI [of _ "T d1"])
        (auto simp: w' d2(2) new_group_def)
  next
    case False
    with r ins d1(2) show ?thesis by simp
  qed
qed simp

theorem createGroup_creator_witness:
  "\<exists>w'. createGroup (ref_chat []) (demo_conn 1) (JObj [(''groupdesc'', JStr ''x''), (''groupname'', JStr ''y''), (''id'', JInt 1)]) demo
      = Some (Inr w') \<and> (sent w' = sent demo \<or> length (sent w') = 1)"
proof -
  let ?js = "JObj [(''groupdesc'', JStr ''x''), (''groupname'', JStr ''y''), (''id'', JInt 1)]"
  have len: "length (ref_escape ''x'') \<le> 2" "length (ref_escape ''y'') \<le> 2"
    using ref_escape_length [of "''x''"] ref_escape_length [of "''y''"] by simp_all
  have i: "is_int32 (gid g)" if "GroupModel_createGroup ref_mysql x y = Some ((ok, g), z)" "gid x = -1" for x y ok g z
    using ref.group_insert [OF that(1)] that(2) by (auto split: if_splits)
  have "returns (createGroup (ref_chat []) (demo_conn 1) ?js demo)"
    using len i
    by (auto simp: createGroup_def contains_def int_field_def string_field_def jindex_def get_int_def get_string_def new_group_def
        intro!: returns_bind chat.on_db_returns createGroup_returns ref.addGroup_returns elim!: on_db_SomeE)
  moreover have "createGroup (ref_chat []) (demo_conn 1) ?js demo \<noteq> Some (Inl e)" for e
    by (auto simp: createGroup_def contains_def int_field_def string_field_def jindex_def get_int_def get_string_def
        split: bind_splits if_splits)
  ultimately obtain w' where w': "createGroup (ref_chat []) (demo_conn 1) ?js demo = Some (Inr w')"
    by (metis returnsE sum.exhaust)
  from createGroup_creator [OF _ w', of ref_tables "\<lambda>n. n"] ref.mysql_server_axioms w' show ?thesis
    by (auto simp: demo_conns)
qed

text \<open>
  (C24) Routing through Redis is transparent: when a message that was parsed from its text is
  published by \<open>oneChat\<close> and its text reaches the server where the user is connected, that server
  sends the very packet that a server with the user connected directly would have sent.
\<close>
theorem cross_server_same_packet:
  assumes "json_lib_ok (jlib E)" and "parse (jlib E) txt = Some js"
    and "ids_request (jlib E) js ''toid'' fromid toid" and "map_of (userConnMap w) toid = Some tc"
  shows "\<exists>w'. handleRedisSubscribeMessage E toid (dump (jlib E) js) w = Some (Inr w') \<and>
    oneChat E c js w = Some (Inr w') \<and> sent w' = sent w @ [(tc, packet (dump (jlib E) js))]"
proof -
  have "parse (jlib E) (dump (jlib E) js) = Some js" using assms(1,2) by (simp add: json_lib_ok_def)
  with assms(3,4) show ?thesis
    by (auto simp: handleRedisSubscribeMessage_def oneChat_def ids_request_def)
qed

theorem cross_server_same_packet_witness:
  "\<exists>w'. handleRedisSubscribeMessage (ref_chat [demo_chat ''toid'' 1 2]) 2 (ref_dump (demo_chat ''toid'' 1 2)) demo = Some (Inr w') \<and>
    sent w' = [(demo_conn 2, packet (ref_dump (demo_chat ''toid'' 1 2)))]"
  using cross_server_same_packet [of "ref_chat [demo_chat ''toid'' 1 2]" "ref_dump (demo_chat ''toid'' 1 2)" "demo_chat ''toid'' 1 2" 1 2 demo "demo_conn 2" "demo_conn 1"]
    ref_json_ok [of "[demo_chat ''toid'' 1 2]"] demo_chat_request [of "''toid''" 1 2 "ref_json [demo_chat ''toid'' 1 2]"]
  by (auto simp: demo_conns ref_json_def)

text \<open>
  A message from another server for a user who is not connected here is kept, unless it
  is a notice of a friend's state: then nothing changes; otherwise, on a database that is up,
  the text itself becomes one offline message, also when it cannot be parsed.
\<close>
theorem redis_message_kept:
  assumes "chat_reliable E T K obuf wire resp ready busy" and "ready (dbs w)"
    and "map_of (userConnMap w) u = None" and "storable E (T (dbs w)) u txt"
    and "case parse (jlib E) txt of None \<Rightarrow> k = None
      | Some js \<Rightarrow> (if contains js ''msgid'' then (\<exists>i. k = Some i \<and> int_field (jlib E) js ''msgid'' = Inr i) else k = None)"
  shows "\<exists>w'. handleRedisSubscribeMessage E u txt w = Some (Inr w') \<and> sent w' = sent w \<and> quiet w w' \<and>
    T (dbs w') = (if k = Some (code FRIEND_STATE_CHANGE_MSG) then T (dbs w) else add_offline u txt (T (dbs w)))"
proof -
  from assms(1) have "reliable_mysql (sql E) T K ready busy" by (simp add: chat_reliable_def)
  from reliable_mysql.offline_insert_ready [OF this assms(2)] assms(4) obtain d where
    i: "OfflineMsgModel_insert (sql E) u txt (dbs w) = Some ((), d)" "T d = add_offline u txt (T (dbs w))"
    by (auto simp: storable_def)
  have n: "\<not> contains JNull ''msgid''" by (simp add: contains_def)
  show ?thesis
    using assms(3,5) i n
    by (auto simp: handleRedisSubscribeMessage_def on_db_def quiet_def split: option.splits if_splits)
qed

theorem redis_message_kept_witness:
  "\<exists>w'. handleRedisSubscribeMessage (ref_chat []) 3 ''hello'' demo = Some (Inr w') \<and>
    ref_tables (dbs w') = add_offline 3 ''hello'' (ref_tables (dbs demo))"
proof -
  have "length (ref_escape ''hello'') \<le> 10" using ref_escape_length [of "''hello''"] by simp
  then have "storable (ref_chat []) (ref_tables (dbs demo)) 3 ''hello''"
    by (simp add: storable_def statement_lengths dec_int_def dec_nat.simps)
  from redis_message_kept [OF chat.chat_reliable_axioms [of "[]"] _ _ this, of None] show ?thesis
    by (auto simp: ref_json_def demo_conns)
qed

lemma image_avoids: "x \<notin> f ` S \<Longrightarrow> S \<inter> {d. f d = x} = {}"
  by auto

text \<open>
  The heartbeat check shuts down exactly the connections whose last message is more than 30
  seconds old: every recorded one of these, none that sent anything within 30 seconds, and it
  changes nothing else. (A connection that never sent a message is not recorded.)
\<close>
theorem heartbeat_check_exact:
  assumes "svc_inv w"
  shows "checkHeartbeat w = w\<lparr>shut := shut (checkHeartbeat w)\<rparr> \<and>
    (\<exists>cs. shut (checkHeartbeat w) = shut w @ cs \<and> distinct (map cname cs) \<and>
      set cs = {c. \<exists>t. (cname c, t, c) \<in> set (connectionLastTime w) \<and> 30 < now w - t}) \<and>
    set (drop (length (shut w)) (shut (checkHeartbeat (updateConnTime c w)))) \<inter> {d. cname d = cname c} = {}"
proof -
  let ?old = "\<lambda>w. filter (\<lambda>kv. now w - fst (snd kv) > 30) (connectionLastTime w)"
  have names: "map cname (map (\<lambda>kv. snd (snd kv)) xs) = map fst xs"
    if "set xs \<subseteq> set (connectionLastTime v)" "svc_inv v" for xs v
    using that by (auto simp: svc_inv_def dest!: subsetD)
  have "distinct (map fst (?old w))" using assms by (simp add: svc_inv_def distinct_map_filter)
  then have "distinct (map cname (map (\<lambda>kv. snd (snd kv)) (?old w)))" by (subst names [OF _ assms]) auto
  moreover have "set (map (\<lambda>kv. snd (snd kv)) (?old w)) =
      {c. \<exists>t. (cname c, t, c) \<in> set (connectionLastTime w) \<and> 30 < now w - t}"
    using assms by (force simp: svc_inv_def image_iff)
  moreover have fresh: "cname c \<notin> cname ` set (map (\<lambda>kv. snd (snd kv)) (?old (updateConnTime c w)))"
  proof
    assume "cname c \<in> cname ` set (map (\<lambda>kv. snd (snd kv)) (?old (updateConnTime c w)))"
    then obtain e where e: "e \<in> set (connectionLastTime (updateConnTime c w))" "now w - fst (snd e) > 30" "cname (snd (snd e)) = cname c"
      by auto
    have inv: "svc_inv (updateConnTime c w)" using assms by (rule svc_inv_update)
    with e(1,3) have "fst e = cname c" by (auto simp: svc_inv_def)
    then have "e = (cname c, snd e)" by (cases e) simp
    with e(1) have "(cname c, snd e) \<in> set (connectionLastTime (updateConnTime c w))" by simp
    with inv have "map_of (connectionLastTime (updateConnTime c w)) (cname c) = Some (snd e)"
      by (auto simp: svc_inv_def intro: map_of_is_SomeI)
    then have "snd e = (now w, c)" by (simp add: update_conv')
    with e(2) show False by simp
  qed
  moreover from fresh have "set (map (\<lambda>kv. snd (snd kv)) (?old (updateConnTime c w))) \<inter> {d. cname d = cname c} = {}"
    by (rule image_avoids)
  ultimately show ?thesis
    unfolding checkHeartbeat_def by (intro conjI exI [of _ "map (\<lambda>kv. snd (snd kv)) (?old w)"]) simp_all
qed

theorem heartbeat_check_exact_witness:
  "demo_conn 2 \<in> set (shut (checkHeartbeat demo))"
proof -
  have "svc_inv demo" by (simp add: svc_inv_def demo_def demo_conn_def)
  from heartbeat_check_exact [OF this] obtain cs where "shut (checkHeartbeat demo) = shut demo @ cs"
    "set cs = {c. \<exists>t. (cname c, t, c) \<in> set (connectionLastTime demo) \<and> 30 < now demo - t}" by blast
  moreover have "(cname (demo_conn 2), 0, demo_conn 2) \<in> set (connectionLastTime demo)" "30 < now demo - 0"
    by (simp_all add: demo_def demo_conn_def)
  ultimately show ?thesis by auto
qed

text \<open>After the restart handler ran on a database that is up, no user is marked online.\<close>
theorem reset_all_offline:
  assumes "chat_reliable E T K obuf wire resp ready busy" and "ready (dbs w)"
  shows "\<exists>w'. reset E w = Some w' \<and> quiet w w' \<and> sent w' = sent w \<and> dom (users (T (dbs w'))) = dom (users (T (dbs w))) \<and>
    (\<nexists>i n p. users (T (dbs w')) i = Some (n, p, ''online''))"
proof -
  from assms(1) have "reliable_mysql (sql E) T K ready busy" by (simp add: chat_reliable_def)
  from reliable_mysql.resetState_ready [OF this assms(2)] obtain d where
    d: "UserModel_resetState (sql E) (dbs w) = Some ((), d)" "T d = all_offline (T (dbs w))" by auto
  have "dom (users (all_offline t)) = dom (users t)" "\<nexists>i n p. users (all_offline t) i = Some (n, p, ''online'')" for t
    by (auto simp: all_offline_def split: if_splits)
  with d show ?thesis by (simp add: reset_def on_db_def quiet_def)
qed

theorem reset_all_offline_witness:
  "\<exists>w'. reset (ref_chat []) demo = Some w' \<and> (\<nexists>i n p. users (ref_tables (dbs w')) i = Some (n, p, ''online''))"
  using reset_all_offline [OF chat.chat_reliable_axioms [of "[]"], of demo] by auto

end
