(* ===== verification/Server.thy ===== *)
theory Server
  imports RefChat
begin

section \<open>The chat server: dispatch and whole runs\<close>

text \<open>
  \<open>chatserver.cpp\<close>: the callback of received bytes with its three catch clauses and the callback
  of connection changes, and a step relation of one server process in which connections come
  and go, bytes arrive in pieces, other servers and the timer act, in any order.
\<close>

subsection \<open>Dispatch\<close>

text \<open>
  The body of the loop in \<open>onMessage\<close>: a text that does not parse is skipped; an exception of the
  handler, or of reading the kind, is caught after the connection's time was refreshed.
\<close>

definition handle_body :: "('db, 'h) env \<Rightarrow> conn \<Rightarrow> string \<Rightarrow> ('db, 'h) svc \<Rightarrow> ('db, 'h) svc option" where
  "handle_body E c msg w =
     (case parse (jlib E) msg of
        None \<Rightarrow> Some w
      | Some js \<Rightarrow>
          (let w1 = updateConnTime c w in
           case int_field (jlib E) js ''msgid'' of
             Inl e \<Rightarrow> Some w1
           | Inr k \<Rightarrow> do {
               r \<leftarrow> getHandler E k c js w1;
               Some (case r of Inl e \<Rightarrow> w1 | Inr w2 \<Rightarrow> w2)
             }))"

definition onMessage :: "('db, 'h) env \<Rightarrow> conn \<Rightarrow> string \<Rightarrow> ('db, 'h) svc \<Rightarrow> (('db, 'h) svc \<times> string) option" where
  "onMessage E c buffer w = onMessage_loop (handle_body E c) buffer w"

definition onConnection :: "('db, 'h) env \<Rightarrow> conn \<Rightarrow> bool \<Rightarrow> ('db, 'h) svc \<Rightarrow> ('db, 'h) svc option" where
  "onConnection E c connected w =
     (if \<not> connected then do {
        w1 \<leftarrow> clientCloseException E c w;
        Some (w1\<lparr>shut := shut w1 @ [c]\<rparr>)
      } else Some w)"

lemma getHandler_cases:
  "getHandler E k \<in> {login E, loginout E, reg E, oneChat E, addFriend E, createGroup E, addGroup E, groupChat E,
     updateName E, heartbeat E, (\<lambda>c js w. Some (Inr w))}"
  by (simp add: getHandler_def msgHandlerMap_def)

lemma getHandler_simps [simp]:
  "getHandler E (code LOGIN_MSG) = login E" "getHandler E (code REG_MSG) = reg E"
  "getHandler E (code ONE_CHAT_MSG) = oneChat E" "getHandler E (code GROUP_CHAT_MSG) = groupChat E"
  "getHandler E (code LOGIN_MSG_ACK) = (\<lambda>c js w. Some (Inr w))"
  "getHandler E (code FRIEND_STATE_CHANGE_MSG) = (\<lambda>c js w. Some (Inr w))"
  by (simp_all add: getHandler_def msgHandlerMap_def)

subsection \<open>What the loop keeps\<close>

lemma onMessage_loop_inv:
  assumes "\<And>b w w'. P w \<Longrightarrow> h b w = Some w' \<Longrightarrow> P w'"
  shows "P w \<Longrightarrow> onMessage_loop h buf w = Some (w', r) \<Longrightarrow> P w'"
proof (induction buf arbitrary: w rule: parse_stream.induct)
  case (1 buf)
  show ?case
  proof (cases "scan buf")
    case (Frame b r')
    with 1(4) onMessage_loop_scan [of h buf w] obtain w1 where "h b w = Some w1" "onMessage_loop h r' w1 = Some (w', r)"
      by (auto split: option.splits)
    with 1(1) [OF Frame] assms 1(3) show ?thesis by blast
  qed (use 1(3,4) onMessage_loop_scan [of h buf w] in auto)
qed

lemma onMessage_loop_returns:
  assumes "\<And>b w. b \<in> set (fst (parse_stream buf)) \<Longrightarrow> returns (h b w)"
  shows "returns (onMessage_loop h buf w)"
  using assms
proof (induction buf arbitrary: w rule: parse_stream.induct)
  case (1 buf)
  show ?case
  proof (cases "scan buf")
    case (Frame b r')
    with 1(3) [of b w] obtain w1 where "h b w = Some w1" by (auto elim: returnsE)
    with 1(1) [OF Frame, of w1] 1(3) Frame show ?thesis by (simp add: onMessage_loop_scan [of h buf])
  qed (simp_all add: onMessage_loop_scan [of h buf])
qed

text \<open>A handler touches the sessions only through its own connection.\<close>

definition sessions :: "('db, 'h) svc \<Rightarrow> conn set" where
  "sessions w = snd ` set (userConnMap w)"

definition timed :: "('db, 'h) svc \<Rightarrow> conn set" where
  "timed w = (\<lambda>e. snd (snd e)) ` set (connectionLastTime w)"

definition own_change :: "conn \<Rightarrow> ('db, 'h) svc \<Rightarrow> ('db, 'h) svc \<Rightarrow> bool" where
  "own_change c w w' \<longleftrightarrow> (svc_inv w \<longrightarrow> svc_inv w') \<and>
     sessions w' \<subseteq> insert c (sessions w) \<and> timed w' \<subseteq> insert c (timed w)"

lemma quiet_sets: "quiet w w' \<Longrightarrow> sessions w' = sessions w" "quiet w w' \<Longrightarrow> timed w' = timed w"
  by (simp_all add: sessions_def timed_def quiet_def)

lemma quiet_own: "quiet w w' \<Longrightarrow> own_change c w w'"
  by (simp add: own_change_def quiet_inv quiet_sets subset_insertI)

lemma own_trans: "own_change c w w' \<Longrightarrow> own_change c w' w'' \<Longrightarrow> own_change c w w''"
  unfolding own_change_def by blast

lemma update_own: "own_change c w (updateConnTime c w)"
  by (auto simp: own_change_def sessions_def timed_def svc_inv_update dest!: set_update_cases)

lemma login_own:
  assumes "login E c js w = Some (Inr w')"
  shows "own_change c w w'"
  using login_effect [OF assms]
proof
  assume "\<exists>i u. is_int32 i \<and>
    (userConnMap w' = AList.update i c (userConnMap w) \<or> userConnMap w' = AList.update i c (AList.delete i (userConnMap w))) \<and>
    connectionLastTime w' = connectionLastTime w \<and> now w' = now w \<and> shut w' = shut w @ kicked w i u"
  then obtain i where i: "userConnMap w' = AList.update i c (userConnMap w) \<or>
      userConnMap w' = AList.update i c (AList.delete i (userConnMap w))" and t: "connectionLastTime w' = connectionLastTime w"
    by blast
  have "e \<in> set (userConnMap w') \<Longrightarrow> e = (i, c) \<or> e \<in> set (userConnMap w)" for e
    using i by (auto dest!: set_update_cases set_delete_subset)
  then have "sessions w' \<subseteq> insert c (sessions w)" by (fastforce simp: sessions_def)
  with t login_inv [OF _ assms] show ?thesis by (auto simp: own_change_def timed_def)
qed (rule quiet_own)

lemma loginout_own:
  assumes "loginout E c js w = Some (Inr w')"
  shows "own_change c w w'"
  using loginout_effect [OF assms]
proof
  assume "\<exists>i. userConnMap w' = AList.delete i (userConnMap w) \<and>
    connectionLastTime w' = AList.delete (cname c) (connectionLastTime w) \<and> now w' = now w \<and> shut w' = shut w"
  then obtain i where i: "userConnMap w' = AList.delete i (userConnMap w)"
    "connectionLastTime w' = AList.delete (cname c) (connectionLastTime w)" "now w' = now w" by blast
  have "svc_inv w'" if "svc_inv w"
    using that i by (auto simp: svc_inv_def dest!: set_delete_subset intro!: distinct_fst_delete)
  with i show ?thesis by (auto simp: own_change_def sessions_def timed_def dest!: set_delete_subset)
qed (rule quiet_own)

lemmas quiet_handlers_own = quiet_handlers [THEN quiet_own]

lemma handler_own:
  assumes "getHandler E k c js w = Some (Inr w')"
  shows "own_change c w w'"
proof -
  have hb: "heartbeat E c js w = Some (Inr w') \<Longrightarrow> own_change c w w'"
    using own_trans [OF update_own quiet_own [OF quiet_sendJson [OF quiet_refl]]] by (auto simp: heartbeat_def)
  have "h c js w = Some (Inr w') \<longrightarrow> own_change c w w'" if "h \<in> {login E, loginout E, reg E, oneChat E, addFriend E,
      createGroup E, addGroup E, groupChat E, updateName E, heartbeat E, (\<lambda>c js w. Some (Inr w))}" for h
    using that
    by (elim insertE emptyE; hypsubst) (auto intro: login_own loginout_own hb quiet_handlers_own quiet_own)
  with getHandler_cases assms show ?thesis by blast
qed

lemma body_own: "handle_body E c b w = Some w' \<Longrightarrow> own_change c w w'"
  by (auto simp: handle_body_def Let_def split: option.splits sum.splits bind_splits
      intro: own_trans [OF update_own handler_own] update_own quiet_own)

lemma onMessage_own: "onMessage E c buf w = Some (w', r) \<Longrightarrow> own_change c w w'"
  unfolding onMessage_def
  by (rule onMessage_loop_inv [where P = "own_change c w" and w = w]) (auto intro: own_trans body_own quiet_own)

subsection \<open>Runs of a server\<close>

record ('db, 'h) server =
  service :: "('db, 'h) svc"
  inbuf :: "conn \<Rightarrow> string"
  opened :: "conn set"
  live :: "conn set"

text \<open>
  The events of a server process. The network stack gives every connection a name of its own.
  \<open>ev_database\<close> stands for everything other processes do to the database, \<open>ev_clock\<close> for time.
\<close>

inductive server_step :: "('db, 'h) env \<Rightarrow> ('db, 'h) server \<Rightarrow> ('db, 'h) server \<Rightarrow> bool" for E where
  ev_open: "cname c \<notin> cname ` opened s \<Longrightarrow>
    server_step E s (s\<lparr>opened := insert c (opened s), live := insert c (live s), inbuf := (inbuf s)(c := [])\<rparr>)"
| ev_data: "c \<in> live s \<Longrightarrow> onMessage E c (inbuf s c @ d) (service s) = Some (w', r) \<Longrightarrow>
    server_step E s (s\<lparr>service := w', inbuf := (inbuf s)(c := r)\<rparr>)"
| ev_close: "c \<in> live s \<Longrightarrow> onConnection E c False (service s) = Some w' \<Longrightarrow>
    server_step E s (s\<lparr>service := w', live := live s - {c}\<rparr>)"
| ev_redis: "observer_iteration (hlib E) b (redis_st (service s)) = Some (Message u m, r) \<Longrightarrow>
    handleRedisSubscribeMessage E u m ((service s)\<lparr>redis_st := r\<rparr>) = Some (Inr w') \<Longrightarrow>
    server_step E s (s\<lparr>service := w'\<rparr>)"
| ev_observer: "observer_iteration (hlib E) b (redis_st (service s)) = Some (obs, r) \<Longrightarrow> \<forall>u m. obs \<noteq> Message u m \<Longrightarrow>
    server_step E s (s\<lparr>service := (service s)\<lparr>redis_st := r\<rparr>\<rparr>)"
| ev_timer: "server_step E s (s\<lparr>service := checkHeartbeat (service s)\<rparr>)"
| ev_clock: "0 \<le> dt \<Longrightarrow> server_step E s (s\<lparr>service := (service s)\<lparr>now := now (service s) + dt\<rparr>\<rparr>)"
| ev_database: "server_step E s (s\<lparr>service := (service s)\<lparr>dbs := d\<rparr>\<rparr>)"

inductive server_run :: "('db, 'h) env \<Rightarrow> ('db, 'h) server \<Rightarrow> ('db, 'h) server \<Rightarrow> bool" for E where
  run_refl: "server_run E s s"
| run_step: "server_run E s t \<Longrightarrow> server_step E t u \<Longrightarrow> server_run E s u"

text \<open>Sessions belong to connections that were opened, recorded times to live connections.\<close>

definition server_inv :: "('db, 'h) server \<Rightarrow> bool" where
  "server_inv s \<longleftrightarrow> svc_inv (service s) \<and> inj_on cname (opened s) \<and> live s \<subseteq> opened s \<and>
     sessions (service s) \<subseteq> opened s \<and> timed (service s) \<subseteq> live s"

lemma quiet_server_inv:
  assumes "quiet (service s) w'" and "server_inv s"
  shows "server_inv (s\<lparr>service := w'\<rparr>)"
  using assms(2) quiet_inv [OF assms(1)] quiet_sets [OF assms(1)] by (simp add: server_inv_def)

lemma server_inv_step:
  assumes "server_step E s t" and "server_inv s"
  shows "server_inv t"
  using assms
proof (induction rule: server_step.induct)
  case (ev_open c s)
  then have "inj_on cname (insert c (opened s))" by (auto simp: inj_on_insert server_inv_def)
  with ev_open(2) show ?case unfolding server_inv_def by (simp add: subset_insertI2 insert_mono)
next
  case (ev_data c s d w' r)
  with onMessage_own [OF ev_data(2)] show ?case by (auto simp: server_inv_def own_change_def)
next
  case (ev_close c s w')
  then obtain w1 where c: "clientCloseException E c (service s) = Some w1" "w' = w1\<lparr>shut := shut w1 @ [c]\<rparr>"
    by (auto simp: onConnection_def split: bind_splits)
  note eff = close_effect [OF c(1)]
  have "svc_inv w1"
    using eff ev_close(3)
    by (auto simp: server_inv_def svc_inv_def split: option.splits dest!: set_delete_subset intro!: distinct_fst_delete)
  then have "svc_inv w'" by (simp add: c(2) svc_inv_def)
  moreover have "sessions w' \<subseteq> sessions (service s)"
    using eff by (auto simp: c(2) sessions_def split: option.splits dest!: set_delete_subset)
  moreover have "timed w' \<subseteq> timed (service s) - {c}"
    using eff ev_close(3) by (auto simp: c(2) timed_def server_inv_def svc_inv_def AList.delete_eq)
  ultimately show ?case using ev_close(3) by (auto simp: server_inv_def)
next
  case (ev_redis b s u m r w')
  have "quiet (service s) w'" using quiet_handlers(8) [OF ev_redis(2)] by (simp add: quiet_def)
  from quiet_server_inv [OF this ev_redis(3)] show ?case .
next
  case (ev_observer b s obs r)
  from quiet_server_inv [OF _ ev_observer(3)] show ?case by (simp add: quiet_def)
next
  case (ev_timer s)
  then show ?case by (simp add: server_inv_def svc_inv_def checkHeartbeat_def sessions_def timed_def)
next
  case (ev_clock dt s)
  then show ?case by (fastforce simp: server_inv_def svc_inv_def sessions_def timed_def)
next
  case (ev_database s d)
  from quiet_server_inv [OF _ this] show ?case by (simp add: quiet_def)
qed

lemma server_inv_run: "server_run E s t \<Longrightarrow> server_inv s \<Longrightarrow> server_inv t"
  by (induction rule: server_run.induct) (auto intro: server_inv_step)

subsection \<open>Requests that are always handled\<close>

text \<open>A request all of whose strings are short.\<close>

definition short_request :: "json \<Rightarrow> bool" where
  "short_request js \<longleftrightarrow> (\<forall>k s. string_field js k = Inr s \<longrightarrow> length s \<le> 200)"

context chat_libs begin

lemma reg_returns: "short_request js \<Longrightarrow> returns (reg E c js w)"
proof -
  assume short: "short_request js"
  have "returns (UserModel_insert (sql E) (new_user\<lparr>uname := n, upwd := p\<rparr>) d)"
    if "string_field js ''name'' = Inr n" "string_field js ''password'' = Inr p" for n p d
  proof (rule insert_returns)
    have "length n \<le> 200" "length p \<le> 200" using short that by (auto simp: short_request_def)
    then show "length (escape (sql E) (uname (new_user\<lparr>uname := n, upwd := p\<rparr>))) +
        length (escape (sql E) (upwd (new_user\<lparr>uname := n, upwd := p\<rparr>))) +
        length (escape (sql E) (ustate (new_user\<lparr>uname := n, upwd := p\<rparr>))) < 966"
      using db.escape_length [of n] db.escape_length [of p] db.escape_length [of "''offline''"] by (simp add: new_user_def)
  qed
  then show ?thesis by (auto simp: reg_def intro!: returns_bind on_db_returns split: sum.split)
qed

lemma updateName_handler_returns: "short_request js \<Longrightarrow> returns (updateName E c js w)"
proof -
  assume short: "short_request js"
  have "returns (UserModel_updateName (sql E) i n d)"
    if "int_field (jlib E) js ''id'' = Inr i" "string_field js ''name'' = Inr n" for i n d
  proof (rule updateName_returns)
    have "length n \<le> 200" using short that by (auto simp: short_request_def)
    then show "length (escape (sql E) n) < 976" using db.escape_length [of n] by simp
  qed (rule int_field_32 [OF that(1)])
  then show ?thesis by (auto simp: updateName_def intro!: returns_bind on_db_returns split: sum.split)
qed

lemma createGroup_handler_returns: "short_request js \<Longrightarrow> returns (createGroup E c js w)"
proof -
  assume short: "short_request js"
  have c: "returns (GroupModel_createGroup (sql E) (new_group\<lparr>gname := n, gdesc := d\<rparr>) x)"
    if "string_field js ''groupname'' = Inr n" "string_field js ''groupdesc'' = Inr d" for n d x
  proof (rule createGroup_returns)
    have "length n \<le> 200" "length d \<le> 200" using short that by (auto simp: short_request_def)
    then show "length (escape (sql E) (gname (new_group\<lparr>gname := n, gdesc := d\<rparr>))) +
        length (escape (sql E) (gdesc (new_group\<lparr>gname := n, gdesc := d\<rparr>))) < 967"
      using db.escape_length [of n] db.escape_length [of d] by simp
  qed
  have i: "is_int32 (gid g)" if "GroupModel_createGroup (sql E) (new_group\<lparr>gname := n, gdesc := d\<rparr>) x = Some ((True, g), z)"
    for n d x g z using db.group_insert [OF that] by auto
  show ?thesis
    apply (auto simp: createGroup_def split: sum.split
        intro!: returns_bind on_db_returns c db.addGroup_returns elim!: on_db_SomeE)
     apply (erule int_field_32)
    apply (erule i)
    done
qed

lemma handler_returns:
  assumes "short_request js"
  shows "returns (getHandler E k c js w)"
proof -
  have "returns (h c js w)" if "h \<in> {login E, loginout E, reg E, oneChat E, addFriend E,
      createGroup E, addGroup E, groupChat E, updateName E, heartbeat E, (\<lambda>c js w. Some (Inr w))}" for h
    using that assms
    by (elim insertE emptyE; hypsubst) (auto intro: login_returns loginout_returns reg_returns oneChat_returns
      addFriend_returns createGroup_handler_returns addGroup_handler_returns groupChat_returns
      updateName_handler_returns heartbeat_returns)
  with getHandler_cases show ?thesis by blast
qed

lemma body_returns:
  assumes "\<And>js. parse (jlib E) b = Some js \<Longrightarrow> short_request js"
  shows "returns (handle_body E c b w)"
  using assms
  by (auto simp: handle_body_def Let_def split: option.split sum.split intro!: returns_bind handler_returns)

end

subsection \<open>Properties\<close>

text \<open>
  (C1) In every run of a server process, whatever bytes arrive in whatever pieces, however
  connections come and go and other processes change the database: a user has at most one
  session, every session belongs to a connection that was opened, the connections watched by
  the heartbeat are live and each is recorded under its own name with a time not in the future.
\<close>
theorem server_sessions:
  assumes "server_run E s t" and "opened s = {}" and "live s = {}"
    and "userConnMap (service s) = []" and "connectionLastTime (service s) = []"
  shows "distinct (map fst (userConnMap (service t))) \<and> sessions (service t) \<subseteq> opened t \<and>
    timed (service t) \<subseteq> live t \<and> distinct (map fst (connectionLastTime (service t))) \<and>
    list_all (\<lambda>e. fst e = cname (snd (snd e)) \<and> fst (snd e) \<le> now (service t)) (connectionLastTime (service t))"
proof -
  have "server_inv s" using assms(2-5) by (simp add: server_inv_def svc_inv_def sessions_def timed_def)
  from server_inv_run [OF assms(1) this] show ?thesis by (simp add: server_inv_def svc_inv_def list_all_iff)
qed

definition demo_server :: "(ref_db, link) server" where
  "demo_server = \<lparr>service = demo\<lparr>userConnMap := [], connectionLastTime := []\<rparr>, inbuf = \<lambda>_. [], opened = {}, live = {}\<rparr>"

theorem server_sessions_witness:
  "\<exists>t. server_run (ref_chat []) demo_server t \<and> demo_conn 4 \<in> live t \<and> timed (service t) \<subseteq> live t"
proof -
  let ?t = "demo_server\<lparr>opened := insert (demo_conn 4) (opened demo_server), live := insert (demo_conn 4) (live demo_server),
    inbuf := (inbuf demo_server)(demo_conn 4 := [])\<rparr>"
  have "server_step (ref_chat []) demo_server ?t" by (rule ev_open) (simp add: demo_server_def)
  then have r: "server_run (ref_chat []) demo_server ?t" by (rule run_step [OF run_refl])
  from server_sessions [OF r] have "timed (service ?t) \<subseteq> live ?t" by (simp add: demo_server_def)
  with r show ?thesis by (intro exI [of _ ?t]) simp
qed

text \<open>
  A bad request harms nobody else: a well-framed body that does not parse, or whose handler
  throws, is skipped without any effect but the refreshed time of its connection, and the loop
  goes on with the frames behind it.
\<close>
theorem bad_request_skipped:
  assumes "body_ok b" and "handle_body E c b w = Some w1"
    and "parse (jlib E) b = None \<or> (\<exists>js. parse (jlib E) b = Some js \<and>
      ((\<exists>e. int_field (jlib E) js ''msgid'' = Inl e) \<or>
       (\<exists>k e. int_field (jlib E) js ''msgid'' = Inr k \<and> getHandler E k c js (updateConnTime c w) = Some (Inl e))))"
  shows "onMessage E c (packet b @ rest) w = onMessage E c rest (if parse (jlib E) b = None then w else updateConnTime c w)"
proof -
  have "w1 = (if parse (jlib E) b = None then w else updateConnTime c w)"
    using assms(2,3) by (auto simp: handle_body_def)
  with assms(1,2) show ?thesis by (simp add: onMessage_def onMessage_loop_scan [of _ "packet b @ rest"] scan_packet)
qed

theorem bad_request_skipped_witness:
  "onMessage (ref_chat []) (demo_conn 1) (packet ''nonsense'' @ packet ''more'') demo
    = onMessage (ref_chat []) (demo_conn 1) (packet ''more'') demo"
  using bad_request_skipped [of "''nonsense''" "ref_chat []" "demo_conn 1" demo demo "packet ''more''"]
  by (simp add: body_ok_def max_body_def handle_body_def ref_json_def)

text \<open>
  The server never hangs and never runs into undefined behaviour on requests whose strings
  have at most 200 bytes: over libraries that keep their contract, the receive loop returns for
  every buffer all of whose complete frames are such requests or do not parse.
\<close>
theorem short_requests_handled:
  assumes "chat_libs E T K obuf wire resp"
    and "\<forall>b \<in> set (fst (parse_stream buf)). \<forall>js. parse (jlib E) b = Some js \<longrightarrow> short_request js"
  shows "\<exists>w' r. onMessage E c buf w = Some (w', r)"
proof -
  have "returns (onMessage E c buf w)"
    unfolding onMessage_def using assms(2)
    by (intro onMessage_loop_returns chat_libs.body_returns [OF assms(1)]) auto
  then show ?thesis by (rule returns2E) blast
qed

theorem short_requests_handled_witness:
  "\<exists>w' r. onMessage (ref_chat []) (demo_conn 1) (packet ''nonsense'') demo = Some (w', r)"
  using short_requests_handled [OF chat.chat_libs_axioms [of "[]"], of "packet ''nonsense''" "demo_conn 1" demo]
  by (simp add: ref_json_def)

end
