(* ===== verification/Client.thy ===== *)
theory Client
  imports Wire Json ChatService
begin

section \<open>The Qt client's connection\<close>

text \<open>
  \<open>ChatClient\<close> (\<open>chatclient.cpp\<close>, \<open>chatclient.h\<close>): the requests it builds, the receive loop, the
  dispatch of answers to signals, the four timers and the reconnection. Qt is a parameter: the
  socket \<open>S\<close> with the signals its calls emit at once, and the JSON classes \<open>Q\<close>. A \<open>QString\<close> is its
  UTF-8 text. A timer is the time of its last \<open>start\<close>, if it was not stopped since. The
  signals for the user interface are recorded in order; no slot of the interface that calls
  back into the client is connected to a signal that the client emits before its own work is done.
\<close>

subsection \<open>The parameters\<close>

datatype sock_state = UnconnectedState | ConnectedState | OtherState

datatype sock_signal = Sig_disconnected | Sig_error string

record 'q qsocket =
  sk_state :: "'q \<Rightarrow> sock_state"
  sk_abort :: "'q \<Rightarrow> sock_signal list \<times> 'q"
  sk_connect :: "string \<Rightarrow> int \<Rightarrow> 'q \<Rightarrow> sock_signal list \<times> 'q"
  sk_write :: "string \<Rightarrow> 'q \<Rightarrow> sock_signal list \<times> 'q"
  sk_disconnect :: "'q \<Rightarrow> sock_signal list \<times> 'q"

record qjson =
  toJson :: "json \<Rightarrow> string"
  fromJson :: "string \<Rightarrow> json option"
  toInt :: "json \<Rightarrow> int"
  toStr :: "json \<Rightarrow> string"
  toArray :: "json \<Rightarrow> json list"

text \<open>
  \<open>obj[k]\<close> on the object of a document: an absent key is \<open>Undefined\<close>, which like null has no
  value of any type, and a document that is not an object has no keys.
\<close>

definition field :: "json \<Rightarrow> string \<Rightarrow> json" where
  "field obj k = (case obj of JObj kvs \<Rightarrow> (case map_of kvs k of Some v \<Rightarrow> v | None \<Rightarrow> JNull) | _ \<Rightarrow> JNull)"

abbreviation "int_of Q obj k \<equiv> toInt Q (field obj k)"
abbreviation "str_of Q obj k \<equiv> toStr Q (field obj k)"

subsection \<open>State\<close>

datatype csignal =
    connected
  | connectionError string
  | loginSuccess int string "json list" "json list" "json list"
  | loginFailed string
  | regSuccess int
  | regFailed string
  | receivedChatMsg int string string string
  | receivedGroupMsg int int string string string
  | friendStateChanged int string
  | disconnected
  | friendAdded int string string
  | groupCreated int string
  | groupJoined int string
  | nameUpdated int string
  | nameUpdateFailed string

record 'q client =
  m_socket :: 'q
  m_reconnectTimer :: "int option"
  m_loginTimeoutTimer :: "int option"
  m_heartbeatTimer :: "int option"
  m_heartbeatTimeout :: "int option"
  m_host :: string
  m_port :: int
  m_serverIp :: string
  m_serverPort :: int
  m_intentionalDisconnect :: bool
  m_wantRelogin :: bool
  m_recvBuf :: string
  m_lastDataTime :: int
  m_myId :: int
  m_myName :: string
  m_password :: string
  clock_ms :: int
  emitted :: "csignal list"

definition reconnect_interval :: int where "reconnect_interval = 2000"
definition login_interval :: int where "login_interval = 5000"
definition heartbeat_interval :: int where "heartbeat_interval = 15000"
definition timeout_interval :: int where "timeout_interval = 35000"

text \<open>\<open>time(NULL)\<close>, and the constructor with the settings' values (or their defaults).\<close>

definition time_s :: "'q client \<Rightarrow> int" where
  "time_s c = clock_ms c div 1000"

definition new_client :: "'q \<Rightarrow> int \<Rightarrow> string option \<Rightarrow> int option \<Rightarrow> 'q client" where
  "new_client q ms ip port =
     \<lparr>m_socket = q, m_reconnectTimer = None, m_loginTimeoutTimer = None, m_heartbeatTimer = None,
      m_heartbeatTimeout = None, m_host = [], m_port = 0,
      m_serverIp = (case ip of Some s \<Rightarrow> s | None \<Rightarrow> ''192.168.31.111''),
      m_serverPort = (case port of Some p \<Rightarrow> p | None \<Rightarrow> 6000),
      m_intentionalDisconnect = False, m_wantRelogin = False, m_recvBuf = [], m_lastDataTime = ms div 1000,
      m_myId = -1, m_myName = [], m_password = [], clock_ms = ms, emitted = []\<rparr>"

definition emit :: "csignal \<Rightarrow> 'q client \<Rightarrow> 'q client" where
  "emit s c = c\<lparr>emitted := emitted c @ [s]\<rparr>"

subsection \<open>Signals of the socket\<close>

definition onDisconnected :: "'q client \<Rightarrow> 'q client" where
  "onDisconnected c =
     (let c1 = emit disconnected (c\<lparr>m_heartbeatTimer := None, m_heartbeatTimeout := None, m_recvBuf := []\<rparr>) in
      if \<not> m_intentionalDisconnect c1 \<and> m_reconnectTimer c1 = None
      then c1\<lparr>m_reconnectTimer := Some (clock_ms c1)\<rparr> else c1)"

definition onError :: "string \<Rightarrow> 'q client \<Rightarrow> 'q client" where
  "onError err c =
     (if m_intentionalDisconnect c then c
      else (let c1 = emit (connectionError err) c in
            if m_reconnectTimer c1 = None then c1\<lparr>m_reconnectTimer := Some (clock_ms c1)\<rparr> else c1))"

definition on_signal :: "'q client \<Rightarrow> sock_signal \<Rightarrow> 'q client" where
  "on_signal c s = (case s of Sig_disconnected \<Rightarrow> onDisconnected c | Sig_error e \<Rightarrow> onError e c)"

text \<open>A call on the socket; the slots of the signals it emits run before it returns.\<close>

definition sock :: "('q \<Rightarrow> sock_signal list \<times> 'q) \<Rightarrow> 'q client \<Rightarrow> 'q client" where
  "sock f c = (let (ss, q) = f (m_socket c) in foldl on_signal (c\<lparr>m_socket := q\<rparr>) ss)"

subsection \<open>Requests\<close>

definition setServer :: "string \<Rightarrow> int \<Rightarrow> 'q client \<Rightarrow> 'q client" where
  "setServer ip port c = c\<lparr>m_serverIp := ip, m_serverPort := port\<rparr>"

definition connectToServer :: "'q qsocket \<Rightarrow> string \<Rightarrow> int \<Rightarrow> 'q client \<Rightarrow> 'q client" where
  "connectToServer S host port c =
     (let c1 = c\<lparr>m_intentionalDisconnect := False, m_host := host, m_port := port\<rparr>;
          c2 = sock (sk_abort S) c1
      in sock (sk_connect S host port) c2)"

definition isConnected :: "'q qsocket \<Rightarrow> 'q client \<Rightarrow> bool" where
  "isConnected S c \<longleftrightarrow> sk_state S (m_socket c) = ConnectedState"

definition client_sendJson :: "'q qsocket \<Rightarrow> qjson \<Rightarrow> json \<Rightarrow> 'q client \<Rightarrow> 'q client" where
  "client_sendJson S Q obj c =
     sock (sk_write S (packet (toJson Q obj))) (c\<lparr>m_lastDataTime := time_s c\<rparr>)"

definition login_json :: "int \<Rightarrow> string \<Rightarrow> json" where
  "login_json i pwd = jobj [(''msgid'', JInt (code LOGIN_MSG)), (''id'', JInt i), (''password'', JStr pwd)]"

definition client_login :: "'q qsocket \<Rightarrow> qjson \<Rightarrow> int \<Rightarrow> string \<Rightarrow> 'q client \<Rightarrow> 'q client" where
  "client_login S Q i pwd c =
     (let c1 = c\<lparr>m_intentionalDisconnect := False, m_myId := i, m_password := pwd, m_wantRelogin := True\<rparr>;
          c2 = client_sendJson S Q (login_json i pwd) c1
      in c2\<lparr>m_loginTimeoutTimer := Some (clock_ms c2)\<rparr>)"

definition client_reg :: "'q qsocket \<Rightarrow> qjson \<Rightarrow> string \<Rightarrow> string \<Rightarrow> 'q client \<Rightarrow> 'q client" where
  "client_reg S Q name pwd c =
     client_sendJson S Q (jobj [(''msgid'', JInt (code REG_MSG)), (''name'', JStr name), (''password'', JStr pwd)]) c"

definition chat_json :: "int \<Rightarrow> string \<Rightarrow> int \<Rightarrow> string \<Rightarrow> string \<Rightarrow> json" where
  "chat_json i name toid msg stamp = jobj [(''msgid'', JInt (code ONE_CHAT_MSG)), (''id'', JInt i), (''name'', JStr name),
     (''toid'', JInt toid), (''msg'', JStr msg), (''time'', JStr stamp)]"

definition client_oneChat :: "'q qsocket \<Rightarrow> qjson \<Rightarrow> string \<Rightarrow> int \<Rightarrow> string \<Rightarrow> 'q client \<Rightarrow> 'q client" where
  "client_oneChat S Q stamp toid msg c = client_sendJson S Q (chat_json (m_myId c) (m_myName c) toid msg stamp) c"

definition client_addFriend :: "'q qsocket \<Rightarrow> qjson \<Rightarrow> int \<Rightarrow> 'q client \<Rightarrow> 'q client" where
  "client_addFriend S Q friendid c =
     client_sendJson S Q (jobj [(''msgid'', JInt (code ADD_FRIEND_MSG)), (''id'', JInt (m_myId c)), (''friendid'', JInt friendid)]) c"

definition client_createGroup :: "'q qsocket \<Rightarrow> qjson \<Rightarrow> string \<Rightarrow> string \<Rightarrow> 'q client \<Rightarrow> 'q client" where
  "client_createGroup S Q name desc c =
     client_sendJson S Q (jobj [(''msgid'', JInt (code CREATE_GROUP_MSG)), (''id'', JInt (m_myId c)), (''groupname'', JStr name),
       (''groupdesc'', JStr desc)]) c"

definition client_addGroup :: "'q qsocket \<Rightarrow> qjson \<Rightarrow> int \<Rightarrow> 'q client \<Rightarrow> 'q client" where
  "client_addGroup S Q groupid c =
     client_sendJson S Q (jobj [(''msgid'', JInt (code ADD_GROUP_MSG)), (''id'', JInt (m_myId c)), (''groupid'', JInt groupid)]) c"

definition group_chat_json :: "int \<Rightarrow> string \<Rightarrow> int \<Rightarrow> string \<Rightarrow> string \<Rightarrow> json" where
  "group_chat_json i name groupid msg stamp = jobj [(''msgid'', JInt (code GROUP_CHAT_MSG)), (''id'', JInt i), (''name'', JStr name),
     (''groupid'', JInt groupid), (''msg'', JStr msg), (''time'', JStr stamp)]"

definition client_groupChat :: "'q qsocket \<Rightarrow> qjson \<Rightarrow> string \<Rightarrow> int \<Rightarrow> string \<Rightarrow> 'q client \<Rightarrow> 'q client" where
  "client_groupChat S Q stamp groupid msg c = client_sendJson S Q (group_chat_json (m_myId c) (m_myName c) groupid msg stamp) c"

definition client_updateName :: "'q qsocket \<Rightarrow> qjson \<Rightarrow> int \<Rightarrow> string \<Rightarrow> 'q client \<Rightarrow> 'q client" where
  "client_updateName S Q i newName c =
     client_sendJson S Q (jobj [(''msgid'', JInt (code UPDATE_NAME_MSG)), (''id'', JInt i), (''name'', JStr newName)]) c"

definition client_loginout :: "'q qsocket \<Rightarrow> qjson \<Rightarrow> 'q client \<Rightarrow> 'q client" where
  "client_loginout S Q c =
     (if m_intentionalDisconnect c then c
      else (let c1 = c\<lparr>m_intentionalDisconnect := True, m_wantRelogin := False, m_reconnectTimer := None,
                      m_loginTimeoutTimer := None, m_heartbeatTimer := None, m_heartbeatTimeout := None\<rparr>;
                c2 = client_sendJson S Q (jobj [(''msgid'', JInt (code LOGINOUT_MSG)), (''id'', JInt (m_myId c1))]) c1
            in sock (sk_disconnect S) (c2\<lparr>m_recvBuf := []\<rparr>)))"

definition resetLoginState :: "'q client \<Rightarrow> 'q client" where
  "resetLoginState c = c\<lparr>m_myId := -1, m_password := [], m_wantRelogin := False\<rparr>"

definition relogin :: "'q qsocket \<Rightarrow> 'q client \<Rightarrow> 'q client" where
  "relogin S c =
     (if m_myId c > 0 \<and> m_password c \<noteq> [] then
        (let c1 = sock (sk_abort S) (c\<lparr>m_intentionalDisconnect := False, m_wantRelogin := True\<rparr>)
         in connectToServer S (m_host c1) (m_port c1) c1)
      else c)"

subsection \<open>Connection and timers\<close>

definition onConnected :: "'q qsocket \<Rightarrow> qjson \<Rightarrow> 'q client \<Rightarrow> 'q client" where
  "onConnected S Q c =
     (let c1 = c\<lparr>m_reconnectTimer := None, m_intentionalDisconnect := False\<rparr> in
      if m_wantRelogin c1 then client_login S Q (m_myId c1) (m_password c1) c1 else emit connected c1)"

definition sendHeartbeat :: "'q qsocket \<Rightarrow> qjson \<Rightarrow> 'q client \<Rightarrow> 'q client" where
  "sendHeartbeat S Q c =
     (if \<not> isConnected S c then c
      else if time_s c - m_lastDataTime c < 15 then c
      else (let c1 = sock (sk_write S (packet (toJson Q (jobj [(''msgid'', JInt (code HEARTBEAT_MSG))])))) c
            in c1\<lparr>m_heartbeatTimeout := Some (clock_ms c1)\<rparr>))"

definition onHeartbeatTimeout :: "'q qsocket \<Rightarrow> 'q client \<Rightarrow> 'q client" where
  "onHeartbeatTimeout S c =
     (let c1 = (sock (sk_abort S) c)\<lparr>m_recvBuf := []\<rparr> in
      if \<not> m_intentionalDisconnect c1
      then emit (connectionError ''Server heartbeat timeout, reconnecting...'') (c1\<lparr>m_reconnectTimer := Some (clock_ms c1)\<rparr>)
      else c1)"

definition onReconnectTimeout :: "'q qsocket \<Rightarrow> 'q client \<Rightarrow> 'q client" where
  "onReconnectTimeout S c =
     (if sk_state S (m_socket c) \<noteq> UnconnectedState then c
      else sock (sk_connect S (m_host c) (m_port c)) (sock (sk_abort S) c))"

definition onLoginTimeout :: "'q qsocket \<Rightarrow> 'q client \<Rightarrow> 'q client" where
  "onLoginTimeout S c =
     emit (connectionError ''Server not responding, will retry...'')
       ((sock (sk_abort S) (c\<lparr>m_loginTimeoutTimer := None\<rparr>))\<lparr>m_recvBuf := []\<rparr>)"

subsection \<open>Answers\<close>

definition on_login_ack :: "qjson \<Rightarrow> json \<Rightarrow> 'q client \<Rightarrow> 'q client" where
  "on_login_ack Q js c =
     (let c1 = c\<lparr>m_loginTimeoutTimer := None\<rparr> in
      if \<not> contains js ''errno'' then c1
      else if int_of Q js ''errno'' = 0 then
        (if \<not> contains js ''id'' \<or> \<not> contains js ''name'' then c1
         else (let c2 = c1\<lparr>m_myId := int_of Q js ''id'', m_myName := str_of Q js ''name''\<rparr>;
                   offlines = (if contains js ''offlinemsg'' then toArray Q (field js ''offlinemsg'') else []);
                   c3 = emit (loginSuccess (m_myId c2) (m_myName c2) (toArray Q (field js ''friends''))
                          (toArray Q (field js ''groups'')) offlines) c2
               in c3\<lparr>m_heartbeatTimer := Some (clock_ms c3)\<rparr>))
      else emit (loginFailed (str_of Q js ''errmsg'')) (resetLoginState (c1\<lparr>m_reconnectTimer := None\<rparr>)))"

definition handleMessage :: "qjson \<Rightarrow> json \<Rightarrow> 'q client \<Rightarrow> 'q client" where
  "handleMessage Q js c =
     (let msgid = int_of Q js ''msgid'' in
      if msgid = code LOGIN_MSG_ACK then on_login_ack Q js c
      else if msgid = code REG_MSG_ACK then
        (if int_of Q js ''errno'' = 0 then emit (regSuccess (int_of Q js ''id'')) c
         else emit (regFailed ''register failed'') c)
      else if msgid = code ONE_CHAT_MSG then
        emit (receivedChatMsg (int_of Q js ''id'') (str_of Q js ''name'') (str_of Q js ''msg'') (str_of Q js ''time'')) c
      else if msgid = code GROUP_CHAT_MSG then
        emit (receivedGroupMsg (int_of Q js ''groupid'') (int_of Q js ''id'') (str_of Q js ''name'') (str_of Q js ''msg'')
          (str_of Q js ''time'')) c
      else if msgid = code FRIEND_STATE_CHANGE_MSG then
        emit (friendStateChanged (int_of Q js ''friendid'') (str_of Q js ''state'')) c
      else if msgid = code ADD_FRIEND_MSG then
        emit (friendAdded (int_of Q js ''id'') (str_of Q js ''name'') (str_of Q js ''state'')) c
      else if msgid = code CREATE_GROUP_MSG then
        emit (groupCreated (int_of Q js ''groupid'') (str_of Q js ''groupname'')) c
      else if msgid = code ADD_GROUP_MSG then
        emit (groupJoined (int_of Q js ''groupid'') (str_of Q js ''groupname'')) c
      else if msgid = code UPDATE_NAME_MSG then
        (if contains js ''errno'' then emit (nameUpdateFailed (str_of Q js ''errmsg'')) c
         else emit (nameUpdated (int_of Q js ''id'') (str_of Q js ''name'')) c)
      else if msgid = code HEARTBEAT_MSG then c\<lparr>m_heartbeatTimeout := None\<rparr>
      else c)"

text \<open>A body that does not parse is skipped; a bad length drops the buffer and the connection.\<close>

definition client_body :: "qjson \<Rightarrow> string \<Rightarrow> 'q client \<Rightarrow> 'q client" where
  "client_body Q b c = (case fromJson Q b of None \<Rightarrow> c | Some js \<Rightarrow> handleMessage Q js c)"

definition onReadyRead :: "'q qsocket \<Rightarrow> qjson \<Rightarrow> string \<Rightarrow> 'q client \<Rightarrow> 'q client" where
  "onReadyRead S Q d c =
     (case readyRead_loop (client_body Q) (m_recvBuf c @ d) (c\<lparr>m_lastDataTime := time_s c\<rparr>) of
        (c1, rest, bad) \<Rightarrow>
          (let c2 = c1\<lparr>m_recvBuf := rest\<rparr> in if bad then sock (sk_abort S) c2 else c2))"

end
