(* ===== verification/ClientProps.thy ===== *)
theory ClientProps
  imports Client Server
begin

section \<open>Runs of the client, and a message from one client to the other\<close>

text \<open>
  The events of the Qt client in any order: what the user asks for, what the network does and
  the four timers. The properties are about the session of the client (a logout is final, a
  lost connection comes back with the same credentials, the supervision by heartbeats) and
  about a chat message on its whole way from the sender's window to the receiver's.
\<close>

subsection \<open>What the client relies on\<close>

text \<open>The documented defaults of Qt's JSON values.\<close>

locale qt_json =
  fixes Q :: qjson
  assumes toInt_int: "is_int32 n \<Longrightarrow> toInt Q (JInt n) = n"
    and toInt_default: "v = JNull \<or> (\<exists>s. v = JStr s) \<Longrightarrow> toInt Q v = 0"
    and toStr_str: "toStr Q (JStr s) = s"
    and toStr_default: "v = JNull \<or> (\<exists>n. v = JInt n) \<Longrightarrow> toStr Q v = []"
    and toArray_arr: "toArray Q (JArr vs) = vs"
    and toArray_default: "toArray Q JNull = []"
begin

lemmas value_simps = toInt_int toStr_str toArray_arr

lemma field_jobj: "kvs \<noteq> [] \<Longrightarrow> field (jobj kvs) k = (case map_of (rev kvs) k of Some v \<Rightarrow> v | None \<Rightarrow> JNull)"
  using jobj_obj [of kvs] by (auto simp: field_def)

lemma chat_received:
  assumes "is_int32 i"
  shows "handleMessage Q (chat_json i name toid msg stamp) c = emit (receivedChatMsg i name msg stamp) c"
  using assms by (simp add: handleMessage_def chat_json_def field_jobj value_simps is_int32_def)

lemma group_chat_received:
  assumes "is_int32 i" and "is_int32 g"
  shows "handleMessage Q (group_chat_json i name g msg stamp) c = emit (receivedGroupMsg g i name msg stamp) c"
  using assms by (simp add: handleMessage_def group_chat_json_def field_jobj value_simps is_int32_def)

end

text \<open>Both JSON libraries read an object back from the other's text.\<close>

definition json_agree :: "json_lib \<Rightarrow> qjson \<Rightarrow> json \<Rightarrow> bool" where
  "json_agree J Q obj \<longleftrightarrow> parse J (toJson Q obj) = Some obj \<and> fromJson Q (dump J obj) = Some obj"

subsection \<open>Steps\<close>

text \<open>
  A coarse timer of Qt fires within five percent of its interval; the event loop does not let
  a deadline pass. A single-shot timer is off when its slot runs, a repeating one started anew.
\<close>

definition due :: "int option \<Rightarrow> int \<Rightarrow> int \<Rightarrow> bool" where
  "due t interval ms = (case t of None \<Rightarrow> False | Some s \<Rightarrow> 95 * interval \<le> 100 * (ms - s))"

definition in_time :: "int option \<Rightarrow> int \<Rightarrow> int \<Rightarrow> bool" where
  "in_time t interval ms = (case t of None \<Rightarrow> True | Some s \<Rightarrow> 100 * (ms - s) \<le> 105 * interval)"

definition no_deadline_missed :: "'q client \<Rightarrow> bool" where
  "no_deadline_missed c \<longleftrightarrow> in_time (m_reconnectTimer c) reconnect_interval (clock_ms c) \<and>
     in_time (m_loginTimeoutTimer c) login_interval (clock_ms c) \<and>
     in_time (m_heartbeatTimer c) heartbeat_interval (clock_ms c) \<and>
     in_time (m_heartbeatTimeout c) timeout_interval (clock_ms c)"

datatype cevent =
    U_login int string | U_request json | U_logout | U_connect string int | U_relogin
  | N_connected | N_data string | N_disconnected | N_error string
  | T_tick int | T_reconnect | T_login | T_heartbeat | T_heartbeat_timeout

inductive client_step :: "'q qsocket \<Rightarrow> qjson \<Rightarrow> 'q client \<Rightarrow> cevent \<Rightarrow> 'q client \<Rightarrow> bool" for S Q where
  u_login: "client_step S Q c (U_login i pwd) (client_login S Q i pwd c)"
| u_request: "client_step S Q c (U_request obj) (client_sendJson S Q obj c)"
| u_logout: "client_step S Q c U_logout (client_loginout S Q c)"
| u_connect: "client_step S Q c (U_connect h p) (connectToServer S h p c)"
| u_relogin: "client_step S Q c U_relogin (relogin S c)"
| n_connected: "sk_state S q = ConnectedState \<Longrightarrow> client_step S Q c N_connected (onConnected S Q (c\<lparr>m_socket := q\<rparr>))"
| n_data: "client_step S Q c (N_data d) (onReadyRead S Q d (c\<lparr>m_socket := q\<rparr>))"
| n_disconnected: "sk_state S q = UnconnectedState \<Longrightarrow> client_step S Q c N_disconnected (onDisconnected (c\<lparr>m_socket := q\<rparr>))"
| n_error: "client_step S Q c (N_error e) (onError e (c\<lparr>m_socket := q\<rparr>))"
| t_tick: "0 \<le> dt \<Longrightarrow> no_deadline_missed (c\<lparr>clock_ms := clock_ms c + dt\<rparr>) \<Longrightarrow>
    client_step S Q c (T_tick dt) (c\<lparr>clock_ms := clock_ms c + dt\<rparr>)"
| t_reconnect: "due (m_reconnectTimer c) reconnect_interval (clock_ms c) \<Longrightarrow>
    client_step S Q c T_reconnect (onReconnectTimeout S (c\<lparr>m_reconnectTimer := Some (clock_ms c)\<rparr>))"
| t_login: "due (m_loginTimeoutTimer c) login_interval (clock_ms c) \<Longrightarrow>
    client_step S Q c T_login (onLoginTimeout S (c\<lparr>m_loginTimeoutTimer := None\<rparr>))"
| t_heartbeat: "due (m_heartbeatTimer c) heartbeat_interval (clock_ms c) \<Longrightarrow>
    client_step S Q c T_heartbeat (sendHeartbeat S Q (c\<lparr>m_heartbeatTimer := Some (clock_ms c)\<rparr>))"
| t_heartbeat_timeout: "due (m_heartbeatTimeout c) timeout_interval (clock_ms c) \<Longrightarrow>
    client_step S Q c T_heartbeat_timeout (onHeartbeatTimeout S (c\<lparr>m_heartbeatTimeout := None\<rparr>))"

inductive client_run :: "'q qsocket \<Rightarrow> qjson \<Rightarrow> 'q client \<Rightarrow> cevent list \<Rightarrow> 'q client \<Rightarrow> bool" for S Q where
  crun_nil: "client_run S Q c [] c"
| crun_cons: "client_step S Q c e d \<Longrightarrow> client_run S Q d es f \<Longrightarrow> client_run S Q c (e # es) f"

inductive_cases client_stepE: "client_step S Q c e d"
inductive_simps client_run_Nil [simp]: "client_run S Q c [] d"
inductive_simps client_run_Cons: "client_run S Q c (e # es) d"

text \<open>A property kept by every step of an allowed kind is kept by runs.\<close>

lemma client_run_inv:
  assumes "client_run S Q c es d" and "I c"
    and "\<And>c e d. client_step S Q c e d \<Longrightarrow> ok e \<Longrightarrow> I c \<Longrightarrow> I d" and "\<forall>e \<in> set es. ok e"
  shows "I d"
  using assms by (induction rule: client_run.induct) auto

subsection \<open>What the calls change\<close>

text \<open>The signals of the socket touch the timers and the buffer, never the credentials.\<close>

definition same_session :: "'q client \<Rightarrow> 'q client \<Rightarrow> bool" where
  "same_session c d \<longleftrightarrow> m_intentionalDisconnect d = m_intentionalDisconnect c \<and> m_wantRelogin d = m_wantRelogin c \<and>
     m_myId d = m_myId c \<and> m_password d = m_password c \<and> m_host d = m_host c \<and> m_port d = m_port c \<and>
     m_loginTimeoutTimer d = m_loginTimeoutTimer c \<and>
     clock_ms d = clock_ms c \<and>
     (m_intentionalDisconnect c \<longrightarrow> m_reconnectTimer d = m_reconnectTimer c) \<and>
     (m_reconnectTimer c \<noteq> None \<longrightarrow> m_reconnectTimer d = m_reconnectTimer c)"

lemma same_refl [simp]: "same_session c c"
  by (simp add: same_session_def)

lemma same_trans: "same_session c d \<Longrightarrow> same_session d e \<Longrightarrow> same_session c e"
  by (auto simp: same_session_def)

lemma on_signal_same: "same_session c (on_signal c s)"
  by (cases s) (auto simp: same_session_def on_signal_def onDisconnected_def onError_def emit_def Let_def)

lemma signals_same: "same_session c (foldl on_signal c ss)"
  by (induction ss rule: rev_induct) (auto intro: same_trans on_signal_same)

lemma sock_same: "same_session c (sock f c)"
proof -
  obtain ss q where f: "f (m_socket c) = (ss, q)" by fastforce
  have "same_session c (c\<lparr>m_socket := q\<rparr>)" by (simp add: same_session_def)
  from same_trans [OF this signals_same] show ?thesis by (simp add: sock_def f)
qed

lemma sock_simps [simp]:
  "m_intentionalDisconnect (sock f c) = m_intentionalDisconnect c" "m_wantRelogin (sock f c) = m_wantRelogin c"
  "m_myId (sock f c) = m_myId c" "m_password (sock f c) = m_password c" "m_host (sock f c) = m_host c" "m_port (sock f c) = m_port c"
  "m_loginTimeoutTimer (sock f c) = m_loginTimeoutTimer c" "clock_ms (sock f c) = clock_ms c"
  using sock_same [of c f] by (simp_all add: same_session_def)

lemma sock_reconnect:
  "m_intentionalDisconnect c \<Longrightarrow> m_reconnectTimer (sock f c) = m_reconnectTimer c"
  "m_reconnectTimer c \<noteq> None \<Longrightarrow> m_reconnectTimer (sock f c) = m_reconnectTimer c"
  using sock_same [of c f] by (simp_all add: same_session_def)

lemma emit_simps [simp]:
  "m_intentionalDisconnect (emit s c) = m_intentionalDisconnect c" "m_wantRelogin (emit s c) = m_wantRelogin c"
  "m_myId (emit s c) = m_myId c" "m_password (emit s c) = m_password c" "m_host (emit s c) = m_host c"
  "m_port (emit s c) = m_port c" "m_reconnectTimer (emit s c) = m_reconnectTimer c"
  "m_loginTimeoutTimer (emit s c) = m_loginTimeoutTimer c" "clock_ms (emit s c) = clock_ms c"
  "m_socket (emit s c) = m_socket c" "m_recvBuf (emit s c) = m_recvBuf c" "emitted (emit s c) = emitted c @ [s]"
  by (simp_all add: emit_def)

lemma readyRead_loop_inv:
  "(\<forall>b w. P w \<longrightarrow> P (h b w)) \<Longrightarrow> P w \<Longrightarrow> P (fst (readyRead_loop h buf w))"
proof (induction h buf w rule: readyRead_loop.induct)
  case (1 h buf w)
  have step: "P (h b w)" for b using "1.prems" by simp
  show ?case by (subst readyRead_loop.simps) (use 1 step in \<open>simp add: Let_def\<close>)
qed

lemma onReadyRead_packet:
  fixes c :: "'q client"
  assumes "body_ok bdy" and "m_recvBuf c = []"
  shows "onReadyRead S Q (packet bdy) c = (client_body Q bdy (c\<lparr>m_lastDataTime := time_s c\<rparr>))\<lparr>m_recvBuf := []\<rparr>"
proof -
  have "readyRead_loop h (packet bdy) w = (h bdy w, [], False)" for h :: "string \<Rightarrow> 'q client \<Rightarrow> 'q client" and w
    using scan_packet [OF assms(1), of "[]"]
    by (simp add: readyRead_loop_scan [of _ "packet bdy"] readyRead_loop_scan [of _ "[]"])
  with assms(2) show ?thesis by (simp add: onReadyRead_def Let_def)
qed

lemma onMessage_packet:
  "body_ok bdy \<Longrightarrow> handle_body E c bdy w = Some w' \<Longrightarrow> onMessage E c (packet bdy) w = Some (w', [])"
  using scan_packet [of bdy "[]"]
  by (simp add: onMessage_def onMessage_loop_scan [of _ "packet bdy"] onMessage_loop_scan [of _ "[]"])

subsection \<open>A logout is final\<close>

text \<open>After an intended disconnection nothing is armed that would connect again.\<close>

definition quiet_logout :: "'q client \<Rightarrow> bool" where
  "quiet_logout c \<longleftrightarrow> (m_intentionalDisconnect c \<longrightarrow> m_reconnectTimer c = None \<and> m_loginTimeoutTimer c = None)"

lemma quiet_logout_sock: "quiet_logout c \<Longrightarrow> quiet_logout (sock f c)"
  by (auto simp: quiet_logout_def sock_reconnect)

lemma quiet_logout_update [simp]:
  "quiet_logout (c\<lparr>m_socket := q\<rparr>) = quiet_logout c" "quiet_logout (c\<lparr>m_recvBuf := b\<rparr>) = quiet_logout c"
  "quiet_logout (c\<lparr>m_lastDataTime := t\<rparr>) = quiet_logout c" "quiet_logout (c\<lparr>m_heartbeatTimer := h\<rparr>) = quiet_logout c"
  "quiet_logout (c\<lparr>m_heartbeatTimeout := h\<rparr>) = quiet_logout c" "quiet_logout (c\<lparr>clock_ms := t\<rparr>) = quiet_logout c"
  "quiet_logout (emit s c) = quiet_logout c"
  by (simp_all add: quiet_logout_def)

lemma handleMessage_logout:
  "m_intentionalDisconnect (handleMessage Q js c) = m_intentionalDisconnect c"
  "quiet_logout c \<Longrightarrow> quiet_logout (handleMessage Q js c)"
  by (auto simp: handleMessage_def on_login_ack_def resetLoginState_def Let_def quiet_logout_def)

lemma body_logout:
  "m_intentionalDisconnect (client_body Q b c) = m_intentionalDisconnect c"
  "quiet_logout c \<Longrightarrow> quiet_logout (client_body Q b c)"
  by (auto simp: client_body_def handleMessage_logout split: option.split)

lemma readyRead_logout:
  assumes "quiet_logout c"
  shows "quiet_logout (onReadyRead S Q d c)" "m_intentionalDisconnect (onReadyRead S Q d c) = m_intentionalDisconnect c"
proof -
  obtain c1 rest bad where l: "readyRead_loop (client_body Q) (m_recvBuf c @ d) (c\<lparr>m_lastDataTime := time_s c\<rparr>) = (c1, rest, bad)"
    using prod_cases3 by blast
  have "quiet_logout (fst (readyRead_loop (client_body Q) (m_recvBuf c @ d) (c\<lparr>m_lastDataTime := time_s c\<rparr>))) \<and>
      m_intentionalDisconnect (fst (readyRead_loop (client_body Q) (m_recvBuf c @ d) (c\<lparr>m_lastDataTime := time_s c\<rparr>))) =
        m_intentionalDisconnect c"
    by (rule readyRead_loop_inv [where P = "\<lambda>x. quiet_logout x \<and> m_intentionalDisconnect x = m_intentionalDisconnect c"])
      (simp_all add: body_logout assms)
  then have "quiet_logout c1 \<and> m_intentionalDisconnect c1 = m_intentionalDisconnect c"
    by (simp add: l)
  then show "quiet_logout (onReadyRead S Q d c)" "m_intentionalDisconnect (onReadyRead S Q d c) = m_intentionalDisconnect c"
    by (simp_all add: onReadyRead_def l Let_def quiet_logout_sock)
qed

lemma sendJson_logout [simp]:
  "m_intentionalDisconnect (client_sendJson S Q obj c) = m_intentionalDisconnect c"
  "m_wantRelogin (client_sendJson S Q obj c) = m_wantRelogin c"
  "m_loginTimeoutTimer (client_sendJson S Q obj c) = m_loginTimeoutTimer c"
  "m_intentionalDisconnect c \<Longrightarrow> m_reconnectTimer (client_sendJson S Q obj c) = m_reconnectTimer c"
  by (simp_all add: client_sendJson_def sock_reconnect)

lemma quiet_logout_open:
  "\<not> m_intentionalDisconnect c \<Longrightarrow> quiet_logout c"
  by (simp add: quiet_logout_def)

lemma quiet_logout_step: "client_step S Q c e d \<Longrightarrow> quiet_logout c \<Longrightarrow> quiet_logout d"
proof (induction rule: client_step.induct)
  case (u_request c obj)
  then show ?case by (simp add: client_sendJson_def quiet_logout_sock)
next
  case (u_logout c)
  then show ?case by (simp add: client_loginout_def Let_def quiet_logout_def sock_reconnect)
next
  case (u_relogin c)
  then show ?case by (simp add: relogin_def connectToServer_def Let_def quiet_logout_def)
next
  case (n_disconnected q c)
  then show ?case by (auto simp: onDisconnected_def Let_def quiet_logout_def)
next
  case (n_error c e q)
  then show ?case by (auto simp: onError_def Let_def quiet_logout_def)
next
  case (t_reconnect c)
  then show ?case by (auto simp: onReconnectTimeout_def due_def quiet_logout_def sock_reconnect split: option.splits)
next
  case (t_login c)
  then show ?case by (simp add: onLoginTimeout_def quiet_logout_sock) (auto simp: quiet_logout_def due_def)
next
  case (t_heartbeat c)
  then show ?case by (simp add: sendHeartbeat_def Let_def quiet_logout_sock)
next
  case (t_heartbeat_timeout c)
  then show ?case by (auto simp: onHeartbeatTimeout_def Let_def quiet_logout_sock) (simp add: quiet_logout_def)
qed (simp_all add: readyRead_logout client_login_def connectToServer_def onConnected_def Let_def quiet_logout_open)

text \<open>The events that open a session again.\<close>

fun reopens :: "cevent \<Rightarrow> bool" where
  "reopens (U_login i p) = True"
| "reopens (U_connect h p) = True"
| "reopens U_relogin = True"
| "reopens N_connected = True"
| "reopens e = False"

lemma logged_out_step:
  assumes "client_step S Q c e d" "\<not> reopens e" "quiet_logout c" "m_intentionalDisconnect c"
  shows "m_intentionalDisconnect d \<and> e \<noteq> T_reconnect \<and> e \<noteq> T_login"
  using assms
  by (cases rule: client_step.cases)
    (auto simp: readyRead_logout client_loginout_def onDisconnected_def onError_def Let_def sendHeartbeat_def
      onHeartbeatTimeout_def due_def quiet_logout_def)

lemma logged_out_run:
  assumes "client_run S Q c es d" and "\<forall>e \<in> set es. \<not> reopens e" and "quiet_logout c" and "m_intentionalDisconnect c"
  shows "m_intentionalDisconnect d \<and> quiet_logout d \<and> T_reconnect \<notin> set es \<and> T_login \<notin> set es"
  using assms
proof (induction rule: client_run.induct)
  case (crun_cons c e d es f)
  from logged_out_step [OF crun_cons.hyps(1)] quiet_logout_step [OF crun_cons.hyps(1)] crun_cons show ?case by auto
qed simp

subsection \<open>A lost connection comes back with the same credentials\<close>

definition lost_session :: "'q client \<Rightarrow> 'q client \<Rightarrow> bool" where
  "lost_session c0 c \<longleftrightarrow> \<not> m_intentionalDisconnect c \<and> m_wantRelogin c \<and> m_myId c = m_myId c0 \<and> m_password c = m_password c0 \<and>
     m_host c = m_host c0 \<and> m_port c = m_port c0 \<and> m_reconnectTimer c \<noteq> None"

text \<open>The events of a client without a connection, while the user only waits.\<close>

fun while_down :: "cevent \<Rightarrow> bool" where
  "while_down (N_error e) = True"
| "while_down N_disconnected = True"
| "while_down (T_tick dt) = True"
| "while_down T_reconnect = True"
| "while_down T_login = True"
| "while_down T_heartbeat = True"
| "while_down T_heartbeat_timeout = True"
| "while_down e = False"

lemma lost_session_sock: "lost_session c0 c \<Longrightarrow> lost_session c0 (sock f c)"
  by (simp add: lost_session_def sock_reconnect)

lemma lost_session_update [simp]:
  "lost_session c0 (c\<lparr>m_socket := q\<rparr>) = lost_session c0 c" "lost_session c0 (c\<lparr>m_recvBuf := b\<rparr>) = lost_session c0 c"
  "lost_session c0 (c\<lparr>m_heartbeatTimer := h\<rparr>) = lost_session c0 c"
  "lost_session c0 (c\<lparr>m_heartbeatTimeout := h\<rparr>) = lost_session c0 c"
  "lost_session c0 (c\<lparr>m_loginTimeoutTimer := h\<rparr>) = lost_session c0 c"
  "lost_session c0 (c\<lparr>clock_ms := t\<rparr>) = lost_session c0 c" "lost_session c0 (emit s c) = lost_session c0 c"
  by (simp_all add: lost_session_def)

lemma lost_session_reconnect: "lost_session c0 c \<Longrightarrow> lost_session c0 (c\<lparr>m_reconnectTimer := Some t\<rparr>)"
  by (simp add: lost_session_def)

lemma lost_session_step:
  assumes "client_step S Q c e d" and "while_down e" and "lost_session c0 c"
  shows "lost_session c0 d"
  using assms
proof (cases rule: client_step.cases)
  case (n_disconnected q)
  with assms(3) show ?thesis by (simp add: onDisconnected_def Let_def lost_session_reconnect)
next
  case (n_error e q)
  with assms(3) show ?thesis by (simp add: onError_def Let_def lost_session_reconnect)
next
  case t_heartbeat_timeout
  with assms(3) show ?thesis
    by (simp add: onHeartbeatTimeout_def Let_def lost_session_sock lost_session_reconnect)
qed (simp_all add: onReconnectTimeout_def onLoginTimeout_def sendHeartbeat_def Let_def lost_session_sock lost_session_reconnect)

lemma disconnected_lost:
  "\<not> m_intentionalDisconnect c \<Longrightarrow> m_wantRelogin c \<Longrightarrow> client_step S Q c N_disconnected d \<Longrightarrow>
    lost_session c d"
  by (erule client_stepE) (auto simp: lost_session_def onDisconnected_def Let_def)

subsection \<open>The supervision by heartbeats\<close>

text \<open>Time passes and the two heartbeat timers fire; nothing is received and the user asks for nothing.\<close>

fun idle_event :: "cevent \<Rightarrow> bool" where
  "idle_event (T_tick dt) = True"
| "idle_event T_heartbeat = True"
| "idle_event T_heartbeat_timeout = True"
| "idle_event e = False"

definition supervised :: "'q qsocket \<Rightarrow> 'q client \<Rightarrow> bool" where
  "supervised S c \<longleftrightarrow> isConnected S c \<and> (\<exists>h. m_heartbeatTimer c = Some h \<and> h \<le> clock_ms c \<and>
     in_time (m_heartbeatTimer c) heartbeat_interval (clock_ms c) \<and>
     (m_heartbeatTimeout c = None \<or> m_heartbeatTimeout c = Some h \<and> m_lastDataTime c + 15 \<le> h div 1000))"

lemma supervised_not_due: "supervised S c \<Longrightarrow> \<not> due (m_heartbeatTimeout c) timeout_interval (clock_ms c)"
  by (auto simp: supervised_def due_def in_time_def heartbeat_interval_def timeout_interval_def)

lemma supervised_step:
  assumes up: "\<forall>p q. sk_state S q = ConnectedState \<longrightarrow> fst (sk_write S p q) = [] \<and> sk_state S (snd (sk_write S p q)) = ConnectedState"
    and "client_step S Q c e d" and "idle_event e" and c: "supervised S c"
  shows "supervised S d \<and> e \<noteq> T_heartbeat_timeout \<and> emitted d = emitted c \<and> m_reconnectTimer d = m_reconnectTimer c"
  using assms(2,3)
proof (cases rule: client_step.cases)
  case (t_tick dt)
  with c show ?thesis by (auto simp: supervised_def no_deadline_missed_def isConnected_def)
next
  case t_heartbeat
  obtain h where h: "m_heartbeatTimer c = Some h" "h \<le> clock_ms c"
      "m_heartbeatTimeout c = None \<or> m_heartbeatTimeout c = Some h \<and> m_lastDataTime c + 15 \<le> h div 1000"
    using c by (auto simp: supervised_def)
  have "h div 1000 \<le> clock_ms c div 1000" using h(2) by (rule zdiv_mono1) simp
  then have skip: "m_heartbeatTimeout c = None" if "clock_ms c div 1000 - m_lastDataTime c < 15"
    using h(3) that by auto
  have conn: "sk_state S (m_socket c) = ConnectedState" using c by (simp add: supervised_def isConnected_def)
  obtain q where q: "sk_write S (packet (toJson Q (jobj [(''msgid'', JInt (code HEARTBEAT_MSG))]))) (m_socket c) = ([], q)"
      "sk_state S q = ConnectedState"
    using up conn by (metis prod.collapse)
  show ?thesis
    using t_heartbeat conn q skip
    by (auto simp: sendHeartbeat_def supervised_def isConnected_def time_s_def in_time_def heartbeat_interval_def Let_def sock_def)
next
  case t_heartbeat_timeout
  with supervised_not_due [OF c] show ?thesis by simp
qed simp_all

lemma supervised_run:
  assumes "\<forall>p q. sk_state S q = ConnectedState \<longrightarrow> fst (sk_write S p q) = [] \<and> sk_state S (snd (sk_write S p q)) = ConnectedState"
    and "client_run S Q c es d" and "\<forall>e \<in> set es. idle_event e" and "supervised S c"
  shows "supervised S d \<and> T_heartbeat_timeout \<notin> set es \<and> emitted d = emitted c \<and> m_reconnectTimer d = m_reconnectTimer c"
  using assms(2-)
proof (induction rule: client_run.induct)
  case (crun_cons c e d es f)
  from supervised_step [OF assms(1) crun_cons.hyps(1)] crun_cons show ?case by auto
qed simp

subsection \<open>A concrete socket and JSON classes\<close>

text \<open>A socket whose peer takes every byte and never answers, and JSON classes over a list of documents.\<close>

definition ref_socket :: "sock_state qsocket" where
  "ref_socket = \<lparr>sk_state = (\<lambda>q. q),
     sk_abort = (\<lambda>q. (if q = ConnectedState then [Sig_disconnected] else [], UnconnectedState)),
     sk_connect = (\<lambda>h p q. ([], OtherState)), sk_write = (\<lambda>b q. ([], q)), sk_disconnect = (\<lambda>q. ([], OtherState))\<rparr>"

definition ref_qjson :: "json list \<Rightarrow> qjson" where
  "ref_qjson docs = \<lparr>toJson = ref_dump, fromJson = parse (ref_json docs),
     toInt = (\<lambda>v. case v of JInt n \<Rightarrow> n | _ \<Rightarrow> 0), toStr = (\<lambda>v. case v of JStr s \<Rightarrow> s | _ \<Rightarrow> []),
     toArray = (\<lambda>v. case v of JArr vs \<Rightarrow> vs | _ \<Rightarrow> [])\<rparr>"

interpretation qref: qt_json "ref_qjson docs" for docs
  by unfold_locales (auto simp: ref_qjson_def)

lemma ref_agree: "json_agree (ref_json [obj]) (ref_qjson [obj]) obj"
  by (simp add: json_agree_def ref_json_def ref_qjson_def)

definition demo_client :: "sock_state client" where
  "demo_client = (new_client ConnectedState 100000 None None)\<lparr>m_myId := 1, m_myName := ''ann'', m_password := ''a'',
     m_wantRelogin := True, m_heartbeatTimer := Some 100000\<rparr>"

subsection \<open>Properties\<close>

text \<open>
  (C8) From one window to the other: when the receiver is connected to the same server and both
  JSON libraries read the message object from each other's text, the bytes that \<open>oneChat\<close> of the
  sender's client writes make the server send one packet, to the receiver's connection, from
  which the receiver's client signals the sender's id and name, the text and the time as written.
\<close>
theorem chat_end_to_end:
  assumes "qt_json Q" and "json_agree (jlib E) Q obj" and "obj = chat_json (m_myId a) (m_myName a) toid msg stamp"
    and "body_ok (toJson Q obj)" and "body_ok (dump (jlib E) obj)" and "is_int32 (m_myId a)" and "is_int32 toid"
    and "map_of (userConnMap w) toid = Some tc" and "m_recvBuf b = []"
  shows "client_oneChat S Q stamp toid msg a =
      sock (sk_write S (packet (toJson Q obj))) (a\<lparr>m_lastDataTime := time_s a\<rparr>) \<and>
    (\<exists>w' p. onMessage E ac (packet (toJson Q obj)) w = Some (w', []) \<and> sent w' = sent w @ [(tc, p)] \<and>
      onReadyRead R Q p b = emit (receivedChatMsg (m_myId a) (m_myName a) msg stamp) (b\<lparr>m_lastDataTime := time_s b\<rparr>))"
proof -
  have one: "fromJson Q (dump (jlib E) obj) = Some obj" "parse (jlib E) (toJson Q obj) = Some obj"
    using assms(2) by (simp_all add: json_agree_def)
  have js: "int_field (jlib E) obj ''msgid'' = Inr (code ONE_CHAT_MSG)"
      "ids_request (jlib E) obj ''toid'' (m_myId a) toid"
    using assms(6,7) by (simp_all add: assms(3) chat_json_def ids_request_def contains_jobj int_field_jobj is_int32_def to_int32_id)
  have body: "handle_body E ac (toJson Q obj) w = Some (sendJson E tc obj (updateConnTime ac w))"
    using one js assms(8) by (simp add: handle_body_def oneChat_def ids_request_def updateConnTime_def Let_def del: code.simps)
  note loop = onMessage_packet [OF assms(4) body]
  have "onReadyRead R Q (packet (dump (jlib E) obj)) b =
      emit (receivedChatMsg (m_myId a) (m_myName a) msg stamp) (b\<lparr>m_lastDataTime := time_s b\<rparr>)"
    unfolding onReadyRead_packet [OF assms(5,9)] client_body_def one(1) option.case
    unfolding assms(3) qt_json.chat_received [OF assms(1,6)]
    using assms(9) by (simp add: emit_def)
  with loop show ?thesis
    by (auto simp: client_oneChat_def client_sendJson_def assms(3) sendJson_def updateConnTime_def intro!: exI)
qed

definition demo_chat :: json where
  "demo_chat = chat_json 1 ''ann'' 2 ''hi'' ''now''"

lemma demo_chat_eq: "demo_chat = JObj [(''id'', JInt 1), (''msg'', JStr ''hi''), (''msgid'', JInt 6), (''name'', JStr ''ann''),
    (''time'', JStr ''now''), (''toid'', JInt 2)]"
  unfolding demo_chat_def chat_json_def jobj_def jput_def by code_simp

theorem chat_end_to_end_witness:
  "\<exists>w' p. onMessage (ref_chat [demo_chat]) (demo_conn 1) (packet (ref_dump demo_chat)) demo = Some (w', []) \<and>
     sent w' = [(demo_conn 2, p)] \<and>
     emitted (onReadyRead ref_socket (ref_qjson [demo_chat]) p demo_client) = [receivedChatMsg 1 ''ann'' ''hi'' ''now'']"
proof -
  have ok: "body_ok (ref_dump demo_chat)"
    by (simp add: demo_chat_eq body_ok_def max_body_def quoted_def BACKSLASH_def dec_int_def
      dec_nat.simps [of "Suc 0"] dec_nat.simps [of 2] dec_nat.simps [of 6])
  have j: "toJson (ref_qjson [demo_chat]) demo_chat = ref_dump demo_chat" "dump (ref_json [demo_chat]) demo_chat = ref_dump demo_chat"
    by (simp_all add: ref_qjson_def ref_json_def)
  have a: "m_myId demo_client = 1" "m_myName demo_client = ''ann''" "m_recvBuf demo_client = []" "emitted demo_client = []"
    by (simp_all add: demo_client_def new_client_def)
  have obj: "demo_chat = chat_json (m_myId demo_client) (m_myName demo_client) 2 ''hi'' ''now''"
    by (simp add: a demo_chat_def)
  have agree: "json_agree (jlib (ref_chat [demo_chat])) (ref_qjson [demo_chat]) demo_chat" by (simp add: ref_agree)
  have here: "map_of (userConnMap demo) 2 = Some (demo_conn 2)" by (simp add: demo_conns)
  have "\<exists>w' p. onMessage (ref_chat [demo_chat]) (demo_conn 1) (packet (toJson (ref_qjson [demo_chat]) demo_chat)) demo = Some (w', []) \<and>
      sent w' = sent demo @ [(demo_conn 2, p)] \<and> onReadyRead ref_socket (ref_qjson [demo_chat]) p demo_client =
        emit (receivedChatMsg (m_myId demo_client) (m_myName demo_client) ''hi'' ''now'') (demo_client\<lparr>m_lastDataTime := time_s demo_client\<rparr>)"
    by (rule chat_end_to_end [OF qref.qt_json_axioms agree obj _ _ _ _ here a(3), THEN conjunct2])
      (simp_all add: j ok a is_int32_def)
  then show ?thesis by (auto simp: j a demo_conns)
qed

text \<open>
  (C21) A logout is final: in every run of the client, after \<open>loginout\<close> and until the user logs in,
  connects or a connection comes up, the client stays in the intended disconnection and neither
  the reconnection timer nor the login timer ever fires.
\<close>
theorem logout_stays_out:
  assumes "client_run S Q (new_client q ms ip port) past c" and "client_run S Q (client_loginout S Q c) es d"
    and "\<forall>e \<in> set es. \<not> reopens e"
  shows "m_intentionalDisconnect d \<and> m_reconnectTimer d = None \<and> T_reconnect \<notin> set es \<and> T_login \<notin> set es"
proof -
  have "quiet_logout c"
    by (rule client_run_inv [OF assms(1), where ok = "\<lambda>_. True" and I = quiet_logout])
      (simp add: quiet_logout_def new_client_def, erule quiet_logout_step, assumption, simp)
  from quiet_logout_step [OF u_logout this] have "quiet_logout (client_loginout S Q c)" .
  moreover have "m_intentionalDisconnect (client_loginout S Q c)" by (simp add: client_loginout_def Let_def)
  ultimately show ?thesis using logged_out_run [OF assms(2,3)] by (auto simp: quiet_logout_def)
qed

theorem logout_stays_out_witness:
  "m_intentionalDisconnect (client_loginout ref_socket (ref_qjson []) (client_login ref_socket (ref_qjson []) 1 ''a''
     (new_client ConnectedState 0 None None)))"
  using logout_stays_out [OF crun_cons [OF u_login crun_nil] crun_nil, of ref_socket "ref_qjson []"] by simp

text \<open>
  (C22) A lost connection comes back to the same server with the same credentials: after a connection
  of a client that logged in is lost, as long as only the network and the timers act, the
  reconnection timer stays armed; whenever it fires without a connection, the client dials the host
  and port of the lost connection; and when a connection comes up it sends the login with the same
  id and password.
\<close>
theorem reconnect_same_credentials:
  assumes "client_run S Q c (N_disconnected # es) d" and "\<not> m_intentionalDisconnect c" and "m_wantRelogin c"
    and "\<forall>e \<in> set es. while_down e"
  shows "m_reconnectTimer d \<noteq> None \<and>
    (\<forall>f. client_step S Q d T_reconnect f \<longrightarrow> sk_state S (m_socket d) = UnconnectedState \<longrightarrow>
      f = sock (sk_connect S (m_host c) (m_port c)) (sock (sk_abort S) (d\<lparr>m_reconnectTimer := Some (clock_ms d)\<rparr>))) \<and>
    (due (m_reconnectTimer d) reconnect_interval (clock_ms d) \<longrightarrow> (\<exists>f. client_step S Q d T_reconnect f)) \<and>
    onConnected S Q d = client_login S Q (m_myId c) (m_password c) (d\<lparr>m_reconnectTimer := None, m_intentionalDisconnect := False\<rparr>)"
proof -
  from assms(1) obtain d0 where "client_step S Q c N_disconnected d0" "client_run S Q d0 es d" by (auto simp: client_run_Cons)
  with disconnected_lost [OF assms(2,3)] have l: "lost_session c d"
    by (auto intro: client_run_inv [where ok = while_down, OF _ _ lost_session_step assms(4)])
  have "f = sock (sk_connect S (m_host c) (m_port c)) (sock (sk_abort S) (d\<lparr>m_reconnectTimer := Some (clock_ms d)\<rparr>))"
    if "client_step S Q d T_reconnect f" "sk_state S (m_socket d) = UnconnectedState" for f
    using that l by (auto elim!: client_stepE simp: onReconnectTimeout_def lost_session_def)
  moreover have "\<exists>f. client_step S Q d T_reconnect f" if "due (m_reconnectTimer d) reconnect_interval (clock_ms d)"
    using t_reconnect [OF that] by blast
  ultimately show ?thesis using l by (auto simp: lost_session_def onConnected_def)
qed

theorem reconnect_same_credentials_witness:
  "m_reconnectTimer (onError ''refused'' (onDisconnected (demo_client\<lparr>m_socket := UnconnectedState\<rparr>))) \<noteq> None"
proof -
  have "client_run ref_socket (ref_qjson []) demo_client [N_disconnected, N_error ''refused'']
      (onError ''refused'' ((onDisconnected (demo_client\<lparr>m_socket := UnconnectedState\<rparr>))\<lparr>m_socket := UnconnectedState\<rparr>))"
    by (rule crun_cons [OF n_disconnected crun_cons [OF n_error crun_nil]]) (simp add: ref_socket_def)
  from reconnect_same_credentials [OF this] show ?thesis
    by (simp add: demo_client_def new_client_def onDisconnected_def emit_def Let_def)
qed

text \<open>
  (C37) The supervision misses a silent server: while a logged-in client is idle and its peer is
  gone without a reset, so that writes are still accepted, every heartbeat that is sent starts the
  timeout of 35 seconds anew after about 15, so in every run, however long, the timeout never
  fires, the user is never told and no reconnection begins.
\<close>
theorem silent_server_unnoticed:
  assumes "\<forall>p q. sk_state S q = ConnectedState \<longrightarrow> fst (sk_write S p q) = [] \<and> sk_state S (snd (sk_write S p q)) = ConnectedState"
    and "isConnected S c" and "m_heartbeatTimer c = Some (clock_ms c)" and "m_heartbeatTimeout c = None"
    and "client_run S Q c es d" and "\<forall>e \<in> set es. idle_event e"
  shows "T_heartbeat_timeout \<notin> set es \<and> \<not> due (m_heartbeatTimeout d) timeout_interval (clock_ms d) \<and>
    emitted d = emitted c \<and> m_reconnectTimer d = m_reconnectTimer c"
proof -
  have "supervised S c" using assms(2-4) by (simp add: supervised_def in_time_def heartbeat_interval_def)
  from supervised_run [OF assms(1,5,6) this] supervised_not_due show ?thesis by blast
qed

theorem silent_server_unnoticed_witness:
  "\<not> due (m_heartbeatTimeout (sendHeartbeat ref_socket (ref_qjson []) (demo_client\<lparr>clock_ms := 115000, m_heartbeatTimer := Some 115000\<rparr>)))
     timeout_interval 115000"
proof -
  let ?c = "demo_client\<lparr>clock_ms := 115000\<rparr>"
  have tick: "client_step ref_socket (ref_qjson []) demo_client (T_tick 15000) ?c"
    using t_tick [of 15000 demo_client ref_socket "ref_qjson []"]
    by (simp add: demo_client_def new_client_def no_deadline_missed_def in_time_def heartbeat_interval_def)
  have beat: "client_step ref_socket (ref_qjson []) ?c T_heartbeat
      (sendHeartbeat ref_socket (ref_qjson []) (?c\<lparr>m_heartbeatTimer := Some 115000\<rparr>))"
    using t_heartbeat [of ?c ref_socket "ref_qjson []"] by (simp add: demo_client_def new_client_def due_def heartbeat_interval_def)
  have up: "\<forall>p q. sk_state ref_socket q = ConnectedState \<longrightarrow>
      fst (sk_write ref_socket p q) = [] \<and> sk_state ref_socket (snd (sk_write ref_socket p q)) = ConnectedState"
    by (simp add: ref_socket_def)
  have t: "clock_ms (sendHeartbeat ref_socket (ref_qjson []) (?c\<lparr>m_heartbeatTimer := Some 115000\<rparr>)) = 115000"
    by (simp add: sendHeartbeat_def Let_def)
  have "isConnected ref_socket demo_client" "m_heartbeatTimer demo_client = Some (clock_ms demo_client)"
      "m_heartbeatTimeout demo_client = None"
    by (simp_all add: isConnected_def ref_socket_def demo_client_def new_client_def)
  from silent_server_unnoticed [OF up this crun_cons [OF tick crun_cons [OF beat crun_nil]]] t show ?thesis by simp
qed

end
