(* ===== verification/Widget.thy ===== *)
theory Widget
  imports ClientProps
begin

section \<open>The chat window\<close>

text \<open>
  \<open>Widget\<close> (\<open>widget.cpp\<close>, \<open>widget.h\<close>): the histories, the unread counters, the two lists of the
  tree, the chat pane and the online state, with the slots of the client's signals and of the
  buttons. What the user enters in a dialog is an argument (\<open>None\<close>: cancelled), as are the
  formatted time and \<open>QString::trimmed\<close>. Colours, fonts and layout are left out; an item of the
  tree keeps its id, its text and its badge.
\<close>

subsection \<open>State\<close>

record chat_msg =
  isRight :: bool
  cm_name :: string
  cm_time :: string
  cm_text :: string

record entry =
  e_id :: int
  e_text :: string
  e_badge :: int

record 'q widget =
  w_client :: "'q client"
  w_myId :: int
  w_userName :: string
  w_pendingNewName :: string
  w_currentTargetId :: int
  w_currentTargetName :: string
  w_currentIsGroup :: bool
  w_online :: bool
  w_unreadFriend :: "(int \<times> int) list"
  w_unreadGroup :: "(int \<times> int) list"
  w_friendMsgHistory :: "(int \<times> chat_msg list) list"
  w_groupMsgHistory :: "(int \<times> chat_msg list) list"
  w_friends :: "entry list"
  w_groups :: "entry list"
  w_pane :: "chat_msg list"
  w_title :: string

text \<open>\<open>QMap::value\<close> with a default.\<close>

definition map_value :: "(int \<times> 'a) list \<Rightarrow> int \<Rightarrow> 'a \<Rightarrow> 'a" where
  "map_value m k d = (case map_of m k of Some v \<Rightarrow> v | None \<Rightarrow> d)"

definition history :: "'q widget \<Rightarrow> int \<Rightarrow> bool \<Rightarrow> chat_msg list" where
  "history w t g = map_value (if g then w_groupMsgHistory w else w_friendMsgHistory w) t []"

subsection \<open>Helpers\<close>

text \<open>A history keeps the last 500 messages.\<close>

definition appendToHistory :: "int \<Rightarrow> bool \<Rightarrow> chat_msg \<Rightarrow> 'q widget \<Rightarrow> 'q widget" where
  "appendToHistory targetId isGroup cm w =
     (let hist = history w targetId isGroup @ [cm];
          hist1 = (if length hist > 500 then tl hist else hist)
      in if isGroup then w\<lparr>w_groupMsgHistory := AList.update targetId hist1 (w_groupMsgHistory w)\<rparr>
         else w\<lparr>w_friendMsgHistory := AList.update targetId hist1 (w_friendMsgHistory w)\<rparr>)"

definition addMessage :: "chat_msg \<Rightarrow> 'q widget \<Rightarrow> 'q widget" where
  "addMessage cm w = w\<lparr>w_pane := w_pane w @ [cm]\<rparr>"

text \<open>The first item with the id changes.\<close>

fun change_first :: "int \<Rightarrow> (entry \<Rightarrow> entry) \<Rightarrow> entry list \<Rightarrow> entry list" where
  "change_first i f [] = []"
| "change_first i f (e # es) = (if e_id e = i then f e # es else e # change_first i f es)"

definition updateFriendBadge :: "int \<Rightarrow> 'q widget \<Rightarrow> 'q widget" where
  "updateFriendBadge i w =
     w\<lparr>w_friends := change_first i (\<lambda>e. e\<lparr>e_badge := map_value (w_unreadFriend w) i 0\<rparr>) (w_friends w)\<rparr>"

definition updateGroupBadge :: "int \<Rightarrow> 'q widget \<Rightarrow> 'q widget" where
  "updateGroupBadge i w =
     w\<lparr>w_groups := change_first i (\<lambda>e. e\<lparr>e_badge := map_value (w_unreadGroup w) i 0\<rparr>) (w_groups w)\<rparr>"

definition bump_friend :: "int \<Rightarrow> 'q widget \<Rightarrow> 'q widget" where
  "bump_friend i w = w\<lparr>w_unreadFriend := AList.update i (map_value (w_unreadFriend w) i 0 + 1) (w_unreadFriend w)\<rparr>"

definition bump_group :: "int \<Rightarrow> 'q widget \<Rightarrow> 'q widget" where
  "bump_group i w = w\<lparr>w_unreadGroup := AList.update i (map_value (w_unreadGroup w) i 0 + 1) (w_unreadGroup w)\<rparr>"

definition setStatus :: "bool \<Rightarrow> 'q widget \<Rightarrow> 'q widget" where
  "setStatus online w =
     w\<lparr>w_online := online,
       w_title := (if \<not> online then ''You are offline''
         else if w_currentTargetId w \<noteq> -1
           then (if w_currentIsGroup w then ''Group: '' @ w_currentTargetName w else ''Chat with '' @ w_currentTargetName w)
         else w_title w)\<rparr>"

text \<open>The text of a document inside an array of strings, as an object.\<close>

definition inner_doc :: "qjson \<Rightarrow> json \<Rightarrow> json" where
  "inner_doc Q v = (case fromJson Q (toStr Q v) of Some j \<Rightarrow> j | None \<Rightarrow> JNull)"

definition doc_msg :: "qjson \<Rightarrow> json \<Rightarrow> chat_msg" where
  "doc_msg Q obj = \<lparr>isRight = False, cm_name = str_of Q obj ''name'', cm_time = str_of Q obj ''time'', cm_text = str_of Q obj ''msg''\<rparr>"

text \<open>An offline message goes into the history and is counted as unread.\<close>

definition merge_offline :: "qjson \<Rightarrow> 'q widget \<Rightarrow> json \<Rightarrow> 'q widget" where
  "merge_offline Q w v =
     (let obj = inner_doc Q v; msgid = int_of Q obj ''msgid'' in
      if msgid = code ONE_CHAT_MSG then
        (let fromid = int_of Q obj ''id'' in bump_friend fromid (appendToHistory fromid False (doc_msg Q obj) w))
      else if msgid = code GROUP_CHAT_MSG then
        (let groupid = int_of Q obj ''groupid'' in bump_group groupid (appendToHistory groupid True (doc_msg Q obj) w))
      else w)"

definition apply_badges :: "'q widget \<Rightarrow> 'q widget" where
  "apply_badges w =
     foldl (\<lambda>w i. updateGroupBadge i w) (foldl (\<lambda>w i. updateFriendBadge i w) w (map fst (w_unreadFriend w))) (map fst (w_unreadGroup w))"

subsection \<open>Construction\<close>

definition friend_text :: "string \<Rightarrow> string \<Rightarrow> string" where
  "friend_text name state = name @ '' ['' @ state @ '']''"

definition loadFriends :: "qjson \<Rightarrow> json list \<Rightarrow> entry list" where
  "loadFriends Q fs = map (\<lambda>v. let obj = inner_doc Q v in
     \<lparr>e_id = int_of Q obj ''id'', e_text = friend_text (str_of Q obj ''name'') (str_of Q obj ''state''), e_badge = 0\<rparr>) fs"

definition loadGroups :: "qjson \<Rightarrow> json list \<Rightarrow> entry list" where
  "loadGroups Q gs = map (\<lambda>v. let obj = inner_doc Q v in
     \<lparr>e_id = int_of Q obj ''id'', e_text = str_of Q obj ''groupname'', e_badge = 0\<rparr>) gs"

definition new_widget :: "qjson \<Rightarrow> 'q client \<Rightarrow> int \<Rightarrow> string \<Rightarrow> json list \<Rightarrow> json list \<Rightarrow> json list \<Rightarrow> 'q widget" where
  "new_widget Q c myId name fs gs offlineMsgs =
     (let w0 = \<lparr>w_client = c, w_myId = myId, w_userName = name, w_pendingNewName = [], w_currentTargetId = -1,
            w_currentTargetName = [], w_currentIsGroup = False, w_online = True, w_unreadFriend = [], w_unreadGroup = [],
            w_friendMsgHistory = [], w_groupMsgHistory = [], w_friends = [], w_groups = [], w_pane = [],
            w_title = ''Select a friend or group''\<rparr>;
          w1 = setStatus True (foldl (merge_offline Q) w0 offlineMsgs)
      in apply_badges (w1\<lparr>w_friends := loadFriends Q fs, w_groups := loadGroups Q gs\<rparr>))"

subsection \<open>Slots of the client's signals\<close>

definition onChatMsg :: "int \<Rightarrow> string \<Rightarrow> string \<Rightarrow> string \<Rightarrow> 'q widget \<Rightarrow> 'q widget" where
  "onChatMsg fromid name msg time w =
     (let cm = \<lparr>isRight = False, cm_name = name, cm_time = time, cm_text = msg\<rparr>;
          w1 = appendToHistory fromid False cm w
      in if fromid = w_currentTargetId w1 \<and> \<not> w_currentIsGroup w1 then addMessage cm w1
         else updateFriendBadge fromid (bump_friend fromid w1))"

definition onGroupMsg :: "int \<Rightarrow> int \<Rightarrow> string \<Rightarrow> string \<Rightarrow> string \<Rightarrow> 'q widget \<Rightarrow> 'q widget" where
  "onGroupMsg groupid fromid name msg time w =
     (if fromid = w_myId w then w
      else (let cm = \<lparr>isRight = False, cm_name = name, cm_time = time, cm_text = msg\<rparr>;
                w1 = appendToHistory groupid True cm w
            in if groupid = w_currentTargetId w1 \<and> w_currentIsGroup w1 then addMessage cm w1
               else updateGroupBadge groupid (bump_group groupid w1)))"

text \<open>\<open>section(" [", 0, 0)\<close>: the text before the first \<open>" ["\<close>.\<close>

fun before_bracket :: "string \<Rightarrow> string" where
  "before_bracket [] = []"
| "before_bracket (c # s) = (if c = CHR '' '' \<and> s \<noteq> [] \<and> hd s = CHR ''['' then [] else c # before_bracket s)"

text \<open>The loop runs over both lists of the tree, friends first, and stops at the first match.\<close>

definition onFriendStateChanged :: "int \<Rightarrow> string \<Rightarrow> 'q widget \<Rightarrow> 'q widget" where
  "onFriendStateChanged friendid state w =
     (let f = (\<lambda>e. e\<lparr>e_text := friend_text (before_bracket (e_text e)) state\<rparr>) in
      if friendid \<in> e_id ` set (w_friends w) then w\<lparr>w_friends := change_first friendid f (w_friends w)\<rparr>
      else w\<lparr>w_groups := change_first friendid f (w_groups w)\<rparr>)"

definition onFriendAdded :: "int \<Rightarrow> string \<Rightarrow> string \<Rightarrow> 'q widget \<Rightarrow> 'q widget" where
  "onFriendAdded friendId name state w =
     w\<lparr>w_friends := w_friends w @ [\<lparr>e_id = friendId, e_text = friend_text name state, e_badge = 0\<rparr>]\<rparr>"

definition onGroupCreated :: "int \<Rightarrow> string \<Rightarrow> 'q widget \<Rightarrow> 'q widget" where
  "onGroupCreated groupId groupName w =
     w\<lparr>w_groups := w_groups w @ [\<lparr>e_id = groupId, e_text = groupName, e_badge = 0\<rparr>]\<rparr>"

text \<open>After a reconnection: the offline messages are merged, and shown if they belong to the open chat.\<close>

definition onRelogin :: "qjson \<Rightarrow> json list \<Rightarrow> 'q widget \<Rightarrow> 'q widget" where
  "onRelogin Q offlineMsgs w =
     (let w1 = apply_badges (foldl (merge_offline Q) (setStatus True w) offlineMsgs) in
      if w_currentTargetId w1 \<noteq> -1 then
        foldl (\<lambda>w v. let obj = inner_doc Q v; isGroup = (int_of Q obj ''msgid'' = code GROUP_CHAT_MSG);
                         matchId = (if isGroup then int_of Q obj ''groupid'' else int_of Q obj ''id'')
                     in if isGroup = w_currentIsGroup w \<and> matchId = w_currentTargetId w then addMessage (doc_msg Q obj) w else w)
          w1 offlineMsgs
      else w1)"

subsection \<open>Buttons\<close>

definition onSendClicked :: "'q qsocket \<Rightarrow> qjson \<Rightarrow> (string \<Rightarrow> string) \<Rightarrow> string \<Rightarrow> string \<Rightarrow> 'q widget \<Rightarrow> 'q widget" where
  "onSendClicked S Q trim stamp input w =
     (if w_currentTargetId w = -1 \<or> \<not> w_online w then w
      else (let text = trim input in
        if text = [] then w
        else (let c = (if \<not> w_currentIsGroup w then client_oneChat S Q stamp (w_currentTargetId w) text (w_client w)
                       else client_groupChat S Q stamp (w_currentTargetId w) text (w_client w));
                  cm = \<lparr>isRight = True, cm_name = [], cm_time = stamp, cm_text = text\<rparr>;
                  w1 = addMessage cm (w\<lparr>w_client := c\<rparr>)
              in appendToHistory (w_currentTargetId w1) (w_currentIsGroup w1) cm w1)))"

definition onAddFriendClicked :: "'q qsocket \<Rightarrow> qjson \<Rightarrow> int option \<Rightarrow> 'q widget \<Rightarrow> 'q widget" where
  "onAddFriendClicked S Q answer w = (case answer of None \<Rightarrow> w | Some i \<Rightarrow> w\<lparr>w_client := client_addFriend S Q i (w_client w)\<rparr>)"

definition onCreateGroupClicked :: "'q qsocket \<Rightarrow> qjson \<Rightarrow> string option \<Rightarrow> string option \<Rightarrow> 'q widget \<Rightarrow> 'q widget" where
  "onCreateGroupClicked S Q name desc w = (case name of
      None \<Rightarrow> w
    | Some n \<Rightarrow> if n = [] then w
        else (case desc of None \<Rightarrow> w | Some d \<Rightarrow> w\<lparr>w_client := client_createGroup S Q n d (w_client w)\<rparr>))"

definition onAddGroupClicked :: "'q qsocket \<Rightarrow> qjson \<Rightarrow> int option \<Rightarrow> 'q widget \<Rightarrow> 'q widget" where
  "onAddGroupClicked S Q answer w = (case answer of None \<Rightarrow> w | Some i \<Rightarrow> w\<lparr>w_client := client_addGroup S Q i (w_client w)\<rparr>)"

text \<open>\<open>close()\<close> runs \<open>closeEvent\<close>, which logs out (again).\<close>

definition closeEvent :: "'q qsocket \<Rightarrow> qjson \<Rightarrow> 'q widget \<Rightarrow> 'q widget" where
  "closeEvent S Q w = w\<lparr>w_client := client_loginout S Q (w_client w)\<rparr>"

definition onLogoutClicked :: "'q qsocket \<Rightarrow> qjson \<Rightarrow> 'q widget \<Rightarrow> 'q widget" where
  "onLogoutClicked S Q w =
     (let w1 = setStatus False w; w2 = w1\<lparr>w_client := client_loginout S Q (w_client w1)\<rparr> in closeEvent S Q w2)"

definition onSwitchAccountClicked :: "'q qsocket \<Rightarrow> qjson \<Rightarrow> 'q widget \<Rightarrow> 'q widget" where
  "onSwitchAccountClicked S Q w =
     closeEvent S Q (w\<lparr>w_client := resetLoginState (client_loginout S Q (w_client w))\<rparr>)"

definition onEditNameClicked :: "'q qsocket \<Rightarrow> qjson \<Rightarrow> (string \<Rightarrow> string) \<Rightarrow> string option \<Rightarrow> 'q widget \<Rightarrow> 'q widget" where
  "onEditNameClicked S Q trim answer w = (case answer of
      Some n \<Rightarrow> if trim n \<noteq> [] then w\<lparr>w_pendingNewName := trim n, w_client := client_updateName S Q (w_myId w) (trim n) (w_client w)\<rparr>
        else w\<lparr>w_pendingNewName := []\<rparr>
    | None \<Rightarrow> w\<lparr>w_pendingNewName := []\<rparr>)"

definition onNameUpdated :: "int \<Rightarrow> string \<Rightarrow> 'q widget \<Rightarrow> 'q widget" where
  "onNameUpdated i newName w =
     (if i = w_myId w then setStatus (w_online w) (w\<lparr>w_pendingNewName := [], w_userName := newName\<rparr>) else w)"

definition switchToTarget :: "int \<Rightarrow> bool \<Rightarrow> string \<Rightarrow> 'q widget \<Rightarrow> 'q widget" where
  "switchToTarget targetId isGroup displayName w =
     (let w1 = w\<lparr>w_currentTargetId := targetId, w_currentTargetName := displayName, w_currentIsGroup := isGroup\<rparr>;
          w2 = (if isGroup then updateGroupBadge targetId (w1\<lparr>w_unreadGroup := AList.delete targetId (w_unreadGroup w1)\<rparr>)
                else updateFriendBadge targetId (w1\<lparr>w_unreadFriend := AList.delete targetId (w_unreadFriend w1)\<rparr>));
          w3 = w2\<lparr>w_title := (if isGroup then ''Group: '' @ displayName else ''Chat with '' @ displayName), w_pane := []\<rparr>
      in foldl (\<lambda>w cm. addMessage cm w) w3 (history w3 targetId isGroup))"

text \<open>A click on an item of the tree that is not one of its two roots.\<close>

definition onTreeItemClicked :: "bool \<Rightarrow> entry \<Rightarrow> 'q widget \<Rightarrow> 'q widget" where
  "onTreeItemClicked isGroup e w =
     switchToTarget (e_id e) isGroup (if isGroup then e_text e else before_bracket (e_text e)) w"

definition toggleStatus :: "'q qsocket \<Rightarrow> qjson \<Rightarrow> 'q widget \<Rightarrow> 'q widget" where
  "toggleStatus S Q w =
     (if w_online w then setStatus False (w\<lparr>w_client := client_loginout S Q (w_client w)\<rparr>)
      else w\<lparr>w_client := relogin S (w_client w)\<rparr>)"

definition onGroupJoined :: "int \<Rightarrow> string \<Rightarrow> 'q widget \<Rightarrow> 'q widget" where
  "onGroupJoined groupId groupName w = onGroupCreated groupId groupName w"

text \<open>A press on the user's label; every other event goes on to Qt.\<close>

definition eventFilter :: "'q qsocket \<Rightarrow> qjson \<Rightarrow> bool \<Rightarrow> bool \<Rightarrow> 'q widget \<Rightarrow> bool \<times> 'q widget" where
  "eventFilter S Q on_label pressed w = (if on_label \<and> pressed then (True, toggleStatus S Q w) else (False, w))"

text \<open>The connections of the constructor; \<open>answer\<close> is what the user enters when a name was refused.\<close>

definition widget_slot :: "'q qsocket \<Rightarrow> qjson \<Rightarrow> (string \<Rightarrow> string) \<Rightarrow> string option \<Rightarrow> csignal \<Rightarrow> 'q widget \<Rightarrow> 'q widget" where
  "widget_slot S Q trim answer s w = (case s of
      receivedChatMsg fromid name msg time \<Rightarrow> onChatMsg fromid name msg time w
    | receivedGroupMsg groupid fromid name msg time \<Rightarrow> onGroupMsg groupid fromid name msg time w
    | friendStateChanged friendid state \<Rightarrow> onFriendStateChanged friendid state w
    | disconnected \<Rightarrow> setStatus False w
    | loginSuccess i name fs gs offlines \<Rightarrow> onRelogin Q offlines w
    | friendAdded i name state \<Rightarrow> onFriendAdded i name state w
    | groupCreated i name \<Rightarrow> onGroupCreated i name w
    | groupJoined i name \<Rightarrow> onGroupJoined i name w
    | nameUpdated i name \<Rightarrow> onNameUpdated i name w
    | nameUpdateFailed reason \<Rightarrow> onEditNameClicked S Q trim answer w
    | _ \<Rightarrow> w)"

subsection \<open>A session of the window\<close>

text \<open>
  What reaches the window until it closes: a signal of the client (with what the user enters if a
  name was refused), and the buttons with the user's input.
\<close>

datatype wevent =
    W_signal csignal "string option"
  | W_send string string
  | W_click bool entry
  | W_status
  | W_addFriend "int option"
  | W_createGroup "string option" "string option"
  | W_addGroup "int option"
  | W_editName "string option"

definition widget_event :: "'q qsocket \<Rightarrow> qjson \<Rightarrow> (string \<Rightarrow> string) \<Rightarrow> wevent \<Rightarrow> 'q widget \<Rightarrow> 'q widget" where
  "widget_event S Q trim e w = (case e of
      W_signal s answer \<Rightarrow> widget_slot S Q trim answer s w
    | W_send stamp input \<Rightarrow> onSendClicked S Q trim stamp input w
    | W_click isGroup item \<Rightarrow> onTreeItemClicked isGroup item w
    | W_status \<Rightarrow> snd (eventFilter S Q True True w)
    | W_addFriend answer \<Rightarrow> onAddFriendClicked S Q answer w
    | W_createGroup name desc \<Rightarrow> onCreateGroupClicked S Q name desc w
    | W_addGroup answer \<Rightarrow> onAddGroupClicked S Q answer w
    | W_editName answer \<Rightarrow> onEditNameClicked S Q trim answer w)"

definition widget_run :: "'q qsocket \<Rightarrow> qjson \<Rightarrow> (string \<Rightarrow> string) \<Rightarrow> wevent list \<Rightarrow> 'q widget \<Rightarrow> 'q widget" where
  "widget_run S Q trim es w = foldl (\<lambda>w e. widget_event S Q trim e w) w es"

end
