(* ===== verification/WidgetProps.thy ===== *)
theory WidgetProps
  imports Widget "HOL-Library.Sublist"
begin

section \<open>The chat window's histories, unread counters and lists\<close>

text \<open>
  The pane of the open chat always ends with its history, no history exceeds 500 messages, a
  message that is not shown is counted until its chat is opened, and what a state notice does to
  the lists of the tree.
\<close>

subsection \<open>Frame facts\<close>

lemma map_value_simps [simp]:
  "map_value (AList.update k v m) i d = (if i = k then v else map_value m i d)"
  "map_value (AList.delete k m) i d = (if i = k then d else map_value m i d)"
  "map_value [] i d = d"
  by (auto simp: map_value_def update_conv' delete_conv')

lemma history_append [simp]:
  "history (appendToHistory t g cm w) t' g' =
     (if t' = t \<and> g' = g then (let h = history w t g @ [cm] in if length h > 500 then tl h else h) else history w t' g')"
  by (auto simp: appendToHistory_def history_def Let_def)

lemma append_frame [simp]:
  "w_pane (appendToHistory t g cm w) = w_pane w"
  "w_currentTargetId (appendToHistory t g cm w) = w_currentTargetId w"
  "w_currentIsGroup (appendToHistory t g cm w) = w_currentIsGroup w"
  "w_unreadFriend (appendToHistory t g cm w) = w_unreadFriend w"
  "w_unreadGroup (appendToHistory t g cm w) = w_unreadGroup w"
  "w_friends (appendToHistory t g cm w) = w_friends w"
  "w_groups (appendToHistory t g cm w) = w_groups w"
  by (simp_all add: appendToHistory_def Let_def)

text \<open>What the open chat shows: the target, the pane and both histories.\<close>

definition chat_view :: "'q widget \<Rightarrow> int \<times> bool \<times> chat_msg list \<times> (int \<times> chat_msg list) list \<times> (int \<times> chat_msg list) list" where
  "chat_view w = (w_currentTargetId w, w_currentIsGroup w, w_pane w, w_friendMsgHistory w, w_groupMsgHistory w)"

lemma chat_view_history: "chat_view w = chat_view w' \<Longrightarrow> history w = history w'"
  by (auto simp: chat_view_def history_def fun_eq_iff)

lemma chat_view_frame [simp]:
  "chat_view (updateFriendBadge i w) = chat_view w"
  "chat_view (updateGroupBadge i w) = chat_view w"
  "chat_view (bump_friend i w) = chat_view w"
  "chat_view (bump_group i w) = chat_view w"
  "chat_view (setStatus b w) = chat_view w"
  "chat_view (w\<lparr>w_client := c\<rparr>) = chat_view w"
  "chat_view (w\<lparr>w_friends := es\<rparr>) = chat_view w"
  "chat_view (w\<lparr>w_groups := es\<rparr>) = chat_view w"
  "chat_view (w\<lparr>w_pendingNewName := n\<rparr>) = chat_view w"
  "chat_view (w\<lparr>w_userName := n\<rparr>) = chat_view w"
  by (simp_all add: chat_view_def updateFriendBadge_def updateGroupBadge_def bump_friend_def bump_group_def setStatus_def)

lemma foldl_chat_view: "(\<And>w x. chat_view (f w x) = chat_view w) \<Longrightarrow> chat_view (foldl f w xs) = chat_view w"
  by (induction xs arbitrary: w) auto

lemma chat_view_badges [simp]: "chat_view (apply_badges w) = chat_view w"
  by (simp add: apply_badges_def foldl_chat_view)

subsection \<open>The invariant\<close>

definition chat_ok :: "'q widget \<Rightarrow> bool" where
  "chat_ok w \<longleftrightarrow> (\<forall>t g. length (history w t g) \<le> 500) \<and>
     (w_currentTargetId w \<noteq> -1 \<longrightarrow> suffix (history w (w_currentTargetId w) (w_currentIsGroup w)) (w_pane w))"

lemma chat_ok_cong: "chat_view w = chat_view w' \<Longrightarrow> chat_ok w = chat_ok w'"
  using chat_view_history [of w w'] by (simp add: chat_ok_def chat_view_def)

lemma suffix_snoc_tl: "suffix h p \<Longrightarrow> suffix (tl (h @ [m])) (p @ [m])"
  by (cases h) (auto simp: suffix_def)

text \<open>One message more in the history of \<open>t\<close>, as \<open>appendToHistory\<close> adds it.\<close>

definition hist_add :: "chat_msg list \<Rightarrow> chat_msg \<Rightarrow> chat_msg list" where
  "hist_add h m = (if length (h @ [m]) > 500 then tl (h @ [m]) else h @ [m])"

lemma history_append_add:
  "history (appendToHistory t g cm w) t' g' = (if t' = t \<and> g' = g then hist_add (history w t g) cm else history w t' g')"
  by (simp add: hist_add_def Let_def)

lemma hist_add_length: "length h \<le> 500 \<Longrightarrow> length (hist_add h m) \<le> 500"
  by (simp add: hist_add_def)

lemma hist_add_suffix: "suffix h p \<Longrightarrow> suffix (hist_add h m) (p @ [m])"
  using suffix_snoc_tl [of h p m] by (auto simp: hist_add_def simp del: suffix_snoc)

lemma hist_adds_length: "length h \<le> 500 \<Longrightarrow> length (foldl hist_add h ms) \<le> 500"
  by (induction ms arbitrary: h) (auto simp: hist_add_length)

lemma hist_adds_suffix: "suffix h p \<Longrightarrow> suffix (foldl hist_add h ms) (p @ ms)"
proof (induction ms arbitrary: h p)
  case (Cons m ms)
  from Cons.IH [OF hist_add_suffix [OF Cons.prems]] show ?case by simp
qed simp

subsection \<open>Offline messages\<close>

text \<open>The offline document \<open>v\<close> is a message of the friend or the group \<open>t\<close>.\<close>

definition is_for :: "qjson \<Rightarrow> int \<Rightarrow> bool \<Rightarrow> json \<Rightarrow> bool" where
  "is_for Q t g v = (let obj = inner_doc Q v in
     if g then int_of Q obj ''msgid'' = code GROUP_CHAT_MSG \<and> int_of Q obj ''groupid'' = t
     else int_of Q obj ''msgid'' = code ONE_CHAT_MSG \<and> int_of Q obj ''id'' = t)"

definition is_chat :: "qjson \<Rightarrow> json \<Rightarrow> bool" where
  "is_chat Q v = (int_of Q (inner_doc Q v) ''msgid'' \<in> {code ONE_CHAT_MSG, code GROUP_CHAT_MSG})"

lemma codes_differ: "code ONE_CHAT_MSG \<noteq> code GROUP_CHAT_MSG"
  by simp

lemma history_bump [simp]:
  "history (bump_friend i w) = history w" "history (bump_group i w) = history w"
  by (rule chat_view_history, simp)+

lemma merge_history:
  "history (merge_offline Q w v) t g = (if is_for Q t g v then hist_add (history w t g) (doc_msg Q (inner_doc Q v)) else history w t g)"
  using codes_differ by (cases g) (auto simp: merge_offline_def is_for_def Let_def history_append_add simp del: history_append code.simps)

lemma merges_history:
  "history (foldl (merge_offline Q) w vs) t g =
     foldl hist_add (history w t g) (map (\<lambda>v. doc_msg Q (inner_doc Q v)) (filter (is_for Q t g) vs))"
  by (induction vs arbitrary: w) (auto simp: merge_history)

lemma merge_frame [simp]:
  "w_pane (merge_offline Q w v) = w_pane w"
  "w_currentTargetId (merge_offline Q w v) = w_currentTargetId w"
  "w_currentIsGroup (merge_offline Q w v) = w_currentIsGroup w"
  by (simp_all add: merge_offline_def Let_def bump_friend_def bump_group_def)

lemma merges_frame [simp]:
  "w_pane (foldl (merge_offline Q) w vs) = w_pane w"
  "w_currentTargetId (foldl (merge_offline Q) w vs) = w_currentTargetId w"
  "w_currentIsGroup (foldl (merge_offline Q) w vs) = w_currentIsGroup w"
  by (induction vs arbitrary: w) auto

lemma merge_unread:
  "map_value (w_unreadFriend (merge_offline Q w v)) i 0 = map_value (w_unreadFriend w) i 0 + (if is_for Q i False v then 1 else 0)"
  "map_value (w_unreadGroup (merge_offline Q w v)) i 0 = map_value (w_unreadGroup w) i 0 + (if is_for Q i True v then 1 else 0)"
  using codes_differ by (auto simp: merge_offline_def is_for_def Let_def bump_friend_def bump_group_def simp del: code.simps)

lemma merges_unread:
  "map_value (w_unreadFriend (foldl (merge_offline Q) w vs)) i 0 = map_value (w_unreadFriend w) i 0 + int (length (filter (is_for Q i False) vs))"
  "map_value (w_unreadGroup (foldl (merge_offline Q) w vs)) i 0 = map_value (w_unreadGroup w) i 0 + int (length (filter (is_for Q i True) vs))"
  by (induction vs arbitrary: w) (auto simp: merge_unread)


subsection \<open>The open chat is shown\<close>

definition replay_offline :: "qjson \<Rightarrow> 'q widget \<Rightarrow> json \<Rightarrow> 'q widget" where
  "replay_offline Q w v =
     (let obj = inner_doc Q v; isGroup = (int_of Q obj ''msgid'' = code GROUP_CHAT_MSG);
          matchId = (if isGroup then int_of Q obj ''groupid'' else int_of Q obj ''id'')
      in if isGroup = w_currentIsGroup w \<and> matchId = w_currentTargetId w then addMessage (doc_msg Q obj) w else w)"

lemma onRelogin_replay:
  "onRelogin Q vs w =
     (let w1 = apply_badges (foldl (merge_offline Q) (setStatus True w) vs) in
      if w_currentTargetId w1 \<noteq> -1 then foldl (replay_offline Q) w1 vs else w1)"
  by (simp add: onRelogin_def replay_offline_def [abs_def] Let_def)

lemma replay_view:
  assumes "is_chat Q v"
  shows "replay_offline Q w v =
    (if is_for Q (w_currentTargetId w) (w_currentIsGroup w) v then addMessage (doc_msg Q (inner_doc Q v)) w else w)"
  using assms codes_differ by (auto simp: replay_offline_def is_for_def is_chat_def Let_def simp del: code.simps)

lemma addMessage_frame [simp]:
  "w_pane (addMessage cm w) = w_pane w @ [cm]"
  "w_currentTargetId (addMessage cm w) = w_currentTargetId w"
  "w_currentIsGroup (addMessage cm w) = w_currentIsGroup w"
  "w_friendMsgHistory (addMessage cm w) = w_friendMsgHistory w"
  "w_groupMsgHistory (addMessage cm w) = w_groupMsgHistory w"
  "history (addMessage cm w) t g = history w t g"
  by (simp_all add: addMessage_def history_def)

lemma replays_view:
  assumes "\<forall>v\<in>set vs. is_chat Q v"
  shows "chat_view (foldl (replay_offline Q) w vs) =
    (w_currentTargetId w, w_currentIsGroup w,
     w_pane w @ map (\<lambda>v. doc_msg Q (inner_doc Q v)) (filter (is_for Q (w_currentTargetId w) (w_currentIsGroup w)) vs),
     w_friendMsgHistory w, w_groupMsgHistory w)"
  using assms by (induction vs arbitrary: w) (auto simp: replay_view chat_view_def)

lemma chat_viewD:
  assumes "chat_view w = chat_view w'"
  shows "w_pane w = w_pane w'" "w_currentTargetId w = w_currentTargetId w'" "w_currentIsGroup w = w_currentIsGroup w'"
    "history w = history w'"
  using assms chat_view_history [OF assms] by (simp_all add: chat_view_def)

lemma relogin_ok:
  assumes ok: "chat_ok w" and vs: "\<forall>v\<in>set vs. is_chat Q v"
  shows "chat_ok (onRelogin Q vs w)"
proof -
  define w0 where "w0 = foldl (merge_offline Q) (setStatus True w) vs"
  define w1 where "w1 = apply_badges w0"
  define t g where tg: "t = w_currentTargetId w" "g = w_currentIsGroup w"
  define ms where "ms = map (\<lambda>v. doc_msg Q (inner_doc Q v)) (filter (is_for Q t g) vs)"
  have s: "chat_view (setStatus True w) = chat_view w" by simp
  have b: "chat_view w1 = chat_view w0" by (simp add: w1_def)
  have w1: "w_pane w1 = w_pane w" "w_currentTargetId w1 = t" "w_currentIsGroup w1 = g"
    by (simp_all add: chat_viewD [OF b] w0_def chat_viewD [OF s] tg)
  have h1: "history w1 t' g' = foldl hist_add (history w t' g') (map (\<lambda>v. doc_msg Q (inner_doc Q v)) (filter (is_for Q t' g') vs))" for t' g'
    by (simp add: chat_viewD(4) [OF b] w0_def merges_history chat_viewD(4) [OF s])
  have len: "length (history w1 t' g') \<le> 500" for t' g'
    using ok by (simp add: h1 hist_adds_length chat_ok_def)
  show ?thesis
  proof (cases "t = -1")
    case True
    then have "onRelogin Q vs w = w1" by (simp add: onRelogin_replay w1 flip: w0_def w1_def)
    then show ?thesis using len True by (simp add: chat_ok_def w1)
  next
    case False
    define w2 where "w2 = foldl (replay_offline Q) w1 vs"
    have e: "onRelogin Q vs w = w2" using False by (simp add: onRelogin_replay w1 w2_def flip: w0_def w1_def)
    have v2: "chat_view w2 = (t, g, w_pane w @ ms, w_friendMsgHistory w1, w_groupMsgHistory w1)"
      using replays_view [OF vs, of w1] by (simp add: w2_def w1 ms_def)
    then have f2: "w_currentTargetId w2 = t" "w_currentIsGroup w2 = g" "w_pane w2 = w_pane w @ ms" "history w2 t' g' = history w1 t' g'" for t' g'
      by (auto simp: chat_view_def history_def)
    have "suffix (history w t g) (w_pane w)" using ok False by (simp add: chat_ok_def tg)
    from hist_adds_suffix [OF this, of ms] have "suffix (history w1 t g) (w_pane w @ ms)" by (simp add: h1 ms_def)
    then show ?thesis unfolding e using len by (simp add: chat_ok_def f2)
  qed
qed

lemma append_length:
  assumes "chat_ok w"
  shows "length (history (appendToHistory t g cm w) t' g') \<le> 500"
proof -
  have "length (history w t g) \<le> 500" "length (history w t' g') \<le> 500" using assms by (simp_all add: chat_ok_def)
  then show ?thesis unfolding history_append_add by (auto simp: hist_add_length)
qed

lemma append_other_ok:
  assumes "chat_ok w" "\<not> (t = w_currentTargetId w \<and> g = w_currentIsGroup w)"
  shows "chat_ok (appendToHistory t g cm w)"
proof -
  have "history (appendToHistory t g cm w) (w_currentTargetId w) (w_currentIsGroup w) = history w (w_currentTargetId w) (w_currentIsGroup w)"
    unfolding history_append_add by (rule if_not_P) (use assms(2) in metis)
  moreover have "w_currentTargetId w \<noteq> -1 \<longrightarrow> suffix (history w (w_currentTargetId w) (w_currentIsGroup w)) (w_pane w)"
    using assms(1) unfolding chat_ok_def by blast
  ultimately show ?thesis
    unfolding chat_ok_def using append_length [OF assms(1)] by (simp del: history_append)
qed

lemma append_shown_ok:
  assumes "chat_ok w"
  shows "chat_ok (addMessage cm (appendToHistory (w_currentTargetId w) (w_currentIsGroup w) cm w))"
proof -
  have "w_currentTargetId w \<noteq> -1 \<longrightarrow> suffix (history w (w_currentTargetId w) (w_currentIsGroup w)) (w_pane w)"
    using assms unfolding chat_ok_def by blast
  then have "w_currentTargetId w \<noteq> -1 \<longrightarrow> suffix (hist_add (history w (w_currentTargetId w) (w_currentIsGroup w)) cm) (w_pane w @ [cm])"
    using hist_add_suffix by blast
  then show ?thesis
    unfolding chat_ok_def using append_length [OF assms] by (simp add: history_append_add del: history_append suffix_snoc)
qed

lemma append_shown_swap:
  "appendToHistory t g cm (addMessage cm w) = addMessage cm (appendToHistory t g cm w)"
  by (simp add: appendToHistory_def addMessage_def history_def Let_def)

lemma replay_history: "w_pane (foldl (\<lambda>w cm. addMessage cm w) w ms) = w_pane w @ ms"
    "w_currentTargetId (foldl (\<lambda>w cm. addMessage cm w) w ms) = w_currentTargetId w"
    "w_currentIsGroup (foldl (\<lambda>w cm. addMessage cm w) w ms) = w_currentIsGroup w"
    "history (foldl (\<lambda>w cm. addMessage cm w) w ms) = history w"
  by (induction ms arbitrary: w) (auto simp: fun_eq_iff)

lemma switch_view:
  "w_pane (switchToTarget t g n w) = history w t g"
  "w_currentTargetId (switchToTarget t g n w) = t"
  "w_currentIsGroup (switchToTarget t g n w) = g"
  "history (switchToTarget t g n w) = history w"
  by (auto simp: switchToTarget_def replay_history Let_def updateFriendBadge_def updateGroupBadge_def history_def fun_eq_iff)

lemma switch_ok: "chat_ok w \<Longrightarrow> chat_ok (switchToTarget t g n w)"
  by (simp add: chat_ok_def switch_view)

lemma onChatMsg_ok: "chat_ok w \<Longrightarrow> chat_ok (onChatMsg i n m t w)"
proof -
  assume ok: "chat_ok w"
  let ?m = "\<lparr>isRight = False, cm_name = n, cm_time = t, cm_text = m\<rparr>"
  show ?thesis
  proof (cases "i = w_currentTargetId w \<and> \<not> w_currentIsGroup w")
    case True
    then show ?thesis using append_shown_ok [OF ok, of ?m] by (simp add: onChatMsg_def Let_def)
  next
    case False
    then have "onChatMsg i n m t w = updateFriendBadge i (bump_friend i (appendToHistory i False ?m w))"
      by (auto simp: onChatMsg_def Let_def)
    moreover have "chat_ok (appendToHistory i False ?m w)" using append_other_ok [OF ok] False by auto
    ultimately show ?thesis by (simp add: chat_ok_cong [of "updateFriendBadge i x" x for i x] chat_ok_cong [of "bump_friend i x" x for i x])
  qed
qed

lemma onGroupMsg_ok: "chat_ok w \<Longrightarrow> chat_ok (onGroupMsg j i n m t w)"
proof -
  assume ok: "chat_ok w"
  let ?m = "\<lparr>isRight = False, cm_name = n, cm_time = t, cm_text = m\<rparr>"
  consider (self) "i = w_myId w" | (shown) "i \<noteq> w_myId w" "j = w_currentTargetId w \<and> w_currentIsGroup w"
    | (other) "i \<noteq> w_myId w" "\<not> (j = w_currentTargetId w \<and> w_currentIsGroup w)" by blast
  then show ?thesis
  proof cases
    case self
    then show ?thesis using ok by (simp add: onGroupMsg_def)
  next
    case shown
    then show ?thesis using append_shown_ok [OF ok, of ?m] by (simp add: onGroupMsg_def Let_def)
  next
    case other
    then have "onGroupMsg j i n m t w = updateGroupBadge j (bump_group j (appendToHistory j True ?m w))"
      by (auto simp: onGroupMsg_def Let_def)
    moreover have "chat_ok (appendToHistory j True ?m w)" using append_other_ok [OF ok] other(2) by auto
    ultimately show ?thesis by (simp add: chat_ok_cong [of "updateGroupBadge i x" x for i x] chat_ok_cong [of "bump_group i x" x for i x])
  qed
qed

lemma send_ok: "chat_ok w \<Longrightarrow> chat_ok (onSendClicked S Q trim stamp input w)"
proof -
  assume ok: "chat_ok w"
  define c where "c = (if \<not> w_currentIsGroup w then client_oneChat S Q stamp (w_currentTargetId w) (trim input) (w_client w)
    else client_groupChat S Q stamp (w_currentTargetId w) (trim input) (w_client w))"
  let ?w = "w\<lparr>w_client := c\<rparr>"
  have "chat_ok ?w" using ok by (simp add: chat_ok_cong [of ?w w])
  from append_shown_ok [OF this, of "\<lparr>isRight = True, cm_name = [], cm_time = stamp, cm_text = trim input\<rparr>"] ok
  show ?thesis unfolding onSendClicked_def Let_def c_def [symmetric] append_shown_swap by simp
qed

text \<open>The slots that leave the open chat alone.\<close>

lemma chat_view_slots [simp]:
  "chat_view (onFriendStateChanged i st w) = chat_view w"
  "chat_view (onFriendAdded i n st w) = chat_view w"
  "chat_view (onGroupCreated i n w) = chat_view w"
  "chat_view (onNameUpdated i n w) = chat_view w"
  "chat_view (onAddFriendClicked S Q a w) = chat_view w"
  "chat_view (onCreateGroupClicked S Q d1 d2 w) = chat_view w"
  "chat_view (onAddGroupClicked S Q a w) = chat_view w"
  "chat_view (onEditNameClicked S Q trim a1 w) = chat_view w"
  "chat_view (toggleStatus S Q w) = chat_view w"
  by (simp_all add: onFriendStateChanged_def onFriendAdded_def onGroupCreated_def onNameUpdated_def onAddFriendClicked_def
      onCreateGroupClicked_def onAddGroupClicked_def onEditNameClicked_def toggleStatus_def Let_def chat_view_def setStatus_def split: option.splits)

text \<open>The offline documents of a login answer are chat messages, the only documents that are stored for an offline user.\<close>

definition event_ok :: "qjson \<Rightarrow> wevent \<Rightarrow> bool" where
  "event_ok Q e = (case e of W_signal (loginSuccess i n fs gs vs) answer \<Rightarrow> list_all (is_chat Q) vs | _ \<Rightarrow> True)"

lemma slot_ok:
  assumes "chat_ok w" "event_ok Q (W_signal s a)"
  shows "chat_ok (widget_slot S Q trim a s w)"
  using assms
  by (cases s) (auto simp: widget_slot_def onGroupJoined_def event_ok_def onChatMsg_ok onGroupMsg_ok list_all_iff intro!: relogin_ok
      simp: chat_ok_cong [OF chat_view_slots(1)] chat_ok_cong [OF chat_view_slots(2)] chat_ok_cong [OF chat_view_slots(3)]
      chat_ok_cong [OF chat_view_slots(4)] chat_ok_cong [OF chat_view_slots(8)] chat_ok_cong [OF chat_view_frame(5)])

lemma widget_event_ok:
  assumes "chat_ok w" "event_ok Q e"
  shows "chat_ok (widget_event S Q trim e w)"
  using assms by (cases e) (simp_all add: widget_event_def eventFilter_def slot_ok send_ok onTreeItemClicked_def switch_ok
      chat_ok_cong [OF chat_view_slots(5)] chat_ok_cong [OF chat_view_slots(6)] chat_ok_cong [OF chat_view_slots(7)]
      chat_ok_cong [OF chat_view_slots(8)] chat_ok_cong [OF chat_view_slots(9)])

lemma new_widget_ok: "chat_ok (new_widget Q c me name fs gs vs)"
proof -
  define w0 where "w0 = \<lparr>w_client = c, w_myId = me, w_userName = name, w_pendingNewName = [], w_currentTargetId = -1,
            w_currentTargetName = [], w_currentIsGroup = False, w_online = True, w_unreadFriend = [], w_unreadGroup = [],
            w_friendMsgHistory = [], w_groupMsgHistory = [], w_friends = [], w_groups = [], w_pane = [],
            w_title = ''Select a friend or group''\<rparr>"
  define w1 where "w1 = foldl (merge_offline Q) w0 vs"
  have "chat_view (new_widget Q c me name fs gs vs) = chat_view w1"
    unfolding new_widget_def Let_def w0_def [symmetric] w1_def [symmetric] by simp
  then have "chat_ok (new_widget Q c me name fs gs vs) = chat_ok w1" by (rule chat_ok_cong)
  moreover have "history w0 t g = []" "w_currentTargetId w0 = -1" for t g by (simp_all add: w0_def history_def)
  ultimately show ?thesis by (simp add: chat_ok_def w1_def merges_history hist_adds_length)
qed

lemma widget_run_ok:
  assumes "chat_ok w" "list_all (event_ok Q) es"
  shows "chat_ok (widget_run S Q trim es w)"
  using assms by (induction es arbitrary: w) (simp_all add: widget_run_def widget_event_ok)

subsection \<open>Badges\<close>

text \<open>The badge of the first item with the id \<open>i\<close>.\<close>

definition badge_of :: "entry list \<Rightarrow> int \<Rightarrow> int option" where
  "badge_of es i = map_of (map (\<lambda>e. (e_id e, e_badge e)) es) i"

lemma badge_none: "badge_of es i = None \<longleftrightarrow> i \<notin> e_id ` set es"
  by (induction es) (auto simp: badge_of_def)

lemma badge_change:
  "badge_of (change_first i (\<lambda>e. e\<lparr>e_badge := v\<rparr>) es) j = (if j = i \<and> badge_of es i \<noteq> None then Some v else badge_of es j)"
  by (induction es) (auto simp: badge_of_def)

lemma badges_fold:
  "badge_of (foldl (\<lambda>es i. change_first i (\<lambda>e. e\<lparr>e_badge := map_value m i 0\<rparr>) es) es ks) j =
     (if j \<in> set ks \<and> badge_of es j \<noteq> None then Some (map_value m j 0) else badge_of es j)"
  by (induction ks arbitrary: es) (auto simp: badge_change)

lemma updates_fold:
  "foldl (\<lambda>w i. updateFriendBadge i w) w ks =
     w\<lparr>w_friends := foldl (\<lambda>es i. change_first i (\<lambda>e. e\<lparr>e_badge := map_value (w_unreadFriend w) i 0\<rparr>) es) (w_friends w) ks\<rparr>"
  "foldl (\<lambda>w i. updateGroupBadge i w) w ks =
     w\<lparr>w_groups := foldl (\<lambda>es i. change_first i (\<lambda>e. e\<lparr>e_badge := map_value (w_unreadGroup w) i 0\<rparr>) es) (w_groups w) ks\<rparr>"
  by (induction ks arbitrary: w) (simp_all add: updateFriendBadge_def updateGroupBadge_def)

lemma apply_badges_friend:
  assumes "badge_of (w_friends w) i = Some 0"
  shows "badge_of (w_friends (apply_badges w)) i = Some (map_value (w_unreadFriend w) i 0)"
proof (cases "i \<in> fst ` set (w_unreadFriend w)")
  case True
  then show ?thesis using assms by (simp add: apply_badges_def updates_fold badges_fold)
next
  case False
  then have "map_value (w_unreadFriend w) i 0 = 0" by (simp add: map_value_def map_of_eq_None_iff [symmetric])
  with False show ?thesis using assms by (simp add: apply_badges_def updates_fold badges_fold)
qed

lemma apply_badges_group:
  assumes "badge_of (w_groups w) i = Some 0"
  shows "badge_of (w_groups (apply_badges w)) i = Some (map_value (w_unreadGroup w) i 0)"
proof (cases "i \<in> fst ` set (w_unreadGroup w)")
  case True
  then show ?thesis using assms by (simp add: apply_badges_def updates_fold badges_fold)
next
  case False
  then have "map_value (w_unreadGroup w) i 0 = 0" by (simp add: map_value_def map_of_eq_None_iff [symmetric])
  with False show ?thesis using assms by (simp add: apply_badges_def updates_fold badges_fold)
qed

lemma load_badges:
  "badge_of (loadFriends Q fs) i = (if i \<in> (\<lambda>v. int_of Q (inner_doc Q v) ''id'') ` set fs then Some 0 else None)"
  "badge_of (loadGroups Q fs) i = (if i \<in> (\<lambda>v. int_of Q (inner_doc Q v) ''id'') ` set fs then Some 0 else None)"
  by (induction fs) (auto simp: badge_of_def loadFriends_def loadGroups_def Let_def)

text \<open>The label of the first item with the id \<open>i\<close>.\<close>

definition text_of :: "entry list \<Rightarrow> int \<Rightarrow> string option" where
  "text_of es i = map_of (map (\<lambda>e. (e_id e, e_text e)) es) i"

lemma text_none: "text_of es i = None \<longleftrightarrow> i \<notin> e_id ` set es"
  by (induction es) (auto simp: text_of_def)

lemma text_change:
  "text_of (change_first i (\<lambda>e. e\<lparr>e_text := f (e_text e)\<rparr>) es) j = (if j = i then map_option f (text_of es i) else text_of es j)"
  by (induction es) (auto simp: text_of_def)

lemma badge_text: "badge_of es i = None \<longleftrightarrow> text_of es i = None"
  by (simp add: badge_none text_none)

subsection \<open>A concrete account\<close>

text \<open>Account 1 with the friend 2, the group 3, and an offline message of each.\<close>

definition demo_friend :: json where
  "demo_friend = JObj [(''id'', JInt 2), (''name'', JStr ''bob''), (''state'', JStr ''online'')]"

definition demo_team :: json where
  "demo_team = JObj [(''id'', JInt 3), (''groupname'', JStr ''team'')]"

definition demo_texts :: "json list" where
  "demo_texts = [
     JObj [(''msgid'', JInt 6), (''id'', JInt 2), (''name'', JStr ''bob''), (''time'', JStr ''t''), (''msg'', JStr ''hi'')],
     JObj [(''msgid'', JInt 10), (''id'', JInt 2), (''groupid'', JInt 3), (''name'', JStr ''bob''), (''time'', JStr ''t''), (''msg'', JStr ''all'')]]"

definition demo_q :: qjson where
  "demo_q = ref_qjson (demo_friend # demo_team # demo_texts)"

definition demo_window :: "sock_state widget" where
  "demo_window = new_widget demo_q demo_client 1 ''ann'' [JStr (ref_dump demo_friend)] [JStr (ref_dump demo_team)]
     (map (\<lambda>d. JStr (ref_dump d)) demo_texts)"

lemma demo_inner:
  "inner_doc demo_q (JStr (ref_dump demo_friend)) = demo_friend"
  "inner_doc demo_q (JStr (ref_dump demo_team)) = demo_team"
  "map (inner_doc demo_q) (map (\<lambda>d. JStr (ref_dump d)) demo_texts) = demo_texts"
  by code_simp+

subsection \<open>Properties\<close>

text \<open>
  (C13) The open chat shows its history: whatever messages, answers, notices and clicks reach the
  window, no history exceeds 500 messages and the pane of the open chat ends with the whole
  history of that friend or group, messages received while offline included, in order.
\<close>

theorem open_chat_shown:
  assumes "list_all (event_ok Q) es"
  shows "let w = widget_run S Q trim es (new_widget Q c me name fs gs vs) in
    (\<forall>t g. length (history w t g) \<le> 500) \<and>
    (w_currentTargetId w \<noteq> -1 \<longrightarrow> suffix (history w (w_currentTargetId w) (w_currentIsGroup w)) (w_pane w))"
  using widget_run_ok [OF new_widget_ok assms] by (simp add: chat_ok_def Let_def)

text \<open>
  (C35) A window opened by a login answer counts the offline messages: the unread counter of a
  friend or a group is the number of the answer's documents that are messages of it, each listed
  friend or group shows that number as its badge, and its history is the last 500 of them.
\<close>

theorem offline_messages_counted:
  "let w = new_widget Q c me name fs gs vs; n = (\<lambda>i g. int (length (filter (is_for Q i g) vs))) in
    (\<forall>i. map_value (w_unreadFriend w) i 0 = n i False \<and> map_value (w_unreadGroup w) i 0 = n i True) \<and>
    (\<forall>i\<in>(\<lambda>v. int_of Q (inner_doc Q v) ''id'') ` set fs. badge_of (w_friends w) i = Some (n i False)) \<and>
    (\<forall>i\<in>(\<lambda>v. int_of Q (inner_doc Q v) ''id'') ` set gs. badge_of (w_groups w) i = Some (n i True)) \<and>
    (\<forall>i g. history w i g = foldl hist_add [] (map (\<lambda>v. doc_msg Q (inner_doc Q v)) (filter (is_for Q i g) vs)))"
proof -
  define w0 where "w0 = \<lparr>w_client = c, w_myId = me, w_userName = name, w_pendingNewName = [], w_currentTargetId = -1,
            w_currentTargetName = [], w_currentIsGroup = False, w_online = True, w_unreadFriend = [], w_unreadGroup = [],
            w_friendMsgHistory = [], w_groupMsgHistory = [], w_friends = [], w_groups = [], w_pane = [],
            w_title = ''Select a friend or group''\<rparr>"
  define w1 where "w1 = setStatus True (foldl (merge_offline Q) w0 vs)"
  define w2 where "w2 = w1\<lparr>w_friends := loadFriends Q fs, w_groups := loadGroups Q gs\<rparr>"
  define w where "w = apply_badges w2"
  have nw: "new_widget Q c me name fs gs vs = w"
    unfolding new_widget_def Let_def w0_def [symmetric] w1_def [symmetric] w_def w2_def by simp
  have un: "map_value (w_unreadFriend w2) i 0 = int (length (filter (is_for Q i False) vs))"
    "map_value (w_unreadGroup w2) i 0 = int (length (filter (is_for Q i True) vs))" for i
    by (simp_all add: w2_def w1_def setStatus_def merges_unread) (simp_all add: w0_def)
  have un': "w_unreadFriend w = w_unreadFriend w2" "w_unreadGroup w = w_unreadGroup w2"
    by (simp_all add: w_def apply_badges_def updates_fold)
  have fr: "badge_of (w_friends w) i = Some (int (length (filter (is_for Q i False) vs)))"
    if "i \<in> (\<lambda>v. int_of Q (inner_doc Q v) ''id'') ` set fs" for i
    unfolding w_def un(1) [symmetric] by (rule apply_badges_friend) (simp add: w2_def load_badges that)
  have gr: "badge_of (w_groups w) i = Some (int (length (filter (is_for Q i True) vs)))"
    if "i \<in> (\<lambda>v. int_of Q (inner_doc Q v) ''id'') ` set gs" for i
    unfolding w_def un(2) [symmetric] by (rule apply_badges_group) (simp add: w2_def load_badges that)
  have "chat_view w = chat_view (foldl (merge_offline Q) w0 vs)" by (simp add: w_def w2_def w1_def)
  from chat_viewD(4) [OF this] have "history w i g = foldl hist_add [] (map (\<lambda>v. doc_msg Q (inner_doc Q v)) (filter (is_for Q i g) vs))" for i g
    by (simp add: merges_history) (simp add: w0_def history_def)
  with un un' fr gr show ?thesis unfolding nw Let_def by simp
qed


theorem open_chat_shown_witness:
  "let w = widget_run ref_socket demo_q (\<lambda>s. s)
       [W_signal (loginSuccess 1 ''ann'' [] [] (map (\<lambda>d. JStr (ref_dump d)) demo_texts)) None]
       (new_widget demo_q demo_client 1 ''ann'' [] [] []) in
    (\<forall>t g. length (history w t g) \<le> 500) \<and>
    (w_currentTargetId w \<noteq> -1 \<longrightarrow> suffix (history w (w_currentTargetId w) (w_currentIsGroup w)) (w_pane w))"
proof (rule open_chat_shown)
  show "list_all (event_ok demo_q) [W_signal (loginSuccess 1 ''ann'' [] [] (map (\<lambda>d. JStr (ref_dump d)) demo_texts)) None]"
    by code_simp
qed

theorem offline_messages_counted_witness:
  "badge_of (w_friends demo_window) 2 = Some 1 \<and> badge_of (w_groups demo_window) 3 = Some 1"
proof -
  let ?vs = "map (\<lambda>d. JStr (ref_dump d)) demo_texts"
  have i: "2 \<in> (\<lambda>v. int_of demo_q (inner_doc demo_q v) ''id'') ` set [JStr (ref_dump demo_friend)]"
    "3 \<in> (\<lambda>v. int_of demo_q (inner_doc demo_q v) ''id'') ` set [JStr (ref_dump demo_team)]"
    by code_simp+
  have n: "length (filter (is_for demo_q 2 False) ?vs) = 1" "length (filter (is_for demo_q 3 True) ?vs) = 1"
    by code_simp+
  show ?thesis
    using offline_messages_counted [of demo_q demo_client 1 "''ann''" "[JStr (ref_dump demo_friend)]" "[JStr (ref_dump demo_team)]" ?vs] i n
    unfolding Let_def demo_window_def [symmetric] by fastforce
qed

text \<open>
  (C34) A message of a friend whose chat is not open is not shown: it is counted on the friend's
  badge; a click on the friend shows it as the last message and clears the badge.
\<close>

theorem unread_then_opened:
  assumes "\<not> (i = w_currentTargetId w \<and> \<not> w_currentIsGroup w)" and "i \<in> e_id ` set (w_friends w)" and "e_id e = i"
  shows "let w1 = onChatMsg i name msg time w; w2 = onTreeItemClicked False e w1 in
    w_pane w1 = w_pane w \<and> badge_of (w_friends w1) i = Some (map_value (w_unreadFriend w) i 0 + 1) \<and>
    (\<exists>older. w_pane w2 = older @ [\<lparr>isRight = False, cm_name = name, cm_time = time, cm_text = msg\<rparr>]) \<and>
    badge_of (w_friends w2) i = Some 0"
proof -
  let ?m = "\<lparr>isRight = False, cm_name = name, cm_time = time, cm_text = msg\<rparr>"
  define w1 where "w1 = onChatMsg i name msg time w"
  have w1: "w1 = updateFriendBadge i (bump_friend i (appendToHistory i False ?m w))"
    using assms(1) by (auto simp: w1_def onChatMsg_def Let_def)
  have shown: "badge_of (w_friends w) i \<noteq> None" using assms(2) by (simp add: badge_none)
  have f1: "w_pane w1 = w_pane w" "badge_of (w_friends w1) i = Some (map_value (w_unreadFriend w) i 0 + 1)"
    using shown by (simp_all add: w1 updateFriendBadge_def bump_friend_def badge_change)
  have "chat_view w1 = chat_view (appendToHistory i False ?m w)" by (simp add: w1)
  from chat_viewD(4) [OF this] have h: "history w1 i False = hist_add (history w i False) ?m"
    by (simp add: history_append_add del: history_append)
  have add: "\<exists>older. hist_add h m = older @ [m]" for h m by (cases h) (auto simp: hist_add_def)
  have "badge_of (w_friends (switchToTarget i False n w1)) i = Some 0" for n
  proof -
    have fr: "w_friends (foldl (\<lambda>w cm. addMessage cm w) v ms) = w_friends v" for v :: "'a widget" and ms
      by (induction ms arbitrary: v) (simp_all add: addMessage_def)
    show ?thesis using f1(2) by (simp add: switchToTarget_def Let_def fr updateFriendBadge_def badge_change)
  qed
  with f1 h add show ?thesis
    unfolding Let_def w1_def [symmetric] by (auto simp: onTreeItemClicked_def switch_view assms(3))
qed

theorem unread_then_opened_witness:
  "badge_of (w_friends (onChatMsg 2 ''bob'' ''hey'' ''now'' demo_window)) 2 = Some 2 \<and>
   badge_of (w_friends (onTreeItemClicked False (hd (w_friends demo_window)) (onChatMsg 2 ''bob'' ''hey'' ''now'' demo_window))) 2 = Some 0"
proof -
  have h: "w_currentTargetId demo_window = -1" "2 \<in> e_id ` set (w_friends demo_window)" "e_id (hd (w_friends demo_window)) = 2"
    "map_value (w_unreadFriend demo_window) 2 0 = 1"
    by code_simp+
  show ?thesis using unread_then_opened [of 2 demo_window "hd (w_friends demo_window)" "''bob''" "''hey''" "''now''"] h
    by (simp add: Let_def)
qed

text \<open>
  A state notice rewrites one label: the first friend with the id shows its name, up to the
  first bracket, with the new state. When no friend is listed under the id, it is the group with
  the same number whose label becomes a friend's.
\<close>

theorem state_notice_labels:
  "let w' = onFriendStateChanged i state w; f = (\<lambda>l. before_bracket l @ '' ['' @ state @ '']'') in
    (\<forall>j. text_of (w_friends w') j = (if j = i then map_option f (text_of (w_friends w) i) else text_of (w_friends w) j)) \<and>
    (text_of (w_friends w) i \<noteq> None \<longrightarrow> w_groups w' = w_groups w) \<and>
    (text_of (w_friends w) i = None \<longrightarrow> text_of (w_groups w') i = map_option f (text_of (w_groups w) i))"
proof -
  define f where "f = (\<lambda>l. before_bracket l @ '' ['' @ state @ '']'')"
  have c: "onFriendStateChanged i state w =
    (if text_of (w_friends w) i \<noteq> None then w\<lparr>w_friends := change_first i (\<lambda>e. e\<lparr>e_text := f (e_text e)\<rparr>) (w_friends w)\<rparr>
     else w\<lparr>w_groups := change_first i (\<lambda>e. e\<lparr>e_text := f (e_text e)\<rparr>) (w_groups w)\<rparr>)"
    by (simp add: onFriendStateChanged_def friend_text_def Let_def f_def text_none)
  show ?thesis unfolding Let_def f_def [symmetric] c by (simp add: text_change)
qed

theorem state_notice_labels_witness:
  "text_of (w_friends (onFriendStateChanged 2 ''offline'' demo_window)) 2 = Some ''bob [offline]'' \<and>
   text_of (w_groups (onFriendStateChanged 3 ''offline'' demo_window)) 3 = Some ''team [offline]''"
proof -
  have h: "text_of (w_friends demo_window) 2 = Some ''bob [online]''" "text_of (w_friends demo_window) 3 = None"
    "text_of (w_groups demo_window) 3 = Some ''team''"
    by code_simp+
  show ?thesis
    using state_notice_labels [of 2 "''offline''" demo_window] state_notice_labels [of 3 "''offline''" demo_window] h
    by (simp add: Let_def)
qed

end
