(* ===== verification/AsyncLog.thy ===== *)
theory AsyncLog
  imports Prelude Mysql
begin

section \<open>The asynchronous log\<close>

text \<open>
  \<open>CAsyncLog\<close> (\<open>AsyncLog.cpp\<close>, \<open>AsyncLog.hpp\<close>, the POSIX branches): lines are filtered by level,
  prefixed and queued; a thread takes them off the queue, prints them and writes them to a file
  that is replaced when it has grown. What \<open>vsnprintf\<close> makes of the arguments, the local time,
  thread and process ids and the results of \<open>fopen\<close> and \<open>fwrite\<close> are inputs.
\<close>

subsection \<open>Levels and state\<close>

datatype log_level = TRACE | DEBUG | INFO | WARNING | ERROR | SYSERROR | FATAL | CRITICAL

fun level_no :: "log_level \<Rightarrow> int" where
  "level_no TRACE = 0"
| "level_no DEBUG = 1"
| "level_no INFO = 2"
| "level_no WARNING = 3"
| "level_no ERROR = 4"
| "level_no SYSERROR = 5"
| "level_no FATAL = 6"
| "level_no CRITICAL = 7"

text \<open>\<open>m_hLogFile\<close> is the name of the open file; \<open>disk\<close> and \<open>console\<close> are what was written.\<close>

record alog =
  m_bTruncateLongLog :: bool
  m_hLogFile :: "string option"
  m_strFileName :: string
  m_strFileNamePID :: string
  m_nCurrentLevel :: log_level
  m_nFileRollSize :: int
  m_nCurrentWrittenSize :: int
  m_listLinesToWrite :: "string list"
  m_bConsoleOutput :: bool
  m_bExit :: bool
  m_bRunning :: bool
  disk :: "string \<rightharpoonup> string"
  console :: "string list"

definition new_log :: alog where
  "new_log = \<lparr>m_bTruncateLongLog = False, m_hLogFile = None, m_strFileName = ''default'', m_strFileNamePID = [],
     m_nCurrentLevel = INFO, m_nFileRollSize = 10 * 1024 * 1024, m_nCurrentWrittenSize = 0, m_listLinesToWrite = [],
     m_bConsoleOutput = True, m_bExit = False, m_bRunning = False, disk = Map.empty, console = []\<rparr>"

subsection \<open>Set-up\<close>

text \<open>printf's zero-padded numbers.\<close>

definition pad0 :: "nat \<Rightarrow> int \<Rightarrow> string" where
  "pad0 w n = (let s = dec_nat (nat \<bar>n\<bar>); sign = (if n < 0 then ''-'' else []) in
     sign @ replicate (w - length s - length sign) CHR ''0'' @ s)"

definition dirname :: "string \<Rightarrow> string" where
  "dirname path = (if CHR ''/'' \<in> set path
     then rev (tl (dropWhile (\<lambda>c. c \<noteq> CHR ''/'') (rev path))) else path)"

text \<open>
  \<open>init\<close>: \<open>exe\<close> is the result of \<open>readlink\<close>. A relative name is put behind the program's directory; when
  \<open>readlink\<close> fails the code reads an uninitialised buffer, which has no result. The thread that is
  started runs \<open>writer\<close> below.
\<close>

definition log_init :: "string option \<Rightarrow> int \<Rightarrow> string option \<Rightarrow> bool \<Rightarrow> int \<Rightarrow> alog \<Rightarrow> alog option" where
  "log_init exe pid name trunc roll L = do {
     let name0 = (case name of None \<Rightarrow> [] | Some s \<Rightarrow> c_str s);
     name1 \<leftarrow> (if name0 \<noteq> [] \<and> hd name0 \<noteq> CHR ''/''
       then map_option (\<lambda>p. dirname p @ ''/..'' @ ''/'' @ name0) exe else Some name0);
     Some (L\<lparr>m_bTruncateLongLog := trunc, m_nFileRollSize := roll, m_strFileName := name1,
       m_strFileNamePID := take 7 (pad0 5 pid)\<rparr>)
   }"

definition setLevel :: "int \<Rightarrow> alog \<Rightarrow> alog" where
  "setLevel n L =
     (if n < level_no TRACE \<or> n > level_no FATAL then L
      else L\<lparr>m_nCurrentLevel := [TRACE, DEBUG, INFO, WARNING, ERROR, SYSERROR, FATAL] ! nat n\<rparr>)"

definition setConsoleOutput :: "bool \<Rightarrow> alog \<Rightarrow> alog" where
  "setConsoleOutput b L = L\<lparr>m_bConsoleOutput := b\<rparr>"

subsection \<open>Files\<close>

text \<open>\<open>localtime_r\<close>, with the milliseconds of \<open>ftime\<close>.\<close>

record tm =
  tm_year :: int
  tm_mon :: int
  tm_mday :: int
  tm_hour :: int
  tm_min :: int
  tm_sec :: int
  millitm :: int

definition getTime :: "tm \<Rightarrow> string" where
  "getTime t = take 63 (''['' @ pad0 4 (tm_year t + 1900) @ ''-'' @ pad0 2 (tm_mon t + 1) @ ''-'' @ pad0 2 (tm_mday t) @ '' '' @
     pad0 2 (tm_hour t) @ '':'' @ pad0 2 (tm_min t) @ '':'' @ pad0 2 (tm_sec t) @ '':'' @ pad0 3 (millitm t) @ '']'')"

text \<open>The name of a new file has the time in seconds.\<close>

definition file_name :: "tm \<Rightarrow> alog \<Rightarrow> string" where
  "file_name t L = m_strFileName L @ ''.'' @ pad0 4 (tm_year t + 1900) @ pad0 2 (tm_mon t + 1) @ pad0 2 (tm_mday t) @
     pad0 2 (tm_hour t) @ pad0 2 (tm_min t) @ pad0 2 (tm_sec t) @ ''.'' @ m_strFileNamePID L @ ''.log''"

definition createNewFile :: "bool \<Rightarrow> string \<Rightarrow> alog \<Rightarrow> bool \<times> alog" where
  "createNewFile opens name L =
     (if opens then (True, L\<lparr>m_hLogFile := Some name, disk := (disk L)(name \<mapsto> [])\<rparr>)
      else (False, L\<lparr>m_hLogFile := None\<rparr>))"

text \<open>The loop of \<open>writeToFile\<close>: call \<open>k\<close> of \<open>fwrite\<close> takes at most \<open>fw k\<close> bytes.\<close>

function write_loop :: "(nat \<Rightarrow> nat) \<Rightarrow> nat \<Rightarrow> string \<Rightarrow> bool \<times> string" where
  "write_loop fw k s =
     (let ret = min (fw k) (length s) in
      if ret = 0 then (False, [])
      else if drop ret s = [] then (True, take ret s)
      else (let (ok, w) = write_loop fw (Suc k) (drop ret s) in (ok, take ret s @ w)))"
  by pat_completeness auto
termination
  by (relation "measure (\<lambda>(fw, k, s). length s)") auto

declare write_loop.simps [simp del]

text \<open>Writing through a null \<open>FILE *\<close> has no result.\<close>

definition writeToFile :: "(nat \<Rightarrow> nat) \<Rightarrow> string \<Rightarrow> alog \<Rightarrow> (bool \<times> alog) option" where
  "writeToFile fw line L = (case m_hLogFile L of
      None \<Rightarrow> None
    | Some f \<Rightarrow> (let (ok, w) = write_loop fw 0 line in
        Some (ok, L\<lparr>disk := (disk L)(f \<mapsto> (case disk L f of Some s \<Rightarrow> s | None \<Rightarrow> []) @ w)\<rparr>)))"

subsection \<open>Logging a line\<close>

fun level_tag :: "log_level \<Rightarrow> string" where
  "level_tag TRACE = ''[TRACE]''"
| "level_tag DEBUG = ''[DEBUG]''"
| "level_tag INFO = ''[INFO]''"
| "level_tag WARNING = ''[WARN]''"
| "level_tag ERROR = ''[ERROR]''"
| "level_tag SYSERROR = ''[SYSE]''"
| "level_tag FATAL = ''[FATAL]''"
| "level_tag CRITICAL = ''[CRITICAL]''"

definition makeLinePrefix :: "log_level \<Rightarrow> tm \<Rightarrow> string \<Rightarrow> string" where
  "makeLinePrefix lvl t thread = level_tag lvl @ getTime t @ snprintf_buf 32 ''[%s]'' [CStr thread]"

text \<open>The signature of a log call: nothing, or the file and line of the macro.\<close>

definition signature :: "(string \<times> int) option \<Rightarrow> string" where
  "signature src = (case src of None \<Rightarrow> [] | Some (f, n) \<Rightarrow> snprintf_buf 512 ''[%s:%d]'' [CStr f, CInt n])"

definition log_line :: "log_level \<Rightarrow> tm \<Rightarrow> string \<Rightarrow> (string \<times> int) option \<Rightarrow> string \<Rightarrow> alog \<Rightarrow> string" where
  "log_line lvl t thread src msg L =
     makeLinePrefix lvl t thread @ signature src @ (if m_bTruncateLongLog L then take 256 msg else msg) @
     (if m_strFileName L \<noteq> [] then [CHR 0x0A] else [])"

datatype log_result = Returned bool | Crashed

text \<open>
  \<open>output\<close>. A line below the current level is dropped unless it is critical; a fatal line is
  written at once, then the program is made to crash, unless no file can be opened for it.
\<close>

definition log_output :: "log_level \<Rightarrow> tm \<Rightarrow> string \<Rightarrow> (string \<times> int) option \<Rightarrow> string \<Rightarrow> bool \<Rightarrow> (nat \<Rightarrow> nat) \<Rightarrow> alog \<Rightarrow>
    (log_result \<times> alog) option" where
  "log_output lvl t thread src msg opens fw L =
     (if lvl \<noteq> CRITICAL \<and> level_no lvl < level_no (m_nCurrentLevel L) then Some (Returned False, L)
      else (let line = log_line lvl t thread src msg L in
        if lvl \<noteq> FATAL then Some (Returned True, L\<lparr>m_listLinesToWrite := m_listLinesToWrite L @ [line]\<rparr>)
        else (let L1 = (if m_bConsoleOutput L then L\<lparr>console := console L @ [line]\<rparr> else L) in
          if m_strFileName L1 \<noteq> [] then
            (let (ok, L2) = (if m_hLogFile L1 = None then createNewFile opens (file_name t L1) L1 else (True, L1)) in
             if \<not> ok then Some (Returned False, L2)
             else do { (_, L3) \<leftarrow> writeToFile fw line L2; Some (Crashed, L3) })
          else Some (Crashed, L1))))"

text \<open>
  The overload without file and line has a body of its own. It is written out here as the code
  has it; \<open>LogProps\<close> shows that it is the other one without the signature.
\<close>

definition log_output_plain :: "log_level \<Rightarrow> tm \<Rightarrow> string \<Rightarrow> string \<Rightarrow> bool \<Rightarrow> (nat \<Rightarrow> nat) \<Rightarrow> alog \<Rightarrow> (log_result \<times> alog) option" where
  "log_output_plain lvl t thread msg opens fw L =
     (if lvl \<noteq> CRITICAL \<and> level_no lvl < level_no (m_nCurrentLevel L) then Some (Returned False, L)
      else (let strMsgFormal = (if m_bTruncateLongLog L then take 256 msg else msg);
                strLine = makeLinePrefix lvl t thread @ strMsgFormal;
                strLine1 = (if m_strFileName L \<noteq> [] then strLine @ [CHR 0x0A] else strLine)
        in if lvl \<noteq> FATAL then Some (Returned True, L\<lparr>m_listLinesToWrite := m_listLinesToWrite L @ [strLine1]\<rparr>)
           else (let L1 = (if m_bConsoleOutput L then L\<lparr>console := console L @ [strLine1]\<rparr> else L) in
             if m_strFileName L1 = [] then Some (Crashed, L1)
             else if m_hLogFile L1 = None then
               (case createNewFile opens (file_name t L1) L1 of
                  (False, L2) \<Rightarrow> Some (Returned False, L2)
                | (True, L2) \<Rightarrow> do { (_, L3) \<leftarrow> writeToFile fw strLine1 L2; Some (Crashed, L3) })
             else do { (_, L2) \<leftarrow> writeToFile fw strLine1 L1; Some (Crashed, L2) })))"

subsection \<open>Binary dumps\<close>

text \<open>
  \<open>formLog\<close> writes into \<open>char szbuf[size_buf]\<close>; an index past its end has no result. The state of
  its loop: the row number, the write position, the bytes done, the length of the last row head
  and the buffer. \<open>strcat\<close> appends at the first zero byte, and writes one behind the text.
\<close>

definition ullto4Str :: "int \<Rightarrow> string" where
  "ullto4Str n = pad0 6 (n mod 2 ^ 32)"

definition put_char :: "char \<Rightarrow> nat \<times> string \<Rightarrow> (nat \<times> string) option" where
  "put_char c lb = (if fst lb < length (snd lb) then Some (Suc (fst lb), (snd lb)[fst lb := c]) else None)"

definition strcat :: "string \<Rightarrow> string \<Rightarrow> string option" where
  "strcat buf s = (let n = length (c_str buf) in
     if n + length s < length buf then Some (take n buf @ s @ CHR 0x00 # drop (Suc (n + length s)) buf) else None)"

definition hex_digit :: "nat \<Rightarrow> char" where
  "hex_digit d = ''0123456789abcdef'' ! d"

definition dump_byte :: "nat \<Rightarrow> int \<times> nat \<times> (nat \<times> string) \<Rightarrow> char \<Rightarrow> (int \<times> nat \<times> (nat \<times> string)) option" where
  "dump_byte lsize st byte = (case st of (index, headlen, lb) \<Rightarrow> do {
     (index1, headlen1, lb1) \<leftarrow>
       (if lsize mod 32 = 0 then do {
          (len1, buf1) \<leftarrow> (if headlen \<noteq> 0 then put_char CHR 0x0A lb else Some lb);
          let szhead = ullto4Str index @ '' '';
          buf2 \<leftarrow> strcat buf1 szhead;
          Some (index + 1, length szhead, (len1 + length szhead, buf2))
        } else Some (index, headlen, lb));
     lb2 \<leftarrow> (if lsize mod 16 = 0 \<and> headlen1 \<noteq> 0 then put_char CHR '' '' lb1 else Some lb1);
     lb3 \<leftarrow> put_char (hex_digit (of_char byte div 16 mod 16)) lb2;
     lb4 \<leftarrow> put_char (hex_digit (of_char byte mod 16)) lb3;
     Some (index1, headlen1, lb4)
   })"

fun form_loop :: "nat \<Rightarrow> string \<Rightarrow> int \<times> nat \<times> (nat \<times> string) \<Rightarrow> (int \<times> nat \<times> (nat \<times> string)) option" where
  "form_loop lsize [] st = Some st"
| "form_loop lsize (b # bs) st =
     (if fst (snd (snd st)) + 10 < length (snd (snd (snd st))) then do { st1 \<leftarrow> dump_byte lsize st b; form_loop (Suc lsize) bs st1 }
      else Some st)"

definition formLog :: "int \<Rightarrow> nat \<Rightarrow> string \<Rightarrow> (int \<times> string) option" where
  "formLog index size_buf bytes = do {
     (index1, headlen, lb) \<leftarrow> form_loop 0 bytes (index, 0, (0, replicate size_buf (CHR 0x00)));
     lb1 \<leftarrow> put_char CHR 0x0A lb;
     lb2 \<leftarrow> put_char (CHR 0x00) lb1;
     Some (index1, snd lb2)
   }"

text \<open>\<open>outputBinary\<close>: pieces of 512 bytes, each through a buffer of \<open>512 * 3 + 8\<close>.\<close>

function binary_text :: "int \<Rightarrow> string \<Rightarrow> string option" where
  "binary_text index bytes =
     (if bytes = [] then Some []
      else (case formLog index (512 * 3 + 8) (take 512 bytes) of
          None \<Rightarrow> None
        | Some (index1, szbuf) \<Rightarrow> (case binary_text index1 (drop 512 bytes) of
            None \<Rightarrow> None | Some rest \<Rightarrow> Some (c_str szbuf @ rest))))"
  by pat_completeness auto
termination
  by (relation "measure (\<lambda>(i, b). length b)") auto

declare binary_text.simps [simp del]

definition outputBinary :: "int \<Rightarrow> string \<Rightarrow> alog \<Rightarrow> alog option" where
  "outputBinary address bytes L = do {
     body \<leftarrow> binary_text 0 bytes;
     let line = ''address['' @ dec_int address @ ''] size['' @ dec_int (int (length bytes)) @ ''] '' @ [CHR 0x0A] @ body;
     Some (L\<lparr>m_listLinesToWrite := m_listLinesToWrite L @ [line]\<rparr>)
   }"

subsection \<open>The writer thread\<close>

text \<open>Before it looks at the queue, the thread replaces a missing or full file.\<close>

definition needs_file :: "alog \<Rightarrow> bool" where
  "needs_file L \<longleftrightarrow> m_strFileName L \<noteq> [] \<and> (m_hLogFile L = None \<or> m_nCurrentWrittenSize L \<ge> m_nFileRollSize L)"

definition rollover :: "bool \<Rightarrow> tm \<Rightarrow> alog \<Rightarrow> bool \<times> alog" where
  "rollover opens t L =
     (if needs_file L then createNewFile opens (file_name t L) (L\<lparr>m_nCurrentWrittenSize := 0\<rparr>) else (True, L))"

text \<open>A line off the queue: to the console and to the file; false ends the thread.\<close>

definition write_out :: "(nat \<Rightarrow> nat) \<Rightarrow> string \<Rightarrow> alog \<Rightarrow> (bool \<times> alog) option" where
  "write_out fw line L =
     (let L1 = (if m_bConsoleOutput L then L\<lparr>console := console L @ [line]\<rparr> else L) in
      if m_strFileName L1 \<noteq> [] then do {
        (ok, L2) \<leftarrow> writeToFile fw line L1;
        Some (ok, if ok then L2\<lparr>m_nCurrentWrittenSize := m_nCurrentWrittenSize L2 + int (length line)\<rparr> else L2)
      } else Some (True, L1))"

text \<open>The end of \<open>uninit\<close>, after the join.\<close>

definition closeFile :: "alog \<Rightarrow> alog" where
  "closeFile L = (if m_hLogFile L \<noteq> None then L\<lparr>m_hLogFile := None\<rparr> else L)"

lemma closeFile_simps [simp]:
  "m_hLogFile (closeFile L) = None" "m_strFileName (closeFile L) = m_strFileName L"
  "m_nFileRollSize (closeFile L) = m_nFileRollSize L" "m_nCurrentWrittenSize (closeFile L) = m_nCurrentWrittenSize L"
  "m_listLinesToWrite (closeFile L) = m_listLinesToWrite L" "m_bConsoleOutput (closeFile L) = m_bConsoleOutput L"
  "m_bExit (closeFile L) = m_bExit L" "disk (closeFile L) = disk L" "console (closeFile L) = console L"
  by (simp_all add: closeFile_def)

text \<open>
  Where the thread is: before the file check, before it takes the lock, between the test of
  \<open>m_bExit\<close> and the wait (with the lock), waiting, with a line in hand, or returned.
\<close>

datatype writer_pc = At_top | At_lock | About_to_wait | Waiting | Holding string | Finished

record log_sys =
  the_log :: alog
  writer :: writer_pc
  joining :: bool

definition wake :: "writer_pc \<Rightarrow> writer_pc" where
  "wake pc = (if pc = Waiting then At_lock else pc)"

text \<open>
  \<open>W_roll\<close> carries the name of the file that was opened. A fatal line that is written ends the
  process and with it the run; \<open>P_fatal\<close> is the one whose file could not be opened.
\<close>

datatype log_event =
    W_roll "string option" | W_exit | W_empty | W_wait | W_take | W_write | W_spurious
  | P_line string | P_filtered | P_fatal | P_level int | P_console bool | U_exit | U_notify | U_close

inductive log_step :: "log_sys \<Rightarrow> log_event \<Rightarrow> log_sys \<Rightarrow> bool" where
  w_roll: "writer s = At_top \<Longrightarrow> rollover opens t ((the_log s)\<lparr>m_bRunning := True\<rparr>) = (ok, L) \<Longrightarrow>
    log_step s (W_roll (if needs_file (the_log s) \<and> ok then Some (file_name t (the_log s)) else None)) (s\<lparr>the_log := L, writer := if ok then At_lock else Finished\<rparr>)"
| w_exit: "writer s = At_lock \<Longrightarrow> m_listLinesToWrite (the_log s) = [] \<Longrightarrow> m_bExit (the_log s) \<Longrightarrow>
    log_step s W_exit (s\<lparr>writer := Finished\<rparr>)"
| w_empty: "writer s = At_lock \<Longrightarrow> m_listLinesToWrite (the_log s) = [] \<Longrightarrow> \<not> m_bExit (the_log s) \<Longrightarrow>
    log_step s W_empty (s\<lparr>writer := About_to_wait\<rparr>)"
| w_wait: "writer s = About_to_wait \<Longrightarrow> log_step s W_wait (s\<lparr>writer := Waiting\<rparr>)"
| w_take: "writer s = At_lock \<Longrightarrow> m_listLinesToWrite (the_log s) = l # ls \<Longrightarrow>
    log_step s W_take (s\<lparr>the_log := (the_log s)\<lparr>m_listLinesToWrite := ls\<rparr>, writer := Holding l\<rparr>)"
| w_write: "writer s = Holding l \<Longrightarrow> write_out fw l (the_log s) = Some (ok, L) \<Longrightarrow>
    log_step s W_write (s\<lparr>the_log := L, writer := if ok then At_top else Finished\<rparr>)"
| w_spurious: "writer s = Waiting \<Longrightarrow> log_step s W_spurious (s\<lparr>writer := At_lock\<rparr>)"
| p_log: "writer s \<noteq> About_to_wait \<Longrightarrow> lvl \<noteq> FATAL \<Longrightarrow>
    log_output lvl t thread src msg opens fw (the_log s) = Some (Returned True, L) \<Longrightarrow>
    log_step s (P_line (log_line lvl t thread src msg (the_log s))) (s\<lparr>the_log := L, writer := wake (writer s)\<rparr>)"
| p_binary: "writer s \<noteq> About_to_wait \<Longrightarrow> outputBinary address bytes (the_log s) = Some L \<Longrightarrow>
    log_step s (P_line (List.last (m_listLinesToWrite L))) (s\<lparr>the_log := L, writer := wake (writer s)\<rparr>)"
| p_filtered: "lvl \<noteq> FATAL \<Longrightarrow> log_output lvl t thread src msg opens fw (the_log s) = Some (Returned False, L) \<Longrightarrow>
    log_step s P_filtered s"
| p_fatal: "log_output FATAL t thread src msg opens fw (the_log s) = Some (Returned False, L) \<Longrightarrow>
    log_step s P_fatal (s\<lparr>the_log := L\<rparr>)"
| p_level: "log_step s (P_level n) (s\<lparr>the_log := setLevel n (the_log s)\<rparr>)"
| p_console: "log_step s (P_console b) (s\<lparr>the_log := setConsoleOutput b (the_log s)\<rparr>)"
| u_exit: "log_step s U_exit (s\<lparr>the_log := (the_log s)\<lparr>m_bExit := True\<rparr>\<rparr>)"
| u_notify: "m_bExit (the_log s) \<Longrightarrow> \<not> joining s \<Longrightarrow> log_step s U_notify (s\<lparr>writer := wake (writer s), joining := True\<rparr>)"
| u_close: "joining s \<Longrightarrow> writer s = Finished \<Longrightarrow> log_step s U_close (s\<lparr>the_log := closeFile (the_log s)\<rparr>)"

inductive log_run :: "log_sys \<Rightarrow> log_event list \<Rightarrow> log_sys \<Rightarrow> bool" where
  lrun_nil: "log_run s [] s"
| lrun_snoc: "log_run s es t \<Longrightarrow> log_step t e u \<Longrightarrow> log_run s (es @ [e]) u"

end
