(* ===== verification/LogProps.thy ===== *)
theory LogProps
  imports AsyncLog
begin

section \<open>What the log promises\<close>

text \<open>
  Lines come out once each and in order, a file does not grow past its limit by more than a
  line, a dump stays inside its buffer; and the thread's shutdown can miss its wake-up.
\<close>

inductive_cases log_stepE: "log_step s e t"

text \<open>The two bodies of \<open>output\<close> differ in the signature only.\<close>

lemma log_output_plain_eq: "log_output_plain lvl t thread msg opens fw L = log_output lvl t thread None msg opens fw L"
  by (auto simp: log_output_plain_def log_output_def log_line_def signature_def Let_def file_name_def
    split: option.split prod.split bool.split)

subsection \<open>Order\<close>

fun in_hand :: "writer_pc \<Rightarrow> string list" where
  "in_hand (Holding l) = [l]"
| "in_hand _ = []"

fun logged :: "log_event list \<Rightarrow> string list" where
  "logged [] = []"
| "logged (P_line l # es) = l # logged es"
| "logged (e # es) = logged es"

text \<open>The files that were opened, in order, and their text together.\<close>

fun opened :: "log_event list \<Rightarrow> string list" where
  "opened [] = []"
| "opened (W_roll (Some f) # es) = f # opened es"
| "opened (e # es) = opened es"

definition file_text :: "string list \<Rightarrow> alog \<Rightarrow> string" where
  "file_text fs L = concat (map (\<lambda>f. case disk L f of Some c \<Rightarrow> c | None \<Rightarrow> []) fs)"

lemma opened_append: "opened (es @ fs) = opened es @ opened fs"
  by (induction es rule: opened.induct) auto

text \<open>The console stays on and no fatal line is printed out of turn.\<close>

definition plain :: "log_event \<Rightarrow> bool" where
  "plain e \<longleftrightarrow> e \<noteq> P_console False \<and> e \<noteq> P_fatal"

lemma logged_append: "logged (es @ fs) = logged es @ logged fs"
  by (induction es rule: logged.induct) auto

lemma in_hand_wake [simp]: "in_hand (wake pc) = in_hand pc"
  by (cases pc) (auto simp: wake_def)

text \<open>What a call of the log leaves alone.\<close>

lemma createNewFile_keeps:
  "createNewFile opens n L = (ok, L') \<Longrightarrow> m_bConsoleOutput L' = m_bConsoleOutput L \<and> console L' = console L \<and>
    m_listLinesToWrite L' = m_listLinesToWrite L \<and> m_strFileName L' = m_strFileName L \<and> m_nFileRollSize L' = m_nFileRollSize L \<and>
    m_nCurrentWrittenSize L' = m_nCurrentWrittenSize L"
  by (auto simp: createNewFile_def split: if_splits)

lemma rollover_keeps:
  "rollover opens t L = (ok, L') \<Longrightarrow> m_bConsoleOutput L' = m_bConsoleOutput L \<and> console L' = console L \<and>
    m_listLinesToWrite L' = m_listLinesToWrite L \<and> m_strFileName L' = m_strFileName L \<and> m_nFileRollSize L' = m_nFileRollSize L"
  by (auto simp: rollover_def dest: createNewFile_keeps split: if_splits)

lemma setLevel_keeps:
  "m_bConsoleOutput (setLevel n L) = m_bConsoleOutput L" "console (setLevel n L) = console L" "disk (setLevel n L) = disk L"
  "m_listLinesToWrite (setLevel n L) = m_listLinesToWrite L" "m_strFileName (setLevel n L) = m_strFileName L"
  "m_nFileRollSize (setLevel n L) = m_nFileRollSize L" "m_hLogFile (setLevel n L) = m_hLogFile L"
  "m_nCurrentWrittenSize (setLevel n L) = m_nCurrentWrittenSize L" "m_bExit (setLevel n L) = m_bExit L"
  by (simp_all add: setLevel_def)

lemma setConsole_keeps:
  "m_bConsoleOutput (setConsoleOutput b L) = b" "console (setConsoleOutput b L) = console L" "disk (setConsoleOutput b L) = disk L"
  "m_listLinesToWrite (setConsoleOutput b L) = m_listLinesToWrite L" "m_strFileName (setConsoleOutput b L) = m_strFileName L"
  "m_nFileRollSize (setConsoleOutput b L) = m_nFileRollSize L" "m_hLogFile (setConsoleOutput b L) = m_hLogFile L"
  "m_nCurrentWrittenSize (setConsoleOutput b L) = m_nCurrentWrittenSize L" "m_bExit (setConsoleOutput b L) = m_bExit L"
  by (simp_all add: setConsoleOutput_def)

lemmas set_keeps [simp] = setLevel_keeps setConsole_keeps

lemma fatal_returned:
  assumes "log_output FATAL t thread src msg opens fw L = Some (Returned False, L')"
  shows "\<exists>ls. L' = L\<lparr>console := ls\<rparr>"
proof -
  have same: "K\<lparr>m_hLogFile := None\<rparr> = K" if "m_hLogFile K = None" for K :: alog using that by simp
  have "\<exists>ls. L' = (L\<lparr>console := ls\<rparr>)\<lparr>m_hLogFile := None\<rparr> \<and> m_hLogFile (L\<lparr>console := ls\<rparr>) = None \<or> L' = L\<lparr>console := ls\<rparr>"
    using assms
    by (auto simp: log_output_def createNewFile_def Let_def same split: if_splits bind_splits intro: exI [of _ "console L"])
  then show ?thesis using same by metis
qed

lemma write_out_keeps:
  "write_out fw l L = Some (ok, L') \<Longrightarrow> m_bConsoleOutput L' = m_bConsoleOutput L \<and>
    m_listLinesToWrite L' = m_listLinesToWrite L \<and> m_strFileName L' = m_strFileName L \<and> m_nFileRollSize L' = m_nFileRollSize L \<and>
    console L' = (if m_bConsoleOutput L then console L @ [l] else console L) \<and> m_hLogFile L' = m_hLogFile L"
  by (auto simp: write_out_def writeToFile_def Let_def split: if_splits option.splits bind_splits prod.splits)

lemma log_output_line:
  assumes "log_output lvl t thread src msg opens fw L = Some (Returned b, L')" and "lvl \<noteq> FATAL"
  shows "L' = (if b then L\<lparr>m_listLinesToWrite := m_listLinesToWrite L @ [log_line lvl t thread src msg L]\<rparr> else L)"
  using assms by (auto simp: log_output_def Let_def split: if_splits)

lemma outputBinary_line:
  assumes "outputBinary a bytes L = Some L'"
  shows "L' = L\<lparr>m_listLinesToWrite := m_listLinesToWrite L @ [List.last (m_listLinesToWrite L')]\<rparr>"
  using assms by (auto simp: outputBinary_def Let_def split: bind_splits)

text \<open>A call queues one line.\<close>

lemma p_line_step:
  assumes "log_step s (P_line l) t"
  shows "the_log t = (the_log s)\<lparr>m_listLinesToWrite := m_listLinesToWrite (the_log s) @ [l]\<rparr> \<and> writer t = wake (writer s) \<and>
    joining t = joining s \<and> writer s \<noteq> About_to_wait"
  using assms
proof (cases rule: log_step.cases)
  case (p_log lvl t thread src msg opens fw L)
  with log_output_line [of lvl t thread src msg opens fw "the_log s" True L] show ?thesis by simp
next
  case (p_binary address bytes L)
  with outputBinary_line [of address bytes "the_log s" L] show ?thesis by simp
qed

lemma log_step_order:
  assumes "log_step s e t" and "m_bConsoleOutput (the_log s)" and "plain e"
  shows "m_bConsoleOutput (the_log t) \<and>
    console (the_log t) @ in_hand (writer t) @ m_listLinesToWrite (the_log t) =
      console (the_log s) @ in_hand (writer s) @ m_listLinesToWrite (the_log s) @ logged [e]"
proof (cases "\<exists>l. e = P_line l")
  case True
  with assms show ?thesis by (auto dest!: p_line_step)
next
  case False
  with assms show ?thesis
    by (cases rule: log_step.cases) (auto simp: plain_def dest!: rollover_keeps write_out_keeps)
qed

lemma log_run_order:
  assumes "log_run s es t" and "m_bConsoleOutput (the_log s)" and "\<forall>e \<in> set es. plain e"
  shows "m_bConsoleOutput (the_log t) \<and>
    console (the_log t) @ in_hand (writer t) @ m_listLinesToWrite (the_log t) =
      console (the_log s) @ in_hand (writer s) @ m_listLinesToWrite (the_log s) @ logged es"
  using assms
proof (induction rule: log_run.induct)
  case (lrun_snoc s es t e u)
  from log_step_order [OF lrun_snoc.hyps(2)] lrun_snoc show ?case by (simp add: logged_append)
qed simp

subsection \<open>The size of a file\<close>

lemma write_loop_prefix: "write_loop fw k s = (ok, w) \<Longrightarrow> \<exists>r. w @ r = s \<and> (ok \<longrightarrow> r = [])"
proof (induction fw k s arbitrary: ok w rule: write_loop.induct)
  case (1 fw k s)
  let ?r = "min (fw k) (length s)"
  obtain ok1 w1 where rec: "write_loop fw (Suc k) (drop ?r s) = (ok1, w1)" by fastforce
  show ?case
  proof (cases "?r = 0 \<or> drop ?r s = []")
    case True
    with "1.prems" show ?thesis
      by (subst (asm) write_loop.simps) (auto simp: Let_def split: if_splits)
  next
    case False
    have w: "ok = ok1" "w = take ?r s @ w1"
      using "1.prems" False rec by (subst (asm) write_loop.simps, simp add: Let_def)+
    have "\<exists>r. w1 @ r = drop ?r s \<and> (ok1 \<longrightarrow> r = [])"
      by (rule "1.IH" [OF refl _ _ rec]) (use False in auto)
    with w show ?thesis by (metis append.assoc append_take_drop_id)
  qed
qed

lemma write_loop_length: "write_loop fw k s = (ok, w) \<Longrightarrow> length w \<le> length s \<and> (ok \<longrightarrow> w = s)"
  by (drule write_loop_prefix) auto

text \<open>
  The current file, with \<open>m\<close> a bound on the lines: before a line is taken it is below the limit,
  and it never exceeds the limit by a whole line.
\<close>

definition file_inv :: "nat \<Rightarrow> log_sys \<Rightarrow> bool" where
  "file_inv m s \<longleftrightarrow> (let L = the_log s in
     0 < m_nFileRollSize L \<and> (\<forall>l \<in> set (in_hand (writer s) @ m_listLinesToWrite L). length l \<le> m) \<and>
     (m_strFileName L = [] \<longrightarrow> m_hLogFile L = None) \<and>
     (case m_hLogFile L of
        None \<Rightarrow> m_strFileName L = [] \<or> writer s \<in> {At_top, Finished}
      | Some f \<Rightarrow> \<exists>c. disk L f = Some c \<and> int (length c) < m_nFileRollSize L + int m \<and>
          (writer s \<noteq> Finished \<longrightarrow> m_nCurrentWrittenSize L = int (length c)) \<and>
          (writer s \<notin> {At_top, Finished} \<longrightarrow> int (length c) < m_nFileRollSize L)))"

lemma wake_simps [simp]: "wake At_top = At_top" "wake At_lock = At_lock" "wake (Holding l) = Holding l" "wake Finished = Finished"
    "wake Waiting = At_lock" "wake About_to_wait = About_to_wait"
  by (simp_all add: wake_def)

lemma wake_cases: "wake pc \<in> {At_top, Finished} \<longleftrightarrow> pc \<in> {At_top, Finished}" "wake pc = Finished \<longleftrightarrow> pc = Finished"
  by (auto simp: wake_def)

lemma file_inv_roll:
  assumes "file_inv m s" and "writer s = At_top" and "rollover opens t ((the_log s)\<lparr>m_bRunning := True\<rparr>) = (ok, L)"
  shows "file_inv m (s\<lparr>the_log := L, writer := if ok then At_lock else Finished\<rparr>)"
  using assms
  by (auto simp: file_inv_def rollover_def needs_file_def createNewFile_def Let_def split: if_splits option.splits)

lemma file_inv_write:
  assumes inv: "file_inv m s" and h: "writer s = Holding l" and w: "write_out fw l (the_log s) = Some (ok, L)"
  shows "file_inv m (s\<lparr>the_log := L, writer := if ok then At_top else Finished\<rparr>)"
proof (cases "m_strFileName (the_log s) = []")
  case True
  then have "L = the_log s\<lparr>console := console L\<rparr>" using w by (auto simp: write_out_def Let_def split: if_splits)
  then have "m_nFileRollSize L = m_nFileRollSize (the_log s)" "m_listLinesToWrite L = m_listLinesToWrite (the_log s)"
    "m_strFileName L = []" "m_hLogFile L = m_hLogFile (the_log s)"
    by (metis alog.select_convs alog.surjective alog.update_convs(13) True)+
  with inv True show ?thesis by (auto simp: file_inv_def Let_def)
next
  case False
  then obtain f c where f: "m_hLogFile (the_log s) = Some f" "disk (the_log s) f = Some c"
      "int (length c) < m_nFileRollSize (the_log s)" "m_nCurrentWrittenSize (the_log s) = int (length c)"
    using inv h by (auto simp: file_inv_def Let_def split: option.splits)
  obtain v where v: "write_loop fw 0 l = (ok, v)" and L: "disk L f = Some (c @ v)"
      "ok \<longrightarrow> m_nCurrentWrittenSize L = int (length c) + int (length l)"
    using w f False by (auto simp: write_out_def writeToFile_def Let_def split: if_splits bind_splits prod.splits option.splits)
  from write_loop_length [OF v] inv h have "length v \<le> m" "ok \<longrightarrow> v = l" by (auto simp: file_inv_def Let_def)
  with L f inv write_out_keeps [OF w] False show ?thesis by (auto simp: file_inv_def Let_def)
qed

lemma file_inv_step:
  assumes "log_step s e t" and "file_inv m s" and "\<forall>l. e = P_line l \<longrightarrow> length l \<le> m"
  shows "file_inv m t"
proof (cases "\<exists>l. e = P_line l")
  case True
  then obtain l where l: "e = P_line l" by blast
  with assms p_line_step [of s l t] show ?thesis
    by (auto simp: file_inv_def Let_def wake_cases split: option.splits)
next
  case False
  from assms(1) show ?thesis
  proof (cases rule: log_step.cases)
    case (w_roll opens t ok L)
    with file_inv_roll [OF assms(2)] show ?thesis by simp
  next
    case (w_write l fw ok L)
    with file_inv_write [OF assms(2)] show ?thesis by simp
  next
    case (p_fatal t thread src msg opens fw L)
    from fatal_returned [OF p_fatal(3)] obtain ls where "L = (the_log s)\<lparr>console := ls\<rparr>" by blast
    with p_fatal(1,2) assms(2) show ?thesis by (cases "m_hLogFile (the_log s)") (simp_all add: file_inv_def Let_def)
  qed (use False assms(2) in \<open>auto simp: file_inv_def Let_def wake_cases split: option.splits\<close>)
qed

lemma logged_set: "l \<in> set (logged es) \<longleftrightarrow> P_line l \<in> set es"
  by (induction es rule: logged.induct) auto

lemma file_inv_run:
  assumes "log_run s es t" and "file_inv m s" and "\<forall>l \<in> set (logged es). length l \<le> m"
  shows "file_inv m t"
  using assms
proof (induction rule: log_run.induct)
  case (lrun_snoc s es t e u)
  then show ?case by (auto simp: logged_set intro: file_inv_step)
qed simp

subsection \<open>The dump of a packet\<close>

text \<open>The text of one byte, with the newline, row number and spaces in front of it.\<close>

definition dump_piece :: "int \<Rightarrow> nat \<Rightarrow> char \<Rightarrow> string" where
  "dump_piece index i b =
     (if i mod 32 = 0 then (if i = 0 then [] else [CHR 0x0A]) @ ullto4Str (index + int (i div 32)) @ '' '' else []) @
     (if i mod 16 = 0 then '' '' else []) @
     [hex_digit (of_char b div 16 mod 16), hex_digit (of_char b mod 16)]"

fun dump_from :: "int \<Rightarrow> nat \<Rightarrow> string \<Rightarrow> string" where
  "dump_from index i [] = []"
| "dump_from index i (b # bs) = dump_piece index i b @ dump_from index (Suc i) bs"

lemma ullto4Str_length: "length (ullto4Str n) \<le> 10"
proof -
  have "nat (n mod 2 ^ 32) < 10 ^ Suc 9" by (simp add: nat_less_iff)
  from dec_nat_length_bound [OF this] have "length (dec_nat (nat (n mod 2 ^ 32))) \<le> 10" by simp
  then have "6 - length (dec_nat (nat (n mod 2 ^ 32))) + length (dec_nat (nat (n mod 2 ^ 32))) \<le> 10" by linarith
  then show ?thesis by (simp add: ullto4Str_def pad0_def Let_def dec_nat.simps [of 0])
qed

lemma ullto4Str_no_zero: "CHR 0x00 \<notin> set (ullto4Str n)"
  by (auto simp: ullto4Str_def pad0_def Let_def is_digit_def dest: dec_nat_digits)

lemma hex_digit_no_zero: "d < 16 \<Longrightarrow> hex_digit d \<noteq> CHR 0x00"
proof -
  assume "d < 16"
  then have "hex_digit d \<in> set ''0123456789abcdef''" unfolding hex_digit_def by (intro nth_mem) simp
  then show ?thesis by auto
qed

lemma dump_piece_no_zero: "CHR 0x00 \<notin> set (dump_piece index i b)"
  by (auto simp: dump_piece_def ullto4Str_no_zero hex_digit_no_zero dest!: hex_digit_no_zero [THEN not_sym, THEN notE, rotated])

text \<open>The space used before byte \<open>i\<close>: two digits each, a space per 16, at most 12 more per 32.\<close>

definition room :: "nat \<Rightarrow> nat" where
  "room i = 2 * i + (i + 15) div 16 + 12 * ((i + 31) div 32)"

lemma div_round_up:
  fixes i n :: nat
  assumes "0 < n"
  shows "(n + i) div n = (i + (n - 1)) div n + (if i mod n = 0 then 1 else 0)"
proof (cases "i mod n = 0")
  case True
  then obtain q where q: "i = n * q" by (auto elim: dvdE)
  have "(n * q + (n - 1)) div n = q + (n - 1) div n" using assms by (intro div_mult_self4) simp
  then show ?thesis using assms unfolding q by (simp del: add_diff_assoc)
next
  case False
  have "i + (n - 1) = n * (i div n + 1) + (i mod n - 1)"
    using mult_div_mod_eq [of n i] assms False by simp
  moreover have "(i mod n - 1) div n = 0" using mod_less_divisor [OF assms, of i] by (simp add: div_eq_0_iff)
  moreover have "(n * (i div n + 1) + (i mod n - 1)) div n = i div n + 1 + (i mod n - 1) div n"
    using assms by (intro div_mult_self4) simp
  ultimately have "(i + (n - 1)) div n = i div n + 1" by simp
  then show ?thesis using False assms by (simp add: div_add_self1)
qed

lemma dump_piece_length: "length (dump_piece index i b) + room i \<le> room (Suc i)"
  using div_round_up [of 16 i] div_round_up [of 32 i] ullto4Str_length [of "index + int (i div 32)"]
    ullto4Str_length [of index]
  by (simp add: dump_piece_def room_def)

lemma room_512: "i \<le> 512 \<Longrightarrow> room i \<le> 1248"
  using div_le_mono [of "i + 15" 527 16] div_le_mono [of "i + 31" 543 32] by (simp add: room_def)

text \<open>Writing behind the text in a zeroed buffer.\<close>

definition zeroed :: "string \<Rightarrow> nat \<Rightarrow> nat \<times> string" where
  "zeroed t n = (length t, t @ replicate (n - length t) (CHR 0x00))"

lemma put_char_zeroed: "length t < n \<Longrightarrow> put_char c (zeroed t n) = Some (zeroed (t @ [c]) n)"
  by (cases "n - length t") (auto simp: put_char_def zeroed_def list_update_append Suc_diff_Suc)

lemma c_str_zeroed: "CHR 0x00 \<notin> set t \<Longrightarrow> c_str (t @ replicate k (CHR 0x00)) = t"
  by (cases k) (auto simp: c_str_def takeWhile_append takeWhile_eq_all_conv)

lemma strcat_zeroed:
  assumes "CHR 0x00 \<notin> set t" and "length t + length u < n"
  shows "strcat (snd (zeroed t n)) u = Some (snd (zeroed (t @ u) n))"
proof -
  have "CHR 0x00 # drop (Suc (length u)) (replicate (n - length t) (CHR 0x00)) = replicate (n - length t - length u) (CHR 0x00)"
    using assms(2) by (simp add: Suc_diff_Suc flip: replicate_Suc)
  then show ?thesis
    using assms by (simp add: strcat_def zeroed_def c_str_zeroed Let_def)
qed

text \<open>One byte, and the loop over a piece.\<close>

lemma dump_byte_zeroed:
  assumes "CHR 0x00 \<notin> set t" and "length t + 16 < n" and "headlen = 0 \<longleftrightarrow> i = 0"
  shows "\<exists>h. dump_byte i (index + int ((i + 31) div 32), headlen, zeroed t n) b =
    Some (index + int ((Suc i + 31) div 32), h, zeroed (t @ dump_piece index i b) n) \<and> h \<noteq> 0"
proof -
  let ?hi = "hex_digit (of_char b div 16 mod 16)" and ?lo = "hex_digit (of_char b mod 16)"
  have hex: "put_char ?lo (zeroed (u @ [?hi]) n) = Some (zeroed (u @ [?hi, ?lo]) n)" "put_char ?hi (zeroed u n) = Some (zeroed (u @ [?hi]) n)"
    if "length u + 1 < n" for u using put_char_zeroed [of "u @ [?hi]" n ?lo] put_char_zeroed [of u n ?hi] that by simp_all
  show ?thesis
  proof (cases "i mod 32 = 0")
    case True
    define head where "head = ullto4Str (index + int (i div 32)) @ '' ''"
    define t1 where "t1 = t @ (if i = 0 then [] else [CHR 0x0A])"
    have small: "length head \<le> 11" using ullto4Str_length [of "index + int (i div 32)"] by (simp add: head_def)
    have l1: "length t1 \<le> Suc (length t)" and z1: "CHR 0x00 \<notin> set t1" using assms(1) by (auto simp: t1_def)
    have lh: "length head = Suc (length (ullto4Str (index + int (i div 32))))" by (simp add: head_def)
    have rows: "(i + 31) div 32 = i div 32" "(32 + i) div 32 = i div 32 + 1" using True div_round_up [of 32 i] by simp_all
    have m16: "i mod 16 = 0" using True by presburger
    obtain B1 where B1: "zeroed t1 n = (length t1, B1)" by (simp add: zeroed_def)
    obtain B2 where B2: "zeroed (t1 @ head) n = (length t1 + length head, B2)" by (simp add: zeroed_def)
    have first: "(if headlen \<noteq> 0 then put_char CHR 0x0A (zeroed t n) else Some (zeroed t n)) = Some (length t1, B1)"
      using assms(2,3) put_char_zeroed [of t n "CHR 0x0A"] B1 by (cases "i = 0") (simp_all add: t1_def)
    have cat: "strcat B1 head = Some B2"
      using strcat_zeroed [OF z1, of head n] small l1 assms(2) by (simp add: B1 B2)
    have room: "length (t1 @ head @ '' '') + 1 < n" using small l1 assms(2) by simp
    have space: "put_char CHR '' '' (length t1 + length head, B2) = Some (zeroed (t1 @ head @ '' '') n)"
      using put_char_zeroed [of "t1 @ head" n "CHR '' ''"] room by (simp flip: B2)
    have "dump_byte i (index + int ((i + 31) div 32), headlen, zeroed t n) b =
        Some (index + int ((Suc i + 31) div 32), length head, zeroed (t1 @ head @ '' '' @ [?hi, ?lo]) n)"
      using True m16 first cat space hex [OF room] by (simp add: dump_byte_def rows Let_def lh head_def [symmetric])
    moreover have "t1 @ head @ '' '' @ [?hi, ?lo] = t @ dump_piece index i b"
      using True m16 by (simp add: dump_piece_def t1_def head_def)
    moreover have "length head \<noteq> 0" by (simp add: head_def)
    ultimately show ?thesis by auto
  next
    case False
    then have i: "i \<noteq> 0" "headlen \<noteq> 0" using assms(3) by auto
    let ?u = "t @ (if i mod 16 = 0 then '' '' else [])"
    have "(Suc i + 31) div 32 = (i + 31) div 32" using False div_round_up [of 32 i] by (simp add: add.commute)
    moreover have "(if i mod 16 = 0 \<and> headlen \<noteq> 0 then put_char CHR '' '' (zeroed t n) else Some (zeroed t n)) = Some (zeroed ?u n)"
      using i assms(2) put_char_zeroed [of t n "CHR '' ''"] by auto
    moreover have "length ?u + 1 < n" using assms(2) by auto
    ultimately show ?thesis
      using False i hex [of ?u] by (simp add: dump_byte_def dump_piece_def)
  qed
qed

lemma form_loop_zeroed:
  assumes "i + length bs \<le> 512" and "CHR 0x00 \<notin> set t" and "length t \<le> room i" and "headlen = 0 \<longleftrightarrow> i = 0"
  shows "\<exists>h. form_loop i bs (index + int ((i + 31) div 32), headlen, zeroed t 1544) =
    Some (index + int ((i + length bs + 31) div 32), h, zeroed (t @ dump_from index i bs) 1544) \<and>
    CHR 0x00 \<notin> set (t @ dump_from index i bs) \<and> length (t @ dump_from index i bs) \<le> 1248"
  using assms
proof (induction bs arbitrary: i t headlen)
  case Nil
  with room_512 [of i] show ?case by auto
next
  case (Cons b bs)
  have small: "length t \<le> 1248" using room_512 [of i] Cons.prems by simp
  obtain h where h: "dump_byte i (index + int ((i + 31) div 32), headlen, zeroed t 1544) b =
      Some (index + int ((Suc i + 31) div 32), h, zeroed (t @ dump_piece index i b) 1544)" "h \<noteq> 0"
    using dump_byte_zeroed [of t 1544 headlen i index b] Cons.prems small by auto
  have "length (t @ dump_piece index i b) \<le> room (Suc i)" using dump_piece_length [of index i b] Cons.prems(3) by simp
  moreover have "CHR 0x00 \<notin> set (t @ dump_piece index i b)" using Cons.prems(2) dump_piece_no_zero by simp
  moreover have "fst (zeroed t 1544) + 10 < length (snd (zeroed t 1544))" using small by (simp add: zeroed_def)
  ultimately show ?case
    using Cons.IH [of "Suc i" "t @ dump_piece index i b" h] Cons.prems(1) h by simp
qed

lemma formLog_piece:
  assumes "length bytes \<le> 512"
  shows "\<exists>k. formLog index (512 * 3 + 8) bytes =
    Some (index + int ((length bytes + 31) div 32), dump_from index 0 bytes @ CHR 0x0A # replicate (Suc k) (CHR 0x00)) \<and>
    CHR 0x00 \<notin> set (dump_from index 0 bytes)"
proof -
  obtain h where h: "form_loop 0 bytes (index, 0, zeroed [] 1544) = Some (index + int ((length bytes + 31) div 32), h,
      zeroed (dump_from index 0 bytes) 1544)" and z: "CHR 0x00 \<notin> set (dump_from index 0 bytes)"
      and l: "length (dump_from index 0 bytes) \<le> 1248"
    using form_loop_zeroed [of 0 bytes "[]" 0 index] assms by (auto simp: room_def)
  let ?t = "dump_from index 0 bytes @ [CHR 0x0A]"
  have nl: "put_char CHR 0x0A (zeroed (dump_from index 0 bytes) 1544) = Some (zeroed ?t 1544)"
    using l by (intro put_char_zeroed) simp
  have "put_char (CHR 0x00) (zeroed ?t 1544) = Some (zeroed (?t @ [CHR 0x00]) 1544)" using l by (intro put_char_zeroed) simp
  moreover have "formLog index (512 * 3 + 8) bytes = (put_char (CHR 0x00) (zeroed ?t 1544) \<bind> (\<lambda>lb. Some (index + int ((length bytes + 31) div 32), snd lb)))"
    using h nl by (simp add: formLog_def zeroed_def)
  ultimately have "formLog index (512 * 3 + 8) bytes = Some (index + int ((length bytes + 31) div 32),
      dump_from index 0 bytes @ CHR 0x0A # replicate (Suc (1542 - length (dump_from index 0 bytes))) (CHR 0x00))"
    by (simp add: zeroed_def)
  with z show ?thesis by blast
qed

lemma binary_text_some: "\<exists>text. binary_text index bytes = Some text"
proof (induction index bytes rule: binary_text.induct)
  case (1 index bytes)
  show ?case
  proof (cases "bytes = []")
    case False
    obtain i buf where f: "formLog index (512 * 3 + 8) (take 512 bytes) = Some (i, buf)"
      using formLog_piece [of "take 512 bytes" index] by auto
    from "1.IH" [OF False f refl] obtain rest where "binary_text i (drop 512 bytes) = Some rest" by blast
    with f False show ?thesis by (subst binary_text.simps) simp
  qed (simp add: binary_text.simps)
qed

subsection \<open>Properties\<close>

definition fresh_sys :: "string \<Rightarrow> int \<Rightarrow> log_sys" where
  "fresh_sys name roll = \<lparr>the_log = new_log\<lparr>m_strFileName := name, m_nFileRollSize := roll\<rparr>, writer = At_top, joining = False\<rparr>"

text \<open>The files that were opened have all their text from the writer, the open one is the last.\<close>

definition files_inv :: "log_event list \<Rightarrow> log_sys \<Rightarrow> bool" where
  "files_inv es s \<longleftrightarrow> (let L = the_log s in
     m_bConsoleOutput L \<and> m_strFileName L \<noteq> [] \<and>
     (writer s \<notin> {At_top, Finished} \<longrightarrow> m_hLogFile L \<noteq> None) \<and>
     (\<forall>f. m_hLogFile L = Some f \<longrightarrow> opened es \<noteq> [] \<and> List.last (opened es) = f) \<and>
     (distinct (opened es) \<longrightarrow>
       (\<exists>rest. file_text (opened es) L @ rest = concat (console L) \<and> (writer s \<noteq> Finished \<longrightarrow> rest = []))))"

lemma file_text_append: "file_text (fs @ [f]) L = file_text fs L @ (case disk L f of Some c \<Rightarrow> c | None \<Rightarrow> [])"
  by (simp add: file_text_def)

lemma file_text_other:
  "\<forall>g. g \<in> set fs \<longrightarrow> disk L' g = disk L g \<Longrightarrow> file_text fs L' = file_text fs L"
  by (induction fs) (simp_all add: file_text_def)

lemma file_text_simps [simp]:
  "file_text fs (L\<lparr>m_listLinesToWrite := ls\<rparr>) = file_text fs L" "file_text fs (L\<lparr>m_bExit := b\<rparr>) = file_text fs L"
  "file_text fs (setLevel n L) = file_text fs L" "file_text fs (setConsoleOutput b L) = file_text fs L"
  "file_text fs (closeFile L) = file_text fs L"
  by (simp_all add: file_text_def)

lemma files_inv_roll:
  assumes "files_inv es s" and "writer s = At_top" and "rollover opens t ((the_log s)\<lparr>m_bRunning := True\<rparr>) = (ok, L)"
  shows "files_inv (es @ [W_roll (if needs_file (the_log s) \<and> ok then Some (file_name t (the_log s)) else None)])
    (s\<lparr>the_log := L, writer := if ok then At_lock else Finished\<rparr>)"
proof (cases "needs_file (the_log s) \<and> ok")
  case True
  let ?f = "file_name t (the_log s)"
  have n: "needs_file ((the_log s)\<lparr>m_bRunning := True\<rparr>)" using True by (simp add: needs_file_def)
  have "L = (the_log s)\<lparr>m_bRunning := True, m_nCurrentWrittenSize := 0, m_hLogFile := Some ?f, disk := (disk (the_log s))(?f \<mapsto> [])\<rparr>"
    using assms(3) True n by (auto simp: rollover_def createNewFile_def file_name_def split: if_splits)
  moreover have "file_text (opened es) ((the_log s)\<lparr>m_bRunning := True, m_nCurrentWrittenSize := 0, m_hLogFile := Some ?f,
      disk := (disk (the_log s))(?f \<mapsto> [])\<rparr>) = file_text (opened es) (the_log s)" if "?f \<notin> set (opened es)"
    by (rule file_text_other) (use that in auto)
  ultimately show ?thesis
    using assms(1,2) True by (auto simp: files_inv_def Let_def opened_append file_text_append)
next
  case False
  then have e: "opened (es @ [W_roll (if needs_file (the_log s) \<and> ok then Some (file_name t (the_log s)) else None)]) = opened es"
    by (auto simp: opened_append)
  from False assms(3) have "\<not> needs_file (the_log s) \<and> ok \<and> L = (the_log s)\<lparr>m_bRunning := True\<rparr> \<or>
      needs_file (the_log s) \<and> \<not> ok \<and> L = (the_log s)\<lparr>m_bRunning := True, m_nCurrentWrittenSize := 0, m_hLogFile := None\<rparr>"
    by (auto simp: rollover_def needs_file_def createNewFile_def split: if_splits)
  moreover have "file_text fs (K\<lparr>m_bRunning := b\<rparr>) = file_text fs K" "file_text fs (K\<lparr>m_nCurrentWrittenSize := n\<rparr>) = file_text fs K"
    "file_text fs (K\<lparr>m_hLogFile := h\<rparr>) = file_text fs K" for fs K b n h by (simp_all add: file_text_def)
  ultimately show ?thesis using assms(1,2) unfolding files_inv_def Let_def e by (auto simp: needs_file_def)
qed

lemma files_inv_write:
  assumes "files_inv es s" and "writer s = Holding l" and "write_out fw l (the_log s) = Some (ok, L)"
  shows "files_inv (es @ [W_write]) (s\<lparr>the_log := L, writer := if ok then At_top else Finished\<rparr>)"
proof -
  from assms(1,2) obtain f where f: "m_hLogFile (the_log s) = Some f" and o: "opened es \<noteq> []" "List.last (opened es) = f"
    and n: "m_strFileName (the_log s) \<noteq> []" "m_bConsoleOutput (the_log s)"
    by (auto simp: files_inv_def Let_def)
  obtain v where v: "write_loop fw 0 l = (ok, v)"
    and d: "disk L = (disk (the_log s))(f \<mapsto> (case disk (the_log s) f of Some c \<Rightarrow> c | None \<Rightarrow> []) @ v)"
    using assms(3) f n by (auto simp: write_out_def writeToFile_def Let_def split: if_splits bind_splits prod.splits)
  from write_loop_prefix [OF v] obtain r where r: "v @ r = l" "ok \<longrightarrow> r = []" by blast
  obtain fs where fs: "opened es = fs @ [f]" using o by (metis append_butlast_last_id)
  have "file_text (opened es) L = file_text (opened es) (the_log s) @ v" if "distinct (opened es)"
    using that file_text_other [of fs L "the_log s"] by (simp add: fs file_text_append d)
  moreover have "console L = console (the_log s) @ [l]" using write_out_keeps [OF assms(3)] n by simp
  ultimately show ?thesis
    using assms(1,2) write_out_keeps [OF assms(3)] r by (auto simp: files_inv_def Let_def opened_append)
qed

lemma files_inv_step:
  assumes "log_step s e t" and "files_inv es s" and "plain e"
  shows "files_inv (es @ [e]) t"
proof (cases "\<exists>l. e = P_line l")
  case True
  then obtain l where l: "e = P_line l" by blast
  with assms p_line_step [of s l t] show ?thesis
    by (auto simp: files_inv_def Let_def opened_append wake_cases)
next
  case False
  from assms(1) show ?thesis
  proof (cases rule: log_step.cases)
    case (w_roll opens t ok L)
    with files_inv_roll [OF assms(2)] show ?thesis by simp
  next
    case (w_write l fw ok L)
    with files_inv_write [OF assms(2)] show ?thesis by simp
  qed (use False assms(2,3) in \<open>auto simp: files_inv_def Let_def opened_append wake_cases plain_def\<close>)
qed

lemma log_run_files:
  assumes "log_run (fresh_sys name roll) es t" and "\<forall>e \<in> set es. plain e" and "name \<noteq> []"
  shows "files_inv es t"
  using assms
proof (induction "fresh_sys name roll" es t rule: log_run.induct)
  case lrun_nil
  then show ?case by (simp add: files_inv_def fresh_sys_def new_log_def file_text_def)
next
  case (lrun_snoc es t e u)
  then show ?case by (intro files_inv_step) auto
qed

lemma write_out_whole:
  assumes "m_hLogFile L = Some f" and "l \<noteq> []"
  shows "\<exists>L'. write_out (\<lambda>_. length l) l L = Some (True, L')"
proof -
  have "write_loop (\<lambda>_. length l) 0 l = (True, l)" using assms(2) by (subst write_loop.simps) simp
  with assms(1) show ?thesis by (simp add: write_out_def writeToFile_def Let_def)
qed

text \<open>
  (C17) Every line that was logged comes out exactly once and in order, on the console and in the
  files: in every interleaving of the logging threads with the writer, what was printed, the line in
  hand and the queue together are the lines logged so far; the files, taken in the order in which they
  were opened, hold the printed lines, up to a last write that failed; and when the writer leaves
  because of the shutdown, all lines are on the console and in the files. This holds while the console
  output stays on and, for the files, if no two files were opened under one name (that is in the same
  second: then the second opening empties the first file). A fatal line ends the run.
\<close>
theorem log_fifo:
  assumes "log_run (fresh_sys name roll) es t" and "\<forall>e \<in> set es. plain e"
  shows "console (the_log t) @ in_hand (writer t) @ m_listLinesToWrite (the_log t) = logged es \<and>
    (name \<noteq> [] \<and> distinct (opened es) \<longrightarrow>
      (\<exists>rest. file_text (opened es) (the_log t) @ rest = concat (console (the_log t)) \<and> (writer t \<noteq> Finished \<longrightarrow> rest = []))) \<and>
    (\<forall>u. log_step t W_exit u \<longrightarrow> console (the_log u) = logged es \<and>
      (name \<noteq> [] \<and> distinct (opened es) \<longrightarrow> file_text (opened es) (the_log u) = concat (logged es)))"
proof -
  have c: "console (the_log t) @ in_hand (writer t) @ m_listLinesToWrite (the_log t) = logged es"
    using log_run_order [OF assms(1) _ assms(2)] by (simp add: fresh_sys_def new_log_def)
  have f: "\<exists>rest. file_text (opened es) (the_log t) @ rest = concat (console (the_log t)) \<and> (writer t \<noteq> Finished \<longrightarrow> rest = [])"
    if "name \<noteq> []" "distinct (opened es)"
    using log_run_files [OF assms(1,2) that(1)] that(2) by (simp add: files_inv_def Let_def)
  have "the_log u = the_log t \<and> in_hand (writer t) = [] \<and> m_listLinesToWrite (the_log t) = [] \<and> writer t \<noteq> Finished"
    if "log_step t W_exit u" for u
    using that by (auto elim!: log_stepE)
  with c f show ?thesis by auto
qed

theorem log_fifo_witness:
  "\<exists>t l. log_run (fresh_sys ''log'' 9) [W_roll (Some ''log.20260726010203..log''), P_line l, W_take, W_write] t \<and>
    file_text [''log.20260726010203..log''] (the_log t) = l \<and> console (the_log t) = [l]"
proof -
  let ?t = "\<lparr>tm_year = 126, tm_mon = 6, tm_mday = 26, tm_hour = 1, tm_min = 2, tm_sec = 3, millitm = 4\<rparr>"
  let ?f = "''log.20260726010203..log''"
  let ?s0 = "fresh_sys ''log'' 9"
  let ?L1 = "(the_log ?s0)\<lparr>m_bRunning := True, m_hLogFile := Some ?f, disk := [?f \<mapsto> []]\<rparr>"
  let ?l = "log_line INFO ?t ''1'' None ''hi'' ?L1"
  let ?L2 = "?L1\<lparr>m_listLinesToWrite := [?l]\<rparr>"
  let ?L3 = "?L1\<lparr>m_listLinesToWrite := []\<rparr>"
  define st where "st = (\<lambda>L pc. \<lparr>the_log = L, writer = pc, joining = False\<rparr>)"
  have st [simp]: "the_log (st L pc) = L" "writer (st L pc) = pc" "joining (st L pc) = False"
      "(st L pc)\<lparr>the_log := L', writer := pc'\<rparr> = st L' pc'" for L pc L' pc' by (simp_all add: st_def)
  have name: "file_name ?t (the_log ?s0) = ?f" "file_name ?t ((the_log ?s0)\<lparr>m_bRunning := True\<rparr>) = ?f"
    unfolding file_name_def fresh_sys_def new_log_def by code_simp+
  have need: "needs_file (the_log ?s0)" by (simp add: needs_file_def fresh_sys_def new_log_def)
  have roll: "rollover True ?t ((the_log ?s0)\<lparr>m_bRunning := True\<rparr>) = (True, ?L1)"
    using name by (simp add: rollover_def needs_file_def createNewFile_def fresh_sys_def new_log_def)
  have 1: "log_run ?s0 [W_roll (Some ?f)] (st ?L1 At_lock)"
    using lrun_snoc [OF lrun_nil w_roll [OF _ roll]] need name by (simp add: fresh_sys_def st_def)
  have out: "log_output INFO ?t ''1'' None ''hi'' True (\<lambda>_. 0) ?L1 = Some (Returned True, ?L2)"
    by (simp add: log_output_def fresh_sys_def new_log_def)
  have 2: "log_run ?s0 [W_roll (Some ?f), P_line ?l] (st ?L2 At_lock)"
    using lrun_snoc [OF 1 p_log [of "st ?L1 At_lock" INFO ?t "''1''" None "''hi''" True "\<lambda>_. 0" ?L2]] out by simp
  have 3: "log_run ?s0 [W_roll (Some ?f), P_line ?l, W_take] (st ?L3 (Holding ?l))"
    using lrun_snoc [OF 2 w_take [of "st ?L2 At_lock" ?l "[]"]] by simp
  obtain L where w: "write_out (\<lambda>_. length ?l) ?l ?L3 = Some (True, L)"
    using write_out_whole [of ?L3 ?f ?l] by (force simp: log_line_def makeLinePrefix_def)
  then have "write_out (\<lambda>_. length ?l) ?l (the_log (st ?L3 (Holding ?l))) = Some (True, L)" by simp
  from w_write [OF _ this] have 4: "log_run ?s0 [W_roll (Some ?f), P_line ?l, W_take, W_write] (st L At_top)"
    using lrun_snoc [OF 3] by force
  from write_out_keeps [OF w] have "console L = [?l]" by (simp add: fresh_sys_def new_log_def)
  with log_fifo [OF 4] show ?thesis
    by (intro exI [of _ "st L At_top"] exI [of _ ?l] conjI 4) (simp_all add: plain_def)
qed

text \<open>
  (C30) A log file does not outgrow its limit: with lines of at most \<open>m\<close> bytes, whatever \<open>fopen\<close> and
  \<open>fwrite\<close> answer, the open file always has fewer bytes than the rolling size and one line, and
  below the rolling size itself whenever the writer waits for a line.
\<close>
theorem log_file_bound:
  assumes "log_run (fresh_sys name roll) es t" and "0 < roll" and "\<forall>l \<in> set (logged es). length l \<le> m"
    and "m_hLogFile (the_log t) = Some f"
  shows "\<exists>c. disk (the_log t) f = Some c \<and> int (length c) < roll + int m \<and> (writer t = Waiting \<longrightarrow> int (length c) < roll)"
proof -
  have "file_inv m (fresh_sys name roll)" using assms(2) by (simp add: file_inv_def fresh_sys_def new_log_def)
  from file_inv_run [OF assms(1) this assms(3)] have "file_inv m t" .
  moreover have "m_nFileRollSize (the_log t) = roll"
    using assms(1)
  proof (induction "fresh_sys name roll" es t rule: log_run.induct)
    case lrun_nil
    show ?case by (simp add: fresh_sys_def)
  next
    case (lrun_snoc es t e u)
    then show ?case
      by (cases "\<exists>l. e = P_line l")
        (auto dest!: p_line_step, auto elim!: log_stepE dest!: rollover_keeps write_out_keeps fatal_returned)
  qed
  ultimately show ?thesis using assms(4) by (auto simp: file_inv_def Let_def)
qed

theorem log_file_bound_witness:
  "\<exists>c. disk (snd (rollover True (\<lparr>tm_year = 126, tm_mon = 6, tm_mday = 26, tm_hour = 1, tm_min = 2, tm_sec = 3, millitm = 4\<rparr>)
      ((the_log (fresh_sys ''log'' 9))\<lparr>m_bRunning := True\<rparr>))) ''log.20260726010203..log'' = Some c \<and> int (length c) < 9"
proof -
  let ?t = "\<lparr>tm_year = 126, tm_mon = 6, tm_mday = 26, tm_hour = 1, tm_min = 2, tm_sec = 3, millitm = 4\<rparr>"
  let ?L = "(the_log (fresh_sys ''log'' 9))\<lparr>m_bRunning := True\<rparr>"
  have name: "file_name ?t ?L = ''log.20260726010203..log''"
    unfolding file_name_def fresh_sys_def new_log_def by code_simp
  then have "rollover True ?t ?L = (True, snd (rollover True ?t ?L))"
      "m_hLogFile (snd (rollover True ?t ?L)) = Some ''log.20260726010203..log''"
    by (simp_all add: rollover_def needs_file_def createNewFile_def fresh_sys_def new_log_def file_name_def)
  from log_file_bound [OF lrun_snoc [OF lrun_nil w_roll [OF _ this(1)]], of 0 "''log.20260726010203..log''"] this(2)
  show ?thesis by (auto simp: fresh_sys_def)
qed

text \<open>
  (C25) A binary dump never leaves its buffer of 1544 bytes: a piece of at most 512 bytes is
  formatted as rows of 32 bytes with their numbers, terminated inside the buffer, and so
  \<open>outputBinary\<close> has a defined result for bytes of any length.
\<close>
theorem dump_in_bounds:
  assumes "length piece \<le> 512"
  shows "(\<exists>szbuf. formLog index (512 * 3 + 8) piece = Some (index + int ((length piece + 31) div 32), szbuf) \<and>
      c_str szbuf = dump_from index 0 piece @ [CHR 0x0A] \<and> length (c_str szbuf) < 512 * 3 + 8) \<and>
    outputBinary address bytes L \<noteq> None"
proof -
  obtain k where k: "formLog index (512 * 3 + 8) piece = Some (index + int ((length piece + 31) div 32),
      dump_from index 0 piece @ CHR 0x0A # replicate (Suc k) (CHR 0x00))" "CHR 0x00 \<notin> set (dump_from index 0 piece)"
    using formLog_piece [OF assms] by blast
  have "c_str (dump_from index 0 piece @ CHR 0x0A # replicate (Suc k) (CHR 0x00)) = dump_from index 0 piece @ [CHR 0x0A]"
    using c_str_zeroed [of "dump_from index 0 piece @ [CHR 0x0A]" "Suc k"] k(2) by simp
  moreover have "length (dump_from index 0 piece) \<le> 1248"
    using form_loop_zeroed [of 0 piece "[]" 0 index] assms by (auto simp: room_def)
  moreover have "outputBinary address bytes L \<noteq> None"
    using binary_text_some [of 0 bytes] by (auto simp: outputBinary_def)
  ultimately show ?thesis using k(1) by auto
qed

theorem dump_in_bounds_witness:
  "\<exists>szbuf. formLog 7 (512 * 3 + 8) ''AZ'' = Some (8, szbuf) \<and> c_str szbuf = ''000007  415a'' @ [CHR 0x0A]"
proof -
  have "dump_from 7 0 ''AZ'' = ''000007  415a''"
    by code_simp
  then show ?thesis using dump_in_bounds [of "''AZ''" 7 0 "[]" new_log] by auto
qed

text \<open>
  (C40) The shutdown of the log can hang: \<open>uninit\<close> sets the exit flag and notifies without the lock,
  so both can fall between the writer's test of the flag and its wait. In the state reached, the
  main thread joins a writer that waits although the flag is set, and only a spurious wake-up or a
  further line from another thread would move it.
\<close>
theorem uninit_lost_wakeup:
  "\<exists>s. log_run (fresh_sys [] roll) [W_roll None, W_empty, U_exit, U_notify, W_wait] s \<and>
     writer s = Waiting \<and> m_bExit (the_log s) \<and> joining s \<and>
     (\<forall>e t. log_step s e t \<longrightarrow> e = W_spurious \<or> (\<exists>l. e = P_line l) \<or> writer t = Waiting)"
proof -
  let ?L = "(the_log (fresh_sys [] roll))\<lparr>m_bRunning := True\<rparr>"
  let ?s = "\<lambda>pc L j. \<lparr>the_log = L, writer = pc, joining = j\<rparr>"
  have r: "rollover True undefined ?L = (True, ?L)" by (simp add: rollover_def needs_file_def fresh_sys_def)
  have e: "m_listLinesToWrite ?L = []" "\<not> m_bExit ?L" by (simp_all add: fresh_sys_def new_log_def)
  have 1: "log_run (fresh_sys [] roll) [W_roll None] (?s At_lock ?L False)"
    using lrun_snoc [OF lrun_nil w_roll [OF _ r]] by (simp add: fresh_sys_def needs_file_def)
  have 2: "log_run (fresh_sys [] roll) [W_roll None, W_empty] (?s About_to_wait ?L False)"
    using lrun_snoc [OF 1 w_empty] e by simp
  have 3: "log_run (fresh_sys [] roll) [W_roll None, W_empty, U_exit] (?s About_to_wait (?L\<lparr>m_bExit := True\<rparr>) False)"
    using lrun_snoc [OF 2 u_exit] by simp
  have 4: "log_run (fresh_sys [] roll) [W_roll None, W_empty, U_exit, U_notify] (?s About_to_wait (?L\<lparr>m_bExit := True\<rparr>) True)"
    using lrun_snoc [OF 3 u_notify] by simp
  have 5: "log_run (fresh_sys [] roll) [W_roll None, W_empty, U_exit, U_notify, W_wait] (?s Waiting (?L\<lparr>m_bExit := True\<rparr>) True)"
    using lrun_snoc [OF 4 w_wait] by simp
  then show ?thesis by (intro exI [of _ "?s Waiting (?L\<lparr>m_bExit := True\<rparr>) True"]) (auto elim!: log_stepE)
qed

theorem uninit_lost_wakeup_witness:
  "\<exists>s. log_run (fresh_sys [] 4096) [W_roll None, W_empty, U_exit, U_notify, W_wait] s \<and>
     writer s = Waiting \<and> m_bExit (the_log s) \<and> joining s \<and>
     (\<forall>e t. log_step s e t \<longrightarrow> e = W_spurious \<or> (\<exists>l. e = P_line l) \<or> writer t = Waiting)"
  by (rule uninit_lost_wakeup)

end
