(* ===== verification/Config.thy ===== *)
theory Config
  imports Prelude Mysql "HOL-Library.Char_ord" "HOL-Library.List_Lexorder"
begin

section \<open>The configuration file\<close>

text \<open>
  \<open>CConfigFileReader\<close> (\<open>ConfigFileReader.cpp\<close>): a file is read in pieces of at most 255 bytes, a
  piece is a line without what follows a \<open>#\<close>, a line with \<open>=\<close> is a pair of trimmed texts, and
  the first pair of a key counts. Setting a value writes all pairs back, each through a buffer
  of 128 bytes. The map is kept in the order of \<open>std::map\<close>. \<open>None\<close> is the access to
  \<open>buf[-1]\<close> that a piece starting with a zero byte makes.
\<close>

definition NEWLINE :: char where "NEWLINE = CHR 0x0A"
definition is_blank :: "char \<Rightarrow> bool" where
  "is_blank c \<longleftrightarrow> c = CHR 0x20 \<or> c = CHR 0x09 \<or> c = CHR 0x0D"

record config =
  load_ok :: bool
  config_map :: "(string \<times> string) list"

subsection \<open>Reading\<close>

text \<open>\<open>fgets\<close>: at most \<open>n\<close> bytes, up to and with the first newline.\<close>

fun fgets :: "nat \<Rightarrow> string \<Rightarrow> string \<times> string" where
  "fgets 0 s = ([], s)"
| "fgets (Suc n) [] = ([], [])"
| "fgets (Suc n) (c # s) =
     (if c = NEWLINE then ([c], s) else let (l, r) = fgets n s in (c # l, r))"

definition trimSpace :: "string \<Rightarrow> string option" where
  "trimSpace name =
     (let start = dropWhile is_blank name in
      if start = [] then None else Some (rev (dropWhile is_blank (rev start))))"

text \<open>\<open>std::map::insert\<close> keeps an entry that is there; \<open>map_set\<close> is assignment to it.\<close>

fun map_insert :: "string \<Rightarrow> string \<Rightarrow> (string \<times> string) list \<Rightarrow> (string \<times> string) list" where
  "map_insert k v [] = [(k, v)]"
| "map_insert k v ((k', v') # m) =
     (if k = k' then (k', v') # m else if k < k' then (k, v) # (k', v') # m else (k', v') # map_insert k v m)"

definition map_set :: "string \<Rightarrow> string \<Rightarrow> (string \<times> string) list \<Rightarrow> (string \<times> string) list" where
  "map_set k v m = map (\<lambda>(k', v'). (k', if k' = k then v else v')) m"

definition parseLine :: "string \<Rightarrow> (string \<times> string) list \<Rightarrow> (string \<times> string) list" where
  "parseLine line m =
     (if CHR ''='' \<notin> set line then m
      else (case (trimSpace (takeWhile (\<lambda>c. c \<noteq> CHR ''='') line), trimSpace (tl (dropWhile (\<lambda>c. c \<noteq> CHR ''='') line))) of
              (Some key, Some val) \<Rightarrow> map_insert key val m
            | _ \<Rightarrow> m))"

text \<open>One round of the loop of \<open>loadFile\<close> on the bytes that \<open>fgets\<close> stored.\<close>

definition load_piece :: "string \<Rightarrow> (string \<times> string) list \<Rightarrow> (string \<times> string) list option" where
  "load_piece piece m =
     (let buf = c_str piece in
      if buf = [] then None
      else (let buf1 = (if List.last buf = NEWLINE then butlast buf else buf);
                buf2 = takeWhile (\<lambda>c. c \<noteq> CHR ''#'') buf1
            in if buf2 = [] then Some m else Some (parseLine buf2 m)))"

lemma fgets_length: "fgets n s = (l, r) \<Longrightarrow> length l + length r = length s"
  by (induction n s arbitrary: l r rule: fgets.induct) (auto split: if_splits prod.splits)

lemma fgets_progress: "fgets (Suc n) s = (l, r) \<Longrightarrow> s \<noteq> [] \<Longrightarrow> l \<noteq> []"
  by (cases s) (auto split: if_splits prod.splits)

function load_lines :: "string \<Rightarrow> (string \<times> string) list \<Rightarrow> (string \<times> string) list option" where
  "load_lines content m =
     (if content = [] then Some m
      else (let (piece, rest) = fgets 255 content in
            case load_piece piece m of None \<Rightarrow> None | Some m' \<Rightarrow> load_lines rest m'))"
  by pat_completeness auto
termination
proof (relation "measure (\<lambda>(s, m). length s)")
  fix content m x piece rest m'
  assume "content \<noteq> []" "x = fgets 255 content" "(piece, rest) = x"
  then have f: "fgets (Suc 254) content = (piece, rest)" by (metis Suc_numeral semiring_norm(5) semiring_norm(8) numeral_eq_Suc pred_numeral_simps(3))
  from fgets_progress [OF this] \<open>content \<noteq> []\<close> have "piece \<noteq> []" by blast
  with fgets_length [OF f] show "((rest, m'), content, m) \<in> measure (\<lambda>(s, m). length s)" by (cases piece) auto
qed simp

declare load_lines.simps [simp del]

text \<open>The constructor; \<open>file\<close> is the content, \<open>None\<close> when it cannot be opened.\<close>

definition loadFile :: "string option \<Rightarrow> config option" where
  "loadFile file = (case file of
      None \<Rightarrow> Some \<lparr>load_ok = False, config_map = []\<rparr>
    | Some content \<Rightarrow> (case load_lines content [] of
        None \<Rightarrow> None | Some m \<Rightarrow> Some \<lparr>load_ok = True, config_map = m\<rparr>))"

definition getConfigName :: "config \<Rightarrow> string \<Rightarrow> string option" where
  "getConfigName cfg name = (if \<not> load_ok cfg then None else map_of (config_map cfg) name)"

subsection \<open>Writing\<close>

definition pair_text :: "string \<times> string \<Rightarrow> string" where
  "pair_text p = snprintf_buf 128 (''%s=%s'' @ [NEWLINE]) [CStr (fst p), CStr (snd p)]"

text \<open>The loop of \<open>writeFile\<close>: \<open>n\<close> is the number of writes that succeed before one fails.\<close>

fun write_pairs :: "nat \<Rightarrow> (string \<times> string) list \<Rightarrow> int \<times> string" where
  "write_pairs n [] = (0, [])"
| "write_pairs 0 (p # ps) = (-1, [])"
| "write_pairs (Suc n) (p # ps) = (let (r, s) = write_pairs n ps in (r, pair_text p @ s))"

text \<open>\<open>writeFile\<close>: the result and the new content of the file; \<open>None\<close> when it is not opened.\<close>

definition writeFile :: "bool \<Rightarrow> nat \<Rightarrow> config \<Rightarrow> int \<times> string option" where
  "writeFile opens n cfg =
     (if \<not> opens then (-1, None) else (let (r, s) = write_pairs n (config_map cfg) in (r, Some s)))"

definition setConfigValue :: "bool \<Rightarrow> nat \<Rightarrow> string \<Rightarrow> string \<Rightarrow> config \<Rightarrow> int \<times> config \<times> string option" where
  "setConfigValue opens n name val cfg =
     (if \<not> load_ok cfg then (-1, cfg, None)
      else (let m = config_map cfg;
                cfg' = cfg\<lparr>config_map := (if map_of m name \<noteq> None then map_set name val m else map_insert name val m)\<rparr>;
                (r, s) = writeFile opens n cfg'
            in (r, cfg', s)))"

subsection \<open>Pairs that survive a file\<close>

definition trimmed :: "string \<Rightarrow> bool" where
  "trimmed s \<longleftrightarrow> s \<noteq> [] \<and> \<not> is_blank (hd s) \<and> \<not> is_blank (List.last s)"

definition clean_value :: "string \<Rightarrow> bool" where
  "clean_value v \<longleftrightarrow> trimmed v \<and> NEWLINE \<notin> set v \<and> CHR ''#'' \<notin> set v \<and> CHR 0x00 \<notin> set v"

definition clean_key :: "string \<Rightarrow> bool" where
  "clean_key k \<longleftrightarrow> clean_value k \<and> CHR ''='' \<notin> set k"

definition clean_map :: "(string \<times> string) list \<Rightarrow> bool" where
  "clean_map m \<longleftrightarrow> sorted_wrt (<) (map fst m) \<and> (\<forall>(k, v) \<in> set m. clean_key k \<and> clean_value v)"

lemma trimSpace_Some:
  assumes "trimSpace s = Some t"
  shows "trimmed t" "set t \<subseteq> set s"
proof -
  let ?d = "dropWhile is_blank s"
  have d: "?d \<noteq> []" "t = rev (dropWhile is_blank (rev ?d))"
    using assms by (auto simp: trimSpace_def Let_def split: if_splits)
  have h: "\<not> is_blank (hd ?d)" using d(1) by (rule hd_dropWhile)
  obtain x xs where x: "?d = x # xs" using d(1) by (cases ?d) auto
  with h have "\<not> is_blank x" by simp
  then have t: "t = x # rev (dropWhile is_blank (rev xs))"
    using d(2) x by (auto simp: dropWhile_append dropWhile_eq_Nil_conv)
  have "dropWhile is_blank (rev ?d) \<noteq> []" using x \<open>\<not> is_blank x\<close> by (auto simp: dropWhile_eq_Nil_conv)
  then have "\<not> is_blank (hd (dropWhile is_blank (rev ?d)))" by (rule hd_dropWhile)
  then have "\<not> is_blank (List.last t)" using d(2) by (simp add: last_rev)
  then show "trimmed t" using t \<open>\<not> is_blank x\<close> by (simp add: trimmed_def)
  show "set t \<subseteq> set s" using d(2) by (auto dest!: set_dropWhileD)
qed

lemma dropWhile_hd: "s \<noteq> [] \<Longrightarrow> \<not> P (hd s) \<Longrightarrow> dropWhile P s = s"
  by (cases s) auto

lemma trimSpace_trimmed: "trimmed s \<Longrightarrow> trimSpace s = Some s"
  by (simp add: trimmed_def trimSpace_def dropWhile_hd hd_rev)

lemma map_insert_fresh: "\<forall>x \<in> fst ` set m. x < k \<Longrightarrow> map_insert k v m = m @ [(k, v)]"
  by (induction k v m rule: map_insert.induct) auto

lemma set_map_insert: "fst ` set (map_insert k v m) = insert k (fst ` set m)"
  "set (map_insert k v m) \<subseteq> insert (k, v) (set m)"
  by (induction k v m rule: map_insert.induct) auto

lemma map_of_map_insert: "map_of m k = None \<Longrightarrow> map_of (map_insert k v m) = (map_of m)(k \<mapsto> v)"
  by (induction k v m rule: map_insert.induct) (auto simp: fun_eq_iff split: if_splits)

lemma map_insert_length: "length (map_insert k v m) \<le> Suc (length m)"
  by (induction k v m rule: map_insert.induct) auto

lemma sorted_map_insert: "sorted_wrt (<) (map fst m) \<Longrightarrow> sorted_wrt (<) (map fst (map_insert k v m))"
proof (induction k v m rule: map_insert.induct)
  case (2 k v k' v' m)
  show ?case
  proof (cases "k < k' \<or> k = k'")
    case True
    with "2.prems" show ?thesis by force
  next
    case False
    then have "k' < k" by auto
    then have "\<forall>x \<in> fst ` set (map_insert k v m). k' < x"
      using "2.prems" by (auto simp: set_map_insert(1))
    with 2 False show ?thesis by simp
  qed
qed simp

lemma clean_map_insert: "clean_map m \<Longrightarrow> clean_key k \<Longrightarrow> clean_value v \<Longrightarrow> clean_map (map_insert k v m)"
  using set_map_insert(2) [of k v m] by (auto simp: clean_map_def sorted_map_insert)

lemma map_set_keys: "map fst (map_set k v m) = map fst m"
  by (induction m) (auto simp: map_set_def)

lemma map_of_map_set: "map_of m k \<noteq> None \<Longrightarrow> map_of (map_set k v m) = (map_of m)(k \<mapsto> v)"
proof -
  have "map_of (map_set k v m) x = (if x = k then map_option (\<lambda>_. v) (map_of m x) else map_of m x)" for x
    by (induction m) (auto simp: map_set_def)
  then show "map_of m k \<noteq> None \<Longrightarrow> ?thesis" by (auto simp: fun_eq_iff)
qed

lemma clean_map_set: "clean_map m \<Longrightarrow> clean_value v \<Longrightarrow> clean_map (map_set k v m)"
  unfolding clean_map_def map_set_keys by (auto simp: map_set_def split: if_splits)

subsection \<open>What a file gives\<close>

lemma fgets_newline: "fgets n s = (l, r) \<Longrightarrow> NEWLINE \<notin> set (butlast l)"
  by (induction n s arbitrary: l r rule: fgets.induct) (auto split: if_splits prod.splits)

lemma set_tl_subset: "set (tl xs) \<subseteq> set xs"
  by (cases xs) auto

lemma set_dropWhile_subset: "set (dropWhile P xs) \<subseteq> set xs"
  by (auto dest: set_dropWhileD)

lemma clean_sub: "clean_value v \<longleftrightarrow> trimmed v \<and> set v \<inter> {NEWLINE, CHR ''#'', CHR 0x00} = {}"
  by (auto simp: clean_value_def)

lemma parseLine_clean:
  assumes "clean_map m" and "set line \<inter> {NEWLINE, CHR ''#'', CHR 0x00} = {}"
  shows "clean_map (parseLine line m)"
proof -
  have "clean_map (map_insert key val m)"
    if "trimSpace (takeWhile (\<lambda>c. c \<noteq> CHR ''='') line) = Some key"
      and "trimSpace (tl (dropWhile (\<lambda>c. c \<noteq> CHR ''='') line)) = Some val" for key val
  proof (rule clean_map_insert [OF assms(1)])
    have "set key \<subseteq> set line" "CHR ''='' \<notin> set key"
      using trimSpace_Some(2) [OF that(1)] by (auto dest: set_takeWhileD)
    then show "clean_key key" using trimSpace_Some(1) [OF that(1)] assms(2) by (auto simp: clean_key_def clean_sub)
    have "set (tl (dropWhile (\<lambda>c. c \<noteq> CHR ''='') line)) \<subseteq> set line"
      by (rule order_trans [OF set_tl_subset set_dropWhile_subset])
    then have "set val \<subseteq> set line" using trimSpace_Some(2) [OF that(2)] by blast
    then show "clean_value val" using trimSpace_Some(1) [OF that(2)] assms(2) by (auto simp: clean_sub)
  qed
  with assms(1) show ?thesis by (auto simp: parseLine_def split: option.split)
qed

lemma load_piece_clean:
  assumes "fgets n s = (piece, rest)" and "clean_map m" and "load_piece piece m = Some m'"
  shows "clean_map m'"
proof -
  let ?buf = "c_str piece"
  let ?b1 = "if List.last ?buf = NEWLINE then butlast ?buf else ?buf"
  have ne: "?buf \<noteq> []" using assms(3) by (auto simp: load_piece_def Let_def)
  have zero: "CHR 0x00 \<notin> set ?buf" by (auto simp: c_str_def dest: set_takeWhileD)
  have "NEWLINE \<notin> set (butlast ?buf)"
  proof
    assume "NEWLINE \<in> set (butlast ?buf)"
    moreover have "piece = ?buf @ dropWhile (\<lambda>c. c \<noteq> CHR 0x00) piece" by (simp add: c_str_def)
    ultimately have "NEWLINE \<in> set (butlast piece)"
      using ne by (metis butlast_append in_set_butlast_appendI)
    with fgets_newline [OF assms(1)] show False by simp
  qed
  moreover have "set ?buf = insert (List.last ?buf) (set (butlast ?buf))"
    using arg_cong [OF append_butlast_last_id [OF ne], of set] by simp
  ultimately have "NEWLINE \<notin> set ?b1" by auto
  moreover have "set ?b1 \<subseteq> set ?buf" by (auto dest: in_set_butlastD)
  ultimately have "set (takeWhile (\<lambda>c. c \<noteq> CHR ''#'') ?b1) \<inter> {NEWLINE, CHR ''#'', CHR 0x00} = {}"
    using zero by (blast dest: set_takeWhileD)
  from parseLine_clean [OF assms(2) this] assms(2,3) ne show ?thesis
    by (auto simp: load_piece_def Let_def split: if_splits)
qed

lemma load_lines_clean: "load_lines content m = Some m' \<Longrightarrow> clean_map m \<Longrightarrow> clean_map m'"
proof (induction content m rule: load_lines.induct)
  case (1 content m)
  show ?case
  proof (cases "content = []")
    case True
    with 1 show ?thesis by (simp add: load_lines.simps [of "[]"])
  next
    case False
    obtain piece rest where f: "fgets 255 content = (piece, rest)" by fastforce
    with False "1.prems"(1) obtain m1 where "load_piece piece m = Some m1" "load_lines rest m1 = Some m'"
      by (auto simp: load_lines.simps [of content] split: option.splits)
    with load_piece_clean [OF f "1.prems"(2)] "1.IH" [OF False refl f [symmetric]] show ?thesis by blast
  qed
qed

subsection \<open>What is written is read back\<close>

text \<open>A pair whose text fits the buffer with its newline.\<close>

definition short_pair :: "string \<times> string \<Rightarrow> bool" where
  "short_pair p \<longleftrightarrow> length (fst p) + length (snd p) \<le> 125"

lemma pair_text_short: "short_pair (k, v) \<Longrightarrow> pair_text (k, v) = k @ CHR ''='' # v @ [NEWLINE]"
  by (simp add: pair_text_def snprintf_buf_def short_pair_def)

lemma fgets_line: "NEWLINE \<notin> set l \<Longrightarrow> length l < n \<Longrightarrow> fgets n (l @ NEWLINE # r) = (l @ [NEWLINE], r)"
proof (induction l arbitrary: n)
  case Nil
  then show ?case by (cases n) auto
next
  case (Cons c l)
  then show ?case by (cases n) auto
qed

lemma takeWhile_all: "c \<notin> set xs \<Longrightarrow> takeWhile (\<lambda>x. x \<noteq> c) xs = xs"
  by (auto simp: takeWhile_eq_all_conv)

lemma load_piece_line:
  "CHR 0x00 \<notin> set (l @ [NEWLINE]) \<Longrightarrow> CHR ''#'' \<notin> set l \<Longrightarrow> l \<noteq> [] \<Longrightarrow> load_piece (l @ [NEWLINE]) m = Some (parseLine l m)"
  unfolding load_piece_def by (subst c_str_id) (simp_all add: Let_def takeWhile_all)

lemma load_piece_pair:
  assumes "clean_key k" and "clean_value v"
  shows "load_piece (k @ CHR ''='' # v @ [NEWLINE]) m = Some (map_insert k v m)"
proof -
  have s: "CHR 0x00 \<notin> set (k @ CHR ''='' # v @ [NEWLINE])" "CHR ''#'' \<notin> set (k @ CHR ''='' # v)" "CHR ''='' \<notin> set k"
    using assms by (auto simp: clean_key_def clean_value_def NEWLINE_def)
  have t: "trimSpace k = Some k" "trimSpace v = Some v"
    using assms by (auto simp: clean_key_def clean_value_def trimSpace_trimmed)
  have "takeWhile (\<lambda>c. c \<noteq> CHR ''='') (k @ CHR ''='' # v) = k" "dropWhile (\<lambda>c. c \<noteq> CHR ''='') (k @ CHR ''='' # v) = CHR ''='' # v"
    using s(3) by (induction k) auto
  then have "parseLine (k @ CHR ''='' # v) m = map_insert k v m"
    using t by (simp add: parseLine_def)
  with load_piece_line [of "k @ CHR ''='' # v"] s show ?thesis by simp
qed

lemma load_lines_pair:
  assumes "clean_key k" and "clean_value v" and "short_pair (k, v)"
  shows "load_lines (pair_text (k, v) @ rest) m = load_lines rest (map_insert k v m)"
proof -
  have "NEWLINE \<notin> set (k @ CHR ''='' # v)" using assms by (auto simp: clean_key_def clean_value_def NEWLINE_def)
  moreover have "length (k @ CHR ''='' # v) < 255" using assms(3) by (simp add: short_pair_def)
  ultimately have "fgets 255 (pair_text (k, v) @ rest) = (k @ CHR ''='' # v @ [NEWLINE], rest)"
    using fgets_line [of "k @ CHR ''='' # v" 255 rest] by (simp add: pair_text_short assms(3))
  with load_piece_pair [OF assms(1,2)] show ?thesis
    by (subst load_lines.simps) (simp add: pair_text_short assms(3))
qed

lemma load_lines_pairs:
  assumes "clean_map (m @ ps)" and "\<forall>p \<in> set ps. short_pair p"
  shows "load_lines (concat (map pair_text ps)) m = Some (m @ ps)"
  using assms
proof (induction ps arbitrary: m)
  case Nil
  show ?case by (simp add: load_lines.simps [of "[]"])
next
  case (Cons p ps)
  obtain k v where p: "p = (k, v)" by (cases p)
  have "map_insert k v m = m @ [(k, v)]"
    using Cons.prems(1) by (intro map_insert_fresh) (auto simp: clean_map_def p sorted_wrt_append)
  moreover have "clean_map ((m @ [(k, v)]) @ ps)" using Cons.prems(1) by (simp add: p)
  ultimately show ?case
    using Cons.IH [of "m @ [(k, v)]"] Cons.prems by (simp add: p load_lines_pair clean_map_def)
qed

lemma write_pairs_all: "length ps \<le> n \<Longrightarrow> write_pairs n ps = (0, concat (map pair_text ps))"
  by (induction n ps rule: write_pairs.induct) auto

lemma loaded_clean: "loadFile (Some content) = Some cfg \<Longrightarrow> load_ok cfg \<and> clean_map (config_map cfg)"
  by (auto simp: loadFile_def clean_map_def dest!: load_lines_clean split: option.splits)

lemma load_written:
  assumes "clean_map m" and "\<forall>p \<in> set m. short_pair p"
  shows "loadFile (Some (concat (map pair_text m))) = Some \<lparr>load_ok = True, config_map = m\<rparr>"
  using load_lines_pairs [of "[]" m] assms by (simp add: loadFile_def)

subsection \<open>Properties\<close>

text \<open>
  (C19) A value that is set can be read back from the file: for a loaded configuration whose pairs
  fit the writing buffer, setting a trimmed value without newline, hash or zero byte on a writable
  file reports success, and loading the file it wrote gives the very same configuration, in
  which the name has the new value and every other name its old one.
\<close>
theorem config_set_then_load:
  assumes "loadFile (Some content) = Some cfg" and "\<forall>p \<in> set (config_map cfg). short_pair p"
    and "clean_key name" and "clean_value val" and "short_pair (name, val)" and "length (config_map cfg) < n"
  shows "\<exists>cfg' text. setConfigValue True n name val cfg = (0, cfg', Some text) \<and> loadFile (Some text) = Some cfg' \<and>
    getConfigName cfg' = (getConfigName cfg)(name \<mapsto> val)"
proof -
  let ?m = "config_map cfg"
  let ?m' = "if map_of ?m name \<noteq> None then map_set name val ?m else map_insert name val ?m"
  from loaded_clean [OF assms(1)] have ok: "load_ok cfg" and clean: "clean_map ?m" by auto
  have clean': "clean_map ?m'" using clean assms(3,4) by (simp add: clean_map_set clean_map_insert)
  have "\<forall>p \<in> set (map_set name val ?m). short_pair p"
    using assms(2,5) by (fastforce simp: map_set_def short_pair_def split: if_splits)
  then have short: "\<forall>p \<in> set ?m'. short_pair p"
    using assms(2,5) set_map_insert(2) [of name val ?m] by auto
  have "length (map_insert name val ?m) \<le> Suc (length ?m)" by (rule map_insert_length)
  then have "length ?m' \<le> n" using assms(6) by (simp add: map_set_def)
  from write_pairs_all [OF this] load_written [OF clean' short] show ?thesis
    using ok by (auto simp: setConfigValue_def writeFile_def Let_def getConfigName_def map_of_map_set map_of_map_insert fun_eq_iff)
qed

theorem config_set_then_load_witness:
  "\<exists>cfg' text. setConfigValue True 3 ''dbname'' ''chat'' \<lparr>load_ok = True, config_map = [(''dbuser'', ''root'')]\<rparr> = (0, cfg', Some text) \<and>
     loadFile (Some text) = Some cfg' \<and>
     getConfigName cfg' = (getConfigName \<lparr>load_ok = True, config_map = [(''dbuser'', ''root'')]\<rparr>)(''dbname'' \<mapsto> ''chat'')"
proof -
  let ?cfg = "\<lparr>load_ok = True, config_map = [(''dbuser'', ''root'')]\<rparr>"
  have m: "clean_map [(''dbuser'', ''root'')]" "short_pair (''dbuser'', ''root'')" "clean_key ''dbname''" "clean_value ''chat''"
      "short_pair (''dbname'', ''chat'')"
    by (simp_all add: clean_map_def clean_key_def clean_value_def trimmed_def is_blank_def NEWLINE_def short_pair_def)
  have "loadFile (Some (pair_text (''dbuser'', ''root''))) = Some ?cfg" using load_written [of "[(''dbuser'', ''root'')]"] m by simp
  from config_set_then_load [OF this _ m(3-5), of 3] m(2) show ?thesis by simp
qed

end
