(* ===== verification/Console.thy ===== *)
theory Console
  imports AsyncLog ChatService
begin

section \<open>The console client\<close>

text \<open>
  The text client (\<open>src/client/main.cpp\<close>): a main thread that reads the standard input, sends
  requests and waits on a semaphore for the answers to login and registration, and a thread
  that receives. \<open>main_step\<close> is one round of the main thread, \<open>reader_recv\<close> one \<open>recv\<close> of the
  other. What is typed is UTF-8 text; the enumeration order of the command table is a parameter.
\<close>

subsection \<open>State\<close>

record console =
  cin_good :: bool
  cin_rest :: string
  cout :: "string list"
  cerr :: "string list"
  conn_up :: bool
  con_sent :: "string list"
  rwsem :: nat
  g_currentUser :: user
  g_currentUserFriendList :: "user list"
  g_currentUserGroupList :: "group list"
  isMainMenuRunning :: bool
  g_isLoginSuccess :: bool

definition print :: "string \<Rightarrow> console \<Rightarrow> console" where
  "print s c = c\<lparr>cout := cout c @ [s]\<rparr>"

definition complain :: "string \<Rightarrow> console \<Rightarrow> console" where
  "complain s c = c\<lparr>cerr := cerr c @ [s]\<rparr>"

subsection \<open>The standard input\<close>

text \<open>
  Once the stream is not good every read fails at once. \<open>getline\<close> into a buffer of \<open>n\<close> bytes
  stores at most \<open>n - 1\<close> of them and fails when the line is longer.
\<close>

fun getline_loop :: "nat \<Rightarrow> string \<Rightarrow> string \<times> string \<times> bool" where
  "getline_loop n [] = ([], [], False)"
| "getline_loop n (ch # s) =
     (if ch = CHR 0x0A then ([], s, True)
      else (case n of 0 \<Rightarrow> ([], ch # s, False)
            | Suc m \<Rightarrow> (let (l, r, good) = getline_loop m s in (ch # l, r, good))))"

text \<open>The buffer as a C string, and the stream after it.\<close>

definition getline :: "nat \<Rightarrow> console \<Rightarrow> string \<times> console" where
  "getline n c =
     (if \<not> cin_good c then ([], c)
      else (let (l, r, good) = getline_loop (n - 1) (cin_rest c) in (c_str l, c\<lparr>cin_rest := r, cin_good := good\<rparr>)))"

definition cin_get :: "console \<Rightarrow> console" where
  "cin_get c =
     (if \<not> cin_good c then c else if cin_rest c = [] then c\<lparr>cin_good := False\<rparr> else c\<lparr>cin_rest := tl (cin_rest c)\<rparr>)"

text \<open>\<open>cin >> n\<close> for an \<open>int\<close>: 0 when there is no number, the nearest \<open>int\<close> when it is out of range.\<close>

definition cin_int :: "console \<Rightarrow> int \<times> console" where
  "cin_int c =
     (if \<not> cin_good c then (0, c)
      else (let r = dropWhile is_space (cin_rest c);
                neg = (r \<noteq> [] \<and> hd r = CHR ''-'');
                r1 = (if r \<noteq> [] \<and> hd r \<in> {CHR ''-'', CHR ''+''} then tl r else r);
                ds = takeWhile is_digit r1; rest = dropWhile is_digit r1;
                v = (if neg then - int (digits_val ds) else int (digits_val ds))
            in if ds = [] then (0, c\<lparr>cin_rest := rest, cin_good := False\<rparr>)
               else if v < -(2 ^ 31) then (-(2 ^ 31), c\<lparr>cin_rest := rest, cin_good := False\<rparr>)
               else if v \<ge> 2 ^ 31 then (2 ^ 31 - 1, c\<lparr>cin_rest := rest, cin_good := False\<rparr>)
               else (v, c\<lparr>cin_rest := rest, cin_good := (rest \<noteq> [])\<rparr>)))"

subsection \<open>Sending\<close>

text \<open>\<open>send\<close> of \<open>strlen + 1\<close> bytes: the text and its final zero, without a length before it.\<close>

definition request_bytes :: "string \<Rightarrow> string" where
  "request_bytes request = c_str request @ [CHR 0x00]"

definition send_request :: "json_lib \<Rightarrow> string \<Rightarrow> json \<Rightarrow> console \<Rightarrow> console" where
  "send_request J what js c =
     (let buffer = dump J js in
      if conn_up c then c\<lparr>con_sent := con_sent c @ [request_bytes buffer]\<rparr> else complain (what @ buffer) c)"

definition getCurrentTime :: "tm \<Rightarrow> string" where
  "getCurrentTime t = dec_int (tm_year t + 1900) @ ''-'' @ pad0 2 (tm_mon t + 1) @ ''-'' @ pad0 2 (tm_mday t) @ '' '' @
     pad0 2 (tm_hour t) @ '':'' @ pad0 2 (tm_min t) @ '':'' @ pad0 2 (tm_sec t)"

subsection \<open>Commands\<close>

text \<open>The text before the first colon, and the text after it, if there is one.\<close>

definition colon :: "string \<Rightarrow> (string \<times> string) option" where
  "colon s = (if CHR '':'' \<in> set s
     then Some (takeWhile (\<lambda>ch. ch \<noteq> CHR '':'') s, tl (dropWhile (\<lambda>ch. ch \<noteq> CHR '':'') s)) else None)"

definition commandMap :: "(string \<times> string) list" where
  "commandMap = [
     (''help'', [CHR 0xE6, CHR 0x98, CHR 0xBE, CHR 0xE7, CHR 0xA4, CHR 0xBA, CHR 0xE6, CHR 0x89, CHR 0x80, CHR 0xE6, CHR 0x9C, CHR 0x89, CHR 0xE6, CHR 0x94, CHR 0xAF, CHR 0xE6, CHR 0x8C, CHR 0x81, CHR 0xE7, CHR 0x9A, CHR 0x84, CHR 0xE5, CHR 0x91, CHR 0xBD, CHR 0xE4, CHR 0xBB, CHR 0xA4, CHR 0xEF, CHR 0xBC, CHR 0x8C, CHR 0xE6, CHR 0xA0, CHR 0xBC, CHR 0xE5, CHR 0xBC, CHR 0x8F] @ ''help''),
     (''chat'', [CHR 0xE4, CHR 0xB8, CHR 0x80, CHR 0xE5, CHR 0xAF, CHR 0xB9, CHR 0xE4, CHR 0xB8, CHR 0x80, CHR 0xE8, CHR 0x81, CHR 0x8A, CHR 0xE5, CHR 0xA4, CHR 0xA9, CHR 0xEF, CHR 0xBC, CHR 0x8C, CHR 0xE6, CHR 0xA0, CHR 0xBC, CHR 0xE5, CHR 0xBC, CHR 0x8F] @ ''chat:friendid:message''),
     (''addfriend'', [CHR 0xE6, CHR 0xB7, CHR 0xBB, CHR 0xE5, CHR 0x8A, CHR 0xA0, CHR 0xE5, CHR 0xA5, CHR 0xBD, CHR 0xE5, CHR 0x8F, CHR 0x8B, CHR 0xEF, CHR 0xBC, CHR 0x8C, CHR 0xE6, CHR 0xA0, CHR 0xBC, CHR 0xE5, CHR 0xBC, CHR 0x8F] @ ''addfriend:friendid''),
     (''creategroup'', [CHR 0xE5, CHR 0x88, CHR 0x9B, CHR 0xE5, CHR 0xBB, CHR 0xBA, CHR 0xE7, CHR 0xBE, CHR 0xA4, CHR 0xE7, CHR 0xBB, CHR 0x84, CHR 0xEF, CHR 0xBC, CHR 0x8C, CHR 0xE6, CHR 0xA0, CHR 0xBC, CHR 0xE5, CHR 0xBC, CHR 0x8F] @ ''creategroup:groupname:groupdesc''),
     (''addgroup'', [CHR 0xE5, CHR 0x8A, CHR 0xA0, CHR 0xE5, CHR 0x85, CHR 0xA5, CHR 0xE7, CHR 0xBE, CHR 0xA4, CHR 0xE7, CHR 0xBB, CHR 0x84, CHR 0xEF, CHR 0xBC, CHR 0x8C, CHR 0xE6, CHR 0xA0, CHR 0xBC, CHR 0xE5, CHR 0xBC, CHR 0x8F] @ ''addgroup:groupid''),
     (''groupchat'', [CHR 0xE7, CHR 0xBE, CHR 0xA4, CHR 0xE8, CHR 0x81, CHR 0x8A, CHR 0xEF, CHR 0xBC, CHR 0x8C, CHR 0xE6, CHR 0xA0, CHR 0xBC, CHR 0xE5, CHR 0xBC, CHR 0x8F] @ ''groupchat:groupid:message''),
     (''loginout'', [CHR 0xE6, CHR 0xB3, CHR 0xA8, CHR 0xE9, CHR 0x94, CHR 0x80, CHR 0xEF, CHR 0xBC, CHR 0x8C, CHR 0xE6, CHR 0xA0, CHR 0xBC, CHR 0xE5, CHR 0xBC, CHR 0x8F] @ ''loginout'')]"

definition help_cmd :: "(string \<times> string) list \<Rightarrow> console \<Rightarrow> console" where
  "help_cmd order c = print [] (foldl (\<lambda>c p. print (fst p @ '' : '' @ snd p) c) (print ''show command list >>> '' c) order)"

definition addfriend :: "json_lib \<Rightarrow> string \<Rightarrow> console \<Rightarrow> console" where
  "addfriend J str c = send_request J ''send addfriend msg error -> ''
     (jobj [(''msgid'', JInt (code ADD_FRIEND_MSG)), (''id'', JInt (uid (g_currentUser c))), (''friendid'', JInt (c_atoi str))]) c"

definition console_chat :: "json_lib \<Rightarrow> tm \<Rightarrow> string \<Rightarrow> console \<Rightarrow> console" where
  "console_chat J t str c = (case colon str of
      None \<Rightarrow> complain ''chat command invalid!'' c
    | Some (friendid, message) \<Rightarrow> send_request J ''send chat msg error -> ''
        (jobj [(''msgid'', JInt (code ONE_CHAT_MSG)), (''id'', JInt (uid (g_currentUser c))), (''name'', JStr (uname (g_currentUser c))),
          (''toid'', JInt (c_atoi friendid)), (''msg'', JStr message), (''time'', JStr (getCurrentTime t))]) c)"

definition creategroup :: "json_lib \<Rightarrow> string \<Rightarrow> console \<Rightarrow> console" where
  "creategroup J str c = (case colon str of
      None \<Rightarrow> complain ''creategroup command invalid!'' c
    | Some (groupname, groupdesc) \<Rightarrow> send_request J ''send creategroup msg error -> ''
        (jobj [(''msgid'', JInt (code CREATE_GROUP_MSG)), (''id'', JInt (uid (g_currentUser c))),
          (''groupname'', JStr groupname), (''groupdesc'', JStr groupdesc)]) c)"

definition addgroup :: "json_lib \<Rightarrow> string \<Rightarrow> console \<Rightarrow> console" where
  "addgroup J str c = send_request J ''send addgroup msg error -> ''
     (jobj [(''msgid'', JInt (code ADD_GROUP_MSG)), (''id'', JInt (uid (g_currentUser c))), (''groupid'', JInt (c_atoi str))]) c"

definition groupchat :: "json_lib \<Rightarrow> tm \<Rightarrow> string \<Rightarrow> console \<Rightarrow> console" where
  "groupchat J t str c = (case colon str of
      None \<Rightarrow> complain ''groupchat command invalid!'' c
    | Some (groupid, message) \<Rightarrow> send_request J ''send groupchat msg error -> ''
        (jobj [(''msgid'', JInt (code GROUP_CHAT_MSG)), (''id'', JInt (uid (g_currentUser c))), (''name'', JStr (uname (g_currentUser c))),
          (''groupid'', JInt (c_atoi groupid)), (''msg'', JStr message), (''time'', JStr (getCurrentTime t))]) c)"

definition console_loginout :: "json_lib \<Rightarrow> console \<Rightarrow> console" where
  "console_loginout J c =
     (let c1 = send_request J ''send loginout msg error -> ''
        (jobj [(''msgid'', JInt (code LOGINOUT_MSG)), (''id'', JInt (uid (g_currentUser c)))]) c
      in if conn_up c then c1\<lparr>isMainMenuRunning := False\<rparr> else c1)"

definition run_command :: "json_lib \<Rightarrow> (string \<times> string) list \<Rightarrow> tm \<Rightarrow> string \<Rightarrow> string \<Rightarrow> console \<Rightarrow> console option" where
  "run_command J order t command arg c =
     (if command = ''help'' then Some (help_cmd order c)
      else if command = ''chat'' then Some (console_chat J t arg c)
      else if command = ''addfriend'' then Some (addfriend J arg c)
      else if command = ''creategroup'' then Some (creategroup J arg c)
      else if command = ''addgroup'' then Some (addgroup J arg c)
      else if command = ''groupchat'' then Some (groupchat J t arg c)
      else if command = ''loginout'' then Some (console_loginout J c)
      else None)"

definition is_trimmed :: "char \<Rightarrow> bool" where
  "is_trimmed ch \<longleftrightarrow> ch = CHR '' '' \<or> ch = CHR 0x09 \<or> ch = CHR 0x0D \<or> ch = CHR 0x0A"

text \<open>One round of the loop of \<open>mainMenu\<close>; a command without a colon is its own argument.\<close>

definition mainMenu_round :: "json_lib \<Rightarrow> (string \<times> string) list \<Rightarrow> tm \<Rightarrow> console \<Rightarrow> console" where
  "mainMenu_round J order t c =
     (let (buffer, c1) = getline 1024 c; start = dropWhile is_trimmed buffer in
      if start = [] then c1
      else (let commandbuf = rev (dropWhile is_trimmed (rev start));
                (command, arg) = (case colon commandbuf of None \<Rightarrow> (commandbuf, commandbuf) | Some p \<Rightarrow> p)
            in case run_command J order t command arg c1 of
                 None \<Rightarrow> complain ''invalid input command!'' c1
               | Some c2 \<Rightarrow> c2))"

subsection \<open>The main thread\<close>

datatype main_pc = At_menu | Wait_login | Wait_reg | In_chat | Quit

definition menu_lines :: "string list" where
  "menu_lines = [''========================'', ''1. login'', ''2. register'', ''3. quit'', ''========================'', ''choice:'']"

definition ask_login :: "json_lib \<Rightarrow> console \<Rightarrow> console" where
  "ask_login J c =
     (let (userid, c1) = cin_int (print ''userid:'' c);
          (pwd, c2) = getline 50 (print ''userpassword:'' (cin_get c1))
      in send_request J ''send login msg error:''
           (jobj [(''msgid'', JInt (code LOGIN_MSG)), (''id'', JInt userid), (''password'', JStr pwd)]) (c2\<lparr>g_isLoginSuccess := False\<rparr>))"

definition ask_register :: "json_lib \<Rightarrow> console \<Rightarrow> console" where
  "ask_register J c =
     (let (name, c1) = getline 50 (print ''username:'' c); (pwd, c2) = getline 50 (print ''userpassword:'' c1)
      in send_request J ''send reg msg error:''
           (jobj [(''msgid'', JInt (code REG_MSG)), (''name'', JStr name), (''password'', JStr pwd)]) c2)"

text \<open>A round of the main thread; it stays where it is while the semaphore is zero.\<close>

definition main_step :: "json_lib \<Rightarrow> (string \<times> string) list \<Rightarrow> tm \<Rightarrow> main_pc \<Rightarrow> console \<Rightarrow> main_pc \<times> console" where
  "main_step J order t pc c = (case pc of
      At_menu \<Rightarrow>
        (let (choice, c1) = cin_int (foldl (\<lambda>c l. print l c) c menu_lines); c2 = cin_get c1 in
         if choice = 1 then (Wait_login, ask_login J c2)
         else if choice = 2 then (Wait_reg, ask_register J c2)
         else if choice = 3 then (Quit, c2\<lparr>conn_up := False\<rparr>)
         else (At_menu, complain ''invalid input!'' c2))
    | Wait_login \<Rightarrow>
        if rwsem c = 0 then (Wait_login, c)
        else (let c1 = c\<lparr>rwsem := rwsem c - 1\<rparr> in
              if g_isLoginSuccess c1 then (In_chat, help_cmd order (c1\<lparr>isMainMenuRunning := True\<rparr>)) else (At_menu, c1))
    | Wait_reg \<Rightarrow> if rwsem c = 0 then (Wait_reg, c) else (At_menu, c\<lparr>rwsem := rwsem c - 1\<rparr>)
    | In_chat \<Rightarrow> if isMainMenuRunning c then (In_chat, mainMenu_round J order t c) else (At_menu, c)
    | Quit \<Rightarrow> (Quit, c))"

subsection \<open>The start of the program\<close>

text \<open>
  What is printed and which sockets are closed before the exit, or the connected socket with which
  the threads start. \<open>clientfd\<close> and \<open>conn\<close> are the answers of \<open>socket\<close> and \<open>connect\<close>, \<open>argv\<close> has the program's name.
\<close>

datatype console_start = Exited string "int list" | Started int console

definition new_console :: "string \<Rightarrow> console" where
  "new_console input = \<lparr>cin_good = True, cin_rest = input, cout = [], cerr = [], conn_up = True, con_sent = [], rwsem = 0,
     g_currentUser = new_user, g_currentUserFriendList = [], g_currentUserGroupList = [],
     isMainMenuRunning = False, g_isLoginSuccess = False\<rparr>"

definition console_main :: "int \<Rightarrow> (string \<Rightarrow> 16 word \<Rightarrow> int) \<Rightarrow> string list \<Rightarrow> string \<Rightarrow> console_start" where
  "console_main clientfd conn argv input =
     (if length argv < 3 then Exited ''command invalid! example: ./ChatClient 127.0.0.1 6000'' []
      else (let ip = argv ! 1; port = word_of_int (c_atoi (argv ! 2)) in
        if clientfd = -1 then Exited ''socket create error'' []
        else if conn ip port = -1 then Exited ''connect server error'' [clientfd]
        else Started clientfd (new_console input)))"

text \<open>The program starts its threads exactly with a connected socket; an opened socket is closed otherwise.\<close>

lemma console_main_started:
  "console_main fd conn argv input = Started fd' c \<longleftrightarrow>
    (\<exists>name ip port rest. argv = name # ip # port # rest) \<and> fd \<noteq> -1 \<and> conn (argv ! 1) (word_of_int (c_atoi (argv ! 2))) \<noteq> -1 \<and>
    fd' = fd \<and> c = new_console input"
  by (auto simp: console_main_def Let_def neq_Nil_conv Suc_le_length_iff numeral_3_eq_3 not_less
      intro!: exI split: if_splits)

subsection \<open>The receiving thread\<close>

text \<open>Computations that may throw; nothing in this program catches.\<close>

definition sbind :: "'e + 'a \<Rightarrow> ('a \<Rightarrow> 'e + 'b) \<Rightarrow> 'e + 'b" where
  "sbind m f = (case m of Inl e \<Rightarrow> Inl e | Inr x \<Rightarrow> f x)"

fun smap :: "('a \<Rightarrow> 'e + 'b) \<Rightarrow> 'a list \<Rightarrow> 'e + 'b list" where
  "smap f [] = Inr []"
| "smap f (x # xs) = sbind (f x) (\<lambda>y. sbind (smap f xs) (\<lambda>ys. Inr (y # ys)))"

definition parse_text :: "json_lib \<Rightarrow> string \<Rightarrow> json_error + json" where
  "parse_text J s = (case parse J s of None \<Rightarrow> Inl Parse_error | Some j \<Rightarrow> Inr j)"

text \<open>\<open>vector<string> vec = js[k]\<close>.\<close>

definition strings_field :: "json \<Rightarrow> string \<Rightarrow> json_error + string list" where
  "strings_field j k = sbind (jindex j k) (\<lambda>v. case v of JArr vs \<Rightarrow> smap get_string vs | _ \<Rightarrow> Inl Type_error)"

definition read_friend :: "json_lib \<Rightarrow> string \<Rightarrow> json_error + user" where
  "read_friend J str = sbind (parse_text J str) (\<lambda>js. sbind (int_field J js ''id'') (\<lambda>i.
     sbind (string_field js ''name'') (\<lambda>n. sbind (string_field js ''state'') (\<lambda>st.
     Inr (new_user\<lparr>uid := i, uname := n, ustate := st\<rparr>)))))"

definition read_member :: "json_lib \<Rightarrow> string \<Rightarrow> json_error + group_user" where
  "read_member J str = sbind (parse_text J str) (\<lambda>js. sbind (int_field J js ''id'') (\<lambda>i.
     sbind (string_field js ''name'') (\<lambda>n. sbind (string_field js ''state'') (\<lambda>st. sbind (string_field js ''role'') (\<lambda>ro.
     Inr \<lparr>uid = i, uname = n, upwd = [], ustate = st, urole = ro\<rparr>)))))"

definition read_group :: "json_lib \<Rightarrow> string \<Rightarrow> json_error + group" where
  "read_group J str = sbind (parse_text J str) (\<lambda>js. sbind (int_field J js ''id'') (\<lambda>i.
     sbind (string_field js ''groupname'') (\<lambda>n. sbind (string_field js ''groupdesc'') (\<lambda>d.
     sbind (strings_field js ''users'') (\<lambda>vec2. sbind (smap (read_member J) vec2) (\<lambda>us.
     Inr \<lparr>gid = i, gname = n, gdesc = d, gusers = us\<rparr>))))))"

text \<open>\<open>time [id]name said: msg\<close>; the id is printed as JSON. The line of a group starts with its id.\<close>

definition chat_line :: "json_lib \<Rightarrow> json \<Rightarrow> json_error + string" where
  "chat_line J js = sbind (string_field js ''time'') (\<lambda>t. sbind (jindex js ''id'') (\<lambda>i.
     sbind (string_field js ''name'') (\<lambda>n. sbind (string_field js ''msg'') (\<lambda>m.
     Inr (t @ '' ['' @ dump J i @ '']'' @ n @ '' said: '' @ m)))))"

definition group_line :: "json_lib \<Rightarrow> json \<Rightarrow> json_error + string" where
  "group_line J js = sbind (jindex js ''groupid'') (\<lambda>g. sbind (chat_line J js) (\<lambda>l.
     Inr ([CHR 0xE7, CHR 0xBE, CHR 0xA4, CHR 0xE6, CHR 0xB6, CHR 0x88, CHR 0xE6, CHR 0x81, CHR 0xAF] @
       ''['' @ dump J g @ '']:'' @ l)))"

definition offline_line :: "json_lib \<Rightarrow> string \<Rightarrow> json_error + string" where
  "offline_line J str = sbind (parse_text J str) (\<lambda>js. sbind (int_field J js ''msgid'') (\<lambda>m.
     if m = code ONE_CHAT_MSG then chat_line J js else group_line J js))"

definition user_line :: "user \<Rightarrow> string" where
  "user_line u = dec_int (uid u) @ '' '' @ uname u @ '' '' @ ustate u"

definition group_lines :: "group \<Rightarrow> string list" where
  "group_lines g = (dec_int (gid g) @ '' '' @ gname g @ '' '' @ gdesc g) #
     map (\<lambda>u. dec_int (uid u) @ '' '' @ uname u @ '' '' @ ustate u @ '' '' @ urole u) (gusers g)"

definition showCurrentUserData :: "console \<Rightarrow> console" where
  "showCurrentUserData c = c\<lparr>cout := cout c @
     [''======================login user======================'',
      ''current login user => id:'' @ dec_int (uid (g_currentUser c)) @ '' name:'' @ uname (g_currentUser c),
      ''----------------------friend list---------------------''] @ map user_line (g_currentUserFriendList c) @
     [''----------------------group list----------------------''] @ concat (map group_lines (g_currentUserGroupList c)) @
     [''======================================================'']\<rparr>"

definition doRegResponse :: "json_lib \<Rightarrow> json \<Rightarrow> console \<Rightarrow> json_error + console" where
  "doRegResponse J js c = sbind (int_field J js ''errno'') (\<lambda>e.
     if e \<noteq> 0 then Inr (complain ''name is already exist, register error!'' c)
     else sbind (jindex js ''id'') (\<lambda>i.
       Inr (print (''name register success, userid is '' @ dump J i @ '', do not forget it!'') c)))"

definition doLoginResponse :: "json_lib \<Rightarrow> json \<Rightarrow> console \<Rightarrow> json_error + console" where
  "doLoginResponse J js c = sbind (int_field J js ''errno'') (\<lambda>e.
     if e \<noteq> 0 then sbind (jindex js ''errmsg'') (\<lambda>m. Inr ((complain (dump J m) c)\<lparr>g_isLoginSuccess := False\<rparr>))
     else sbind (int_field J js ''id'') (\<lambda>i. sbind (string_field js ''name'') (\<lambda>n.
       let c1 = c\<lparr>g_currentUser := (g_currentUser c)\<lparr>uid := i, uname := n\<rparr>\<rparr> in
       sbind (if contains js ''friends'' then sbind (strings_field js ''friends'') (smap (read_friend J)) else Inr (g_currentUserFriendList c1)) (\<lambda>fs.
       sbind (if contains js ''groups'' then sbind (strings_field js ''groups'') (smap (read_group J)) else Inr (g_currentUserGroupList c1)) (\<lambda>gs.
       let c2 = showCurrentUserData (c1\<lparr>g_currentUserFriendList := fs, g_currentUserGroupList := gs\<rparr>) in
       sbind (if contains js ''offlinemsg'' then sbind (strings_field js ''offlinemsg'') (smap (offline_line J)) else Inr []) (\<lambda>ls.
       Inr (c2\<lparr>cout := cout c2 @ ls, g_isLoginSuccess := True\<rparr>)))))))"

text \<open>
  One \<open>recv\<close> of at most 1024 bytes, none when the connection is lost. The buffer is read as a C
  string; without a zero in 1024 bytes that is past its end (\<open>Undefined\<close>). An exception in
  the thread ends the process.
\<close>

datatype reader_result = Ended | Undefined | Running console

definition reader_dispatch :: "json_lib \<Rightarrow> json \<Rightarrow> int \<Rightarrow> console \<Rightarrow> json_error + console" where
  "reader_dispatch J js msgtype c =
     (if msgtype = code ONE_CHAT_MSG then sbind (chat_line J js) (\<lambda>l. Inr (print l c))
      else if msgtype = code GROUP_CHAT_MSG then sbind (group_line J js) (\<lambda>l. Inr (print l c))
      else if msgtype = code LOGIN_MSG_ACK then sbind (doLoginResponse J js c) (\<lambda>c1. Inr (c1\<lparr>rwsem := rwsem c1 + 1\<rparr>))
      else if msgtype = code REG_MSG_ACK then sbind (doRegResponse J js c) (\<lambda>c1. Inr (c1\<lparr>rwsem := rwsem c1 + 1\<rparr>))
      else Inr c)"

definition reader_recv :: "json_lib \<Rightarrow> string \<Rightarrow> console \<Rightarrow> reader_result" where
  "reader_recv J data c =
     (if data = [] then Ended
      else if length data = 1024 \<and> CHR 0x00 \<notin> set data then Undefined
      else (case sbind (parse_text J (c_str data)) (\<lambda>js. sbind (int_field J js ''msgid'') (\<lambda>m. reader_dispatch J js m c)) of
            Inl e \<Rightarrow> Ended | Inr c1 \<Rightarrow> Running c1))"

end
