(* ===== verification/ConsoleProps.thy ===== *)
theory ConsoleProps
  imports Console RefChat Server
begin

section \<open>The console client and the framed protocol\<close>

text \<open>
  The console client sends its requests without the length of the protocol, and takes what it
  receives for text. The theorems say what follows for a run against the server, what a
  command sends, and what happens when the standard input fails.
\<close>

subsection \<open>Runs\<close>

definition new_console :: "string \<Rightarrow> console" where
  "new_console input = \<lparr>cin_good = True, cin_rest = input, cout = [], cerr = [], conn_up = True, con_sent = [], rwsem = 0,
     g_currentUser = new_user, g_currentUserFriendList = [], g_currentUserGroupList = [], isMainMenuRunning = False,
     g_isLoginSuccess = False\<rparr>"

text \<open>The two threads in any order: a round of the main thread at a time \<open>t\<close>, or a \<open>recv\<close>. \<open>None\<close>: the process ended.\<close>

datatype con_event = Main tm | Recv string

fun console_run :: "json_lib \<Rightarrow> (string \<times> string) list \<Rightarrow> con_event list \<Rightarrow> main_pc \<times> console \<Rightarrow> (main_pc \<times> console) option" where
  "console_run J order [] s = Some s"
| "console_run J order (Main t # es) s = console_run J order es (main_step J order t (fst s) (snd s))"
| "console_run J order (Recv data # es) s = (case reader_recv J data (snd s) of
      Running c \<Rightarrow> console_run J order es (fst s, c) | _ \<Rightarrow> None)"

subsection \<open>What is on the wire\<close>

text \<open>Serialised JSON is not empty and has no control characters: those of strings are escaped.\<close>

definition json_text :: "json_lib \<Rightarrow> bool" where
  "json_text J \<longleftrightarrow> (\<forall>j. dump J j \<noteq> [] \<and> (\<forall>ch\<in>set (dump J j). 32 \<le> (of_char ch :: nat)))"

definition is_request :: "string \<Rightarrow> bool" where
  "is_request r \<longleftrightarrow> (\<exists>t. r = t @ [CHR 0x00] \<and> t \<noteq> [] \<and> (\<forall>ch\<in>set t. 32 \<le> (of_char ch :: nat)))"

lemma nul_code: "(of_char (CHR 0x00) :: nat) = 0"
  by simp

lemma request_bytes_ok: "json_text J \<Longrightarrow> is_request (request_bytes (dump J js))"
proof -
  assume J: "json_text J"
  then have "CHR 0x00 \<notin> set (dump J js)" unfolding json_text_def using nul_code by fastforce
  then show ?thesis using J by (auto simp: request_bytes_def is_request_def json_text_def)
qed

definition sends_requests :: "console \<Rightarrow> bool" where
  "sends_requests c \<longleftrightarrow> (\<forall>r\<in>set (con_sent c). is_request r)"

lemma cin_int_frame: "con_sent (snd (cin_int c)) = con_sent c"
  unfolding cin_int_def Let_def by (simp split: if_split del: split_paired_All)

lemma con_sent_frame [simp]:
  "con_sent (print s c) = con_sent c" "con_sent (complain s c) = con_sent c"
  "con_sent (snd (getline n c)) = con_sent c" "con_sent (cin_get c) = con_sent c" "con_sent (snd (cin_int c)) = con_sent c"
  "con_sent (showCurrentUserData c) = con_sent c"
  by (simp_all add: print_def complain_def getline_def cin_get_def cin_int_frame showCurrentUserData_def Let_def split: prod.split)

lemma con_sent_prints [simp]:
  "con_sent (foldl (\<lambda>c l. print l c) c ls) = con_sent c"
  "con_sent (foldl (\<lambda>c p. print (f p) c) c ps) = con_sent c"
  by (induction ls arbitrary: c, simp_all) (induction ps arbitrary: c, simp_all)

lemma con_sent_help [simp]: "con_sent (help_cmd order c) = con_sent c"
  by (simp add: help_cmd_def)

lemma send_request_ok: "json_text J \<Longrightarrow> sends_requests c \<Longrightarrow> sends_requests (send_request J what js c)"
  by (auto simp: send_request_def sends_requests_def Let_def complain_def request_bytes_ok)

lemma sends_cong: "con_sent c = con_sent c' \<Longrightarrow> sends_requests c \<Longrightarrow> sends_requests c'"
  by (simp add: sends_requests_def)

lemma run_command_ok:
  assumes "json_text J" "sends_requests c" "run_command J order t command arg c = Some c'"
  shows "sends_requests c'"
proof -
  have lo: "sends_requests (console_loginout J c)"
    using send_request_ok [OF assms(1,2)] by (auto simp: console_loginout_def Let_def sends_requests_def)
  have h: "sends_requests (help_cmd order c)" "sends_requests (complain s c)" for s
    using assms(2) by (simp_all add: sends_requests_def)
  show ?thesis
    using assms(3) send_request_ok [OF assms(1,2)] lo h
    by (auto simp: run_command_def console_chat_def addfriend_def creategroup_def addgroup_def groupchat_def simp del: code.simps
        split: if_splits option.splits)
qed

lemma mainMenu_round_ok:
  assumes "json_text J" "sends_requests c"
  shows "sends_requests (mainMenu_round J order t c)"
proof -
  obtain b c1 where g: "getline 1024 c = (b, c1)" by force
  then have "con_sent c1 = con_sent c" using con_sent_frame(3) [of 1024 c] by simp
  then have c1: "sends_requests c1" "sends_requests (complain s c1)" for s using assms(2) by (simp_all add: sends_requests_def)
  show ?thesis
    unfolding mainMenu_round_def g using c1 run_command_ok [OF assms(1) c1(1)]
    by (auto simp: Let_def split: prod.split option.split)
qed

lemma ask_ok:
  assumes "json_text J" "sends_requests c"
  shows "sends_requests (ask_login J c)" "sends_requests (ask_register J c)"
proof -
  obtain i c1 where 1: "cin_int (print ''userid:'' c) = (i, c1)" by force
  obtain p c2 where 2: "getline 50 (print ''userpassword:'' (cin_get c1)) = (p, c2)" by force
  have "con_sent c2 = con_sent c"
    using con_sent_frame(5) [of "print ''userid:'' c"] con_sent_frame(3) [of 50 "print ''userpassword:'' (cin_get c1)"] 1 2 by simp
  then show "sends_requests (ask_login J c)"
    unfolding ask_login_def 1 Let_def case_prod_conv 2 using assms by (intro send_request_ok) (simp_all add: sends_requests_def)
  obtain n d1 where 3: "getline 50 (print ''username:'' c) = (n, d1)" by force
  obtain q d2 where 4: "getline 50 (print ''userpassword:'' d1) = (q, d2)" by force
  have "con_sent d2 = con_sent c"
    using con_sent_frame(3) [of 50 "print ''username:'' c"] con_sent_frame(3) [of 50 "print ''userpassword:'' d1"] 3 4 by simp
  then show "sends_requests (ask_register J c)"
    unfolding ask_register_def 3 Let_def case_prod_conv 4 using assms by (intro send_request_ok) (simp_all add: sends_requests_def)
qed

lemma main_step_ok:
  assumes "json_text J" "sends_requests c"
  shows "sends_requests (snd (main_step J order t pc c))"
proof (cases pc)
  case At_menu
  obtain i c1 where 1: "cin_int (foldl (\<lambda>c l. print l c) c menu_lines) = (i, c1)" by force
  have "con_sent (cin_get c1) = con_sent c"
    using con_sent_frame(5) [of "foldl (\<lambda>c l. print l c) c menu_lines"] 1 by simp
  then have "sends_requests (cin_get c1)" using assms(2) by (simp add: sends_requests_def)
  then show ?thesis
    using ask_ok [OF assms(1)] by (simp add: At_menu main_step_def 1 Let_def) (simp add: sends_requests_def)
qed (use assms mainMenu_round_ok in \<open>auto simp: main_step_def sends_requests_def Let_def\<close>)

lemma sbind_Inr: "sbind m f = Inr y \<longleftrightarrow> (\<exists>x. m = Inr x \<and> f x = Inr y)"
  by (simp add: sbind_def split: sum.split)

lemma doRegResponse_sent: "doRegResponse J js c = Inr c' \<Longrightarrow> con_sent c' = con_sent c"
  by (auto simp: doRegResponse_def sbind_Inr split: if_splits)

lemma doLoginResponse_sent:
  assumes "doLoginResponse J js c = Inr c'"
  shows "con_sent c' = con_sent c"
proof -
  obtain e where e: "int_field J js ''errno'' = Inr e"
    using assms unfolding doLoginResponse_def sbind_Inr by blast
  show ?thesis
  proof (cases "e = 0")
    case False
    with assms e show ?thesis unfolding doLoginResponse_def sbind_Inr by (force simp: sbind_Inr)
  next
    case True
    with assms e obtain i n where
      "(let c1 = c\<lparr>g_currentUser := (g_currentUser c)\<lparr>uid := i, uname := n\<rparr>\<rparr> in
         sbind (if contains js ''friends'' then sbind (strings_field js ''friends'') (smap (read_friend J)) else Inr (g_currentUserFriendList c1)) (\<lambda>fs.
         sbind (if contains js ''groups'' then sbind (strings_field js ''groups'') (smap (read_group J)) else Inr (g_currentUserGroupList c1)) (\<lambda>gs.
         let c2 = showCurrentUserData (c1\<lparr>g_currentUserFriendList := fs, g_currentUserGroupList := gs\<rparr>) in
         sbind (if contains js ''offlinemsg'' then sbind (strings_field js ''offlinemsg'') (smap (offline_line J)) else Inr []) (\<lambda>ls.
         Inr (c2\<lparr>cout := cout c2 @ ls, g_isLoginSuccess := True\<rparr>))))) = Inr c'"
      unfolding doLoginResponse_def by (simp add: sbind_Inr) blast
    then show ?thesis unfolding Let_def sbind_Inr by fastforce
  qed
qed

lemma reader_dispatch_sent:
  "reader_dispatch J js m c = Inr c' \<Longrightarrow> con_sent c' = con_sent c"
  using doLoginResponse_sent [of J js c] doRegResponse_sent [of J js c]
  by (auto simp: reader_dispatch_def sbind_Inr simp del: code.simps split: if_split_asm)

lemma reader_ok:
  assumes "reader_recv J data c = Running c'"
  shows "con_sent c' = con_sent c"
proof -
  have "\<exists>js m. reader_dispatch J js m c = Inr c'"
    using assms unfolding reader_recv_def by (auto simp: sbind_Inr split: if_split_asm sum.split_asm)
  then show ?thesis using reader_dispatch_sent by blast
qed

lemma console_run_ok:
  assumes "json_text J" "console_run J order es (pc, c) = Some (pc', c')" "sends_requests c"
  shows "sends_requests c'"
  using assms(2,3)
proof (induction es arbitrary: pc c)
  case (Cons e es)
  show ?case
  proof (cases e)
    case (Main t)
    with Cons.prems(1) show ?thesis
      using Cons.IH [of "fst (main_step J order t pc c)" "snd (main_step J order t pc c)"] main_step_ok [OF assms(1) Cons.prems(2)] by simp
  next
    case (Recv data)
    with Cons.prems(1) obtain d where "reader_recv J data c = Running d" "console_run J order es (pc, d) = Some (pc', c')"
      by (auto split: reader_result.splits)
    with Cons.IH [of pc d] Cons.prems(2) reader_ok [of J data c d] show ?thesis by (simp add: sends_requests_def)
  qed
qed simp

subsection \<open>The server never finds a frame\<close>

text \<open>Zeros and characters from 32, no two zeros next to each other: every four bytes announce too long a body.\<close>

definition texty :: "string \<Rightarrow> bool" where
  "texty s \<longleftrightarrow> (\<forall>ch\<in>set s. (of_char ch :: nat) = 0 \<or> 32 \<le> (of_char ch :: nat)) \<and>
     successively (\<lambda>a b. (of_char a :: nat) \<noteq> 0 \<or> (of_char b :: nat) \<noteq> 0) s"

lemma texty_appendD: "texty (x @ y) \<Longrightarrow> texty x \<and> texty y"
  by (auto simp: texty_def successively_append_iff)

lemma texty_requests: "\<forall>r\<in>set rs. is_request r \<Longrightarrow> texty (concat rs) \<and> (concat rs \<noteq> [] \<longrightarrow> 32 \<le> (of_char (hd (concat rs)) :: nat))"
proof (induction rs)
  case (Cons r rs)
  then obtain t where t: "r = t @ [CHR 0x00]" "t \<noteq> []" "\<forall>ch\<in>set t. 32 \<le> (of_char ch :: nat)"
    by (auto simp: is_request_def)
  have s: "successively (\<lambda>a b. (of_char a :: nat) \<noteq> 0 \<or> (of_char b :: nat) \<noteq> 0) t"
    using t(3) by (induction t) (auto simp: successively_Cons)
  have "(of_char (List.last t) :: nat) \<noteq> 0" using t(2,3) by (metis last_in_set not_numeral_le_zero)
  with Cons t s show ?case
    by (auto simp: texty_def successively_append_iff hd_append successively_Cons)
qed (simp add: texty_def)

lemma texty_bad:
  assumes "texty s" "4 \<le> length s"
  shows "scan s = Bad"
proof -
  obtain a b c d r where s: "s = a # b # c # d # r" using assms(2) unfolding length_ge_4 by blast
  define n :: nat where "n = of_char a * 2 ^ 24 + of_char b * 2 ^ 16 + of_char c * 2 ^ 8 + of_char d"
  have lt: "(of_char x :: nat) < 256" for x by simp
  have "n < 2 ^ 32" using lt [of a] lt [of b] lt [of c] lt [of d] by (simp add: n_def del: nat_of_char_less_256)
  moreover have "rd32 s = word_of_nat n" by (simp only: s rd32_def list.case n_def)
  ultimately have u: "unat (rd32 s) = n" by (simp add: unat_of_nat)
  have ab: "(of_char a :: nat) = 0 \<or> 32 \<le> (of_char a :: nat)" "(of_char b :: nat) = 0 \<or> 32 \<le> (of_char b :: nat)"
    "(of_char a :: nat) \<noteq> 0 \<or> (of_char b :: nat) \<noteq> 0"
    using assms(1) by (auto simp: s texty_def)
  then have "max_body < n" by (auto simp: n_def max_body_def)
  then show ?thesis using assms(2) by (simp add: scan_def u)
qed

lemma texty_feed:
  assumes "texty (fst st @ d)"
  shows "server_feed st d = (if length (fst st @ d) < 4 then (fst st @ d, snd st) else ([], snd st))"
proof -
  have "scan (fst st @ d) = (if length (fst st @ d) < 4 then More else Bad)"
    using texty_bad [OF assms] by (simp add: scan_def)
  then show ?thesis by (auto simp: server_feed_def onMessage_loop_scan [of _ "fst st @ d"])
qed

lemma texty_feeds:
  assumes "texty (fst st @ concat chunks)"
  shows "snd (foldl server_feed st chunks) = snd st"
  using assms
proof (induction chunks arbitrary: st)
  case (Cons d ds)
  have t: "texty ((fst st @ d) @ concat ds)" using Cons.prems by simp
  then have "texty (fst st @ d)" "texty (concat ds)" using texty_appendD by blast+
  with t have "texty (fst (server_feed st d) @ concat ds)" "snd (server_feed st d) = snd st"
    by (simp_all add: texty_feed)
  with Cons.IH [of "server_feed st d"] show ?case by simp
qed simp

subsection \<open>The state of the input\<close>

lemma cin_good_frame [simp]:
  "cin_good (complain s c) = cin_good c" "cin_good (print s c) = cin_good c"
  "cin_good (send_request J what js c) = cin_good c"
  by (simp_all add: complain_def print_def send_request_def Let_def)

lemma cin_good_help [simp]: "cin_good (help_cmd order c) = cin_good c"
proof -
  have "cin_good (foldl (\<lambda>c p. print (f p) c) c ps) = cin_good c" for f :: "string \<times> string \<Rightarrow> string" and ps c
    by (induction ps arbitrary: c) simp_all
  then show ?thesis by (simp add: help_cmd_def)
qed

lemma run_command_good: "run_command J order t command arg c = Some c' \<Longrightarrow> cin_good c' = cin_good c"
  by (auto simp: run_command_def console_chat_def addfriend_def creategroup_def addgroup_def groupchat_def console_loginout_def
      Let_def simp del: code.simps split: if_split_asm option.split_asm)

subsection \<open>A concrete JSON library\<close>

text \<open>The texts of the reference library, with a question mark for a control character.\<close>

definition shown_json :: "json list \<Rightarrow> json_lib" where
  "shown_json docs = (ref_json docs)\<lparr>dump := \<lambda>j. map (\<lambda>ch. if (of_char ch :: nat) < 32 then CHR ''?'' else ch) (ref_dump j)\<rparr>"

lemma ref_dump_nonempty: "ref_dump j \<noteq> []"
  by (cases j) (auto simp: quoted_def dec_int_def)

lemma shown_json_text: "json_text (shown_json docs)"
  by (auto simp: json_text_def shown_json_def ref_dump_nonempty)

subsection \<open>Properties\<close>

text \<open>
  (C31) The server never understands the console client. Its requests are JSON texts with a final
  zero and no length: whatever is typed and received, and however TCP cuts what the client
  sends into chunks, the loop of the server takes four bytes of text for a length above the
  limit, drops them, and hands no request to the dispatcher.
\<close>

theorem console_never_understood:
  assumes "json_text J"
    and "console_run J order es (At_menu, new_console input) = Some (pc, c)"
    and "concat chunks = concat (con_sent c)"
  shows "snd (foldl server_feed ([], []) chunks) = []"
proof -
  have "sends_requests c"
    by (rule console_run_ok [OF assms(1,2)]) (simp add: sends_requests_def new_console_def)
  then have "texty (concat chunks)" using texty_requests [of "con_sent c"] assms(3) by (simp add: sends_requests_def)
  then show ?thesis using texty_feeds [of "([], [])" chunks] by simp
qed

definition midnight :: tm where
  "midnight = \<lparr>tm_year = 126, tm_mon = 0, tm_mday = 1, tm_hour = 0, tm_min = 0, tm_sec = 0, millitm = 0\<rparr>"

definition typed_login :: string where
  "typed_login = ''1'' @ [CHR 0x0A] @ ''7'' @ [CHR 0x0A] @ ''secret'' @ [CHR 0x0A]"

theorem console_never_understood_witness:
  "\<exists>c. console_run (shown_json []) [] [Main midnight] (At_menu, new_console typed_login) = Some (Wait_login, c) \<and>
     length (con_sent c) = 1 \<and> snd (foldl server_feed ([], []) (con_sent c)) = []"
proof -
  let ?c = "snd (main_step (shown_json []) [] midnight At_menu (new_console typed_login))"
  have r: "console_run (shown_json []) [] [Main midnight] (At_menu, new_console typed_login) = Some (Wait_login, ?c)"
    "length (con_sent ?c) = 1"
    by code_simp+
  then show ?thesis using console_never_understood [OF shown_json_text r(1) refl] by blast
qed

text \<open>
  The console client does not survive an answer. A packet of the server starts with a zero
  byte, so whatever part of it arrives first is the empty text, which is no JSON: the parse error
  is thrown in the receiving thread, where nothing catches it, and the process ends.
\<close>

theorem console_dies_on_answer:
  assumes "parse J [] = None" and "body_ok b" and "0 < n"
  shows "reader_recv J (take n (take 1024 (packet b))) c = Ended"
proof -
  have "length b \<le> max_body" using assms(2) by (simp add: body_ok_def)
  then have l: "length b < 2 ^ 24" by (simp add: max_body_def)
  then have "unat (word_of_nat (length b) :: 32 word) = length b" by (simp add: unat_of_nat)
  then have "be32 (word_of_nat (length b)) = CHR 0x00 # tl (be32 (word_of_nat (length b)))"
    using l by (simp add: be32_def char_of_def)
  then obtain r where p: "packet b = CHR 0x00 # r" by (metis append_Cons packet_def)
  then obtain r' where "take n (take 1024 (packet b)) = CHR 0x00 # r'"
    using assms(3) by (cases n) auto
  then show ?thesis using assms(1) by (simp add: reader_recv_def c_str_def parse_text_def sbind_def)
qed

theorem console_dies_on_answer_witness:
  "reader_recv (shown_json []) (take 1024 (packet ''{}'')) (new_console []) = Ended"
  using console_dies_on_answer [of "shown_json []" "''{}''" 1024 "new_console []"]
  by (simp add: shown_json_def ref_json_def body_ok_def max_body_def)

text \<open>
  A failed standard input makes the chat menu spin. When the next line is longer than the
  buffer, or the input ends, the command read so far still runs; after it no further round reads,
  waits or changes anything, and the loop never ends.
\<close>

theorem console_spins:
  assumes "CHR 0x0A \<notin> set (take 1024 (cin_rest c))" and "cin_good c"
    and "c' = mainMenu_round J order t c" and "isMainMenuRunning c'"
  shows "((\<lambda>(pc, c). main_step J order t' pc c) ^^ n) (In_chat, c') = (In_chat, c')"
proof -
  have g: "snd (snd (getline_loop m s)) = False" if "CHR 0x0A \<notin> set (take (Suc m) s)" for m s
    using that by (induction m s rule: getline_loop.induct) (auto split: nat.split prod.split if_splits)
  obtain b c1 where gl: "getline 1024 c = (b, c1)" by force
  have "\<not> cin_good c1"
    using g [of 1023 "cin_rest c"] assms(1,2) gl by (auto simp: getline_def Let_def split: prod.splits)
  moreover have "cin_good c' = cin_good c1"
    unfolding assms(3) mainMenu_round_def gl Let_def case_prod_conv
    using run_command_good by (auto split: option.split prod.split)
  ultimately have "mainMenu_round J order t' c' = c'" for t'
    by (simp add: mainMenu_round_def getline_def)
  then have s: "main_step J order t' In_chat c' = (In_chat, c')" using assms(4) by (simp add: main_step_def)
  show ?thesis by (induction n) (simp_all add: s)
qed

theorem console_spins_witness:
  "((\<lambda>(pc, c). main_step (shown_json []) [] midnight pc c) ^^ 1000)
     (In_chat, mainMenu_round (shown_json []) [] midnight ((new_console ''chat'')\<lparr>isMainMenuRunning := True\<rparr>)) =
     (In_chat, mainMenu_round (shown_json []) [] midnight ((new_console ''chat'')\<lparr>isMainMenuRunning := True\<rparr>))"
proof (rule console_spins [OF _ _ refl])
  show "CHR 0x0A \<notin> set (take 1024 (cin_rest ((new_console ''chat'')\<lparr>isMainMenuRunning := True\<rparr>)))"
    "cin_good ((new_console ''chat'')\<lparr>isMainMenuRunning := True\<rparr>)"
    by (simp_all add: new_console_def)
  show "isMainMenuRunning (mainMenu_round (shown_json []) [] midnight ((new_console ''chat'')\<lparr>isMainMenuRunning := True\<rparr>))"
    by code_simp
qed

text \<open>A line that fits the buffer is read as it is.\<close>

lemma getline_loop_line:
  "CHR 0x0A \<notin> set l \<Longrightarrow> length l \<le> n \<Longrightarrow> getline_loop n (l @ CHR 0x0A # r) = (l, r, True)"
proof (induction l arbitrary: n)
  case (Cons a l)
  then show ?case by (cases n) auto
qed simp

lemma getline_line:
  assumes "cin_good c" "cin_rest c = l @ CHR 0x0A # r" "CHR 0x0A \<notin> set l" "CHR 0x00 \<notin> set l" "length l < n"
  shows "getline n c = (l, c\<lparr>cin_rest := r\<rparr>)"
  using assms getline_loop_line [of l "n - 1" r] by (simp add: getline_def)

lemma colon_split: "CHR '':'' \<notin> set k \<Longrightarrow> colon (k @ CHR '':'' # v) = Some (k, v)"
  by (simp add: colon_def takeWhile_append dropWhile_append)

lemma dec_int_char_cases: "ch \<in> set (dec_int n) \<Longrightarrow> ch = CHR ''-'' \<or> is_digit ch"
  by (auto simp: dec_int_def dest: dec_nat_digits split: if_splits)

lemma dec_int_no [simp]: "CHR '':'' \<notin> set (dec_int n)" "CHR 0x0A \<notin> set (dec_int n)" "CHR 0x00 \<notin> set (dec_int n)"
  by (auto dest!: dec_int_char_cases simp: is_digit_def)

lemma c_atoi_dec [simp]: "is_int32 i \<Longrightarrow> c_atoi (dec_int i) = i"
  by (simp add: c_atoi_def is_int32_def max_def min_def to_int32_id [unfolded is_int32_def])

text \<open>
  What a chat command sends: the line \<open>chat:<id>:<message>\<close> becomes one request with the
  user's own id and name, the id as a number, and the message as typed up to its last
  visible character, colons included; the line is consumed and nothing else changes.
\<close>

theorem chat_command_sends:
  assumes "cin_good c" and "conn_up c" and "is_int32 i"
    and "cin_rest c = ''chat:'' @ dec_int i @ '':'' @ message @ [CHR 0x0A] @ rest"
    and "message \<noteq> []" and "\<not> is_trimmed (List.last message)" and "CHR 0x0A \<notin> set message" and "CHR 0x00 \<notin> set message"
    and "length message \<le> 1000"
  shows "mainMenu_round J order t c = c\<lparr>cin_rest := rest, con_sent := con_sent c @ [request_bytes (dump J (jobj
      [(''msgid'', JInt (code ONE_CHAT_MSG)), (''id'', JInt (uid (g_currentUser c))), (''name'', JStr (uname (g_currentUser c))),
       (''toid'', JInt i), (''msg'', JStr message), (''time'', JStr (getCurrentTime t))]))]\<rparr>"
proof -
  define line where "line = ''chat:'' @ dec_int i @ '':'' @ message"
  have "getline 1024 c = (line, c\<lparr>cin_rest := rest\<rparr>)"
    using assms(1,4,7,8,9) dec_int_length [OF assms(3)] by (intro getline_line) (simp_all add: line_def)
  moreover have "dropWhile is_trimmed line = line" by (simp add: line_def is_trimmed_def)
  moreover have "rev (dropWhile is_trimmed (rev line)) = line"
  proof -
    obtain m ch where m: "message = m @ [ch]" using assms(5) by (metis rev_exhaust)
    then show ?thesis using assms(6) by (simp add: line_def)
  qed
  moreover have "line \<noteq> []" "\<not> Ball (set line) is_trimmed" by (simp_all add: line_def is_trimmed_def)
  moreover have "colon line = Some (''chat'', dec_int i @ '':'' @ message)"
    using colon_split [of "''chat''" "dec_int i @ '':'' @ message"] by (simp add: line_def)
  moreover have "colon (dec_int i @ '':'' @ message) = Some (dec_int i, message)"
    using colon_split [of "dec_int i" message] by simp
  ultimately show ?thesis
    using assms(2) by (simp add: mainMenu_round_def run_command_def console_chat_def c_atoi_dec [OF assms(3)] send_request_def Let_def
        del: code.simps append_Cons)
qed

theorem chat_command_sends_witness:
  "con_sent (mainMenu_round (shown_json []) [] midnight (new_console (''chat:'' @ dec_int 5 @ '':'' @ ''a:b'' @ [CHR 0x0A] @ []))) =
   [request_bytes (dump (shown_json []) (jobj [(''msgid'', JInt (code ONE_CHAT_MSG)), (''id'', JInt (-1)), (''name'', JStr []),
       (''toid'', JInt 5), (''msg'', JStr ''a:b''), (''time'', JStr (getCurrentTime midnight))]))]"
proof -
  define c where "c = new_console (''chat:'' @ dec_int 5 @ '':'' @ ''a:b'' @ [CHR 0x0A] @ [])"
  have h: "cin_good c" "conn_up c" "is_int32 5" "cin_rest c = ''chat:'' @ dec_int 5 @ '':'' @ ''a:b'' @ [CHR 0x0A] @ []"
    "con_sent c = []" "g_currentUser c = new_user"
    by (simp_all add: c_def new_console_def is_int32_def)
  show ?thesis unfolding c_def [symmetric]
    using chat_command_sends [OF h(1-4), of "shown_json []" "[]" midnight] h(5,6) by (simp add: is_trimmed_def new_user_def)
qed

end
