(* ===== verification/LoginUi.thy ===== *)
theory LoginUi
  imports Widget
begin

section \<open>The login dialog\<close>

text \<open>
  \<open>LoginDialog\<close> (\<open>logindialog.cpp\<close>, \<open>logindialog.h\<close>) and the loop of the Qt program
  (\<open>QtClient/Client/main.cpp\<close>): the action that waits for an answer, its timer of ten seconds, the
  slots of the client's signals and the buttons. The dialog owns no client of its own; here it
  holds the one it was given. What is typed is an argument, the id as \<open>QString::toInt\<close> reads it.
  Colours and layout are left out; \<open>inputs_enabled\<close> is the state of the two buttons and the
  opposite of the cancel button's visibility.
\<close>

subsection \<open>State\<close>

datatype pending_action = NoAction | Login | Reg

record 'q dialog =
  d_client :: "'q client"
  m_userId :: int
  m_userName :: string
  m_friends :: "json list"
  m_groups :: "json list"
  m_offlineMsgs :: "json list"
  m_pending :: pending_action
  m_pendingLoginId :: int
  m_pendingLoginPwd :: string
  m_pendingRegName :: string
  m_pendingRegPwd :: string
  m_loginStatus :: string
  m_regStatus :: string
  m_retryTimeout :: "int option"
  inputs_enabled :: bool
  accepted :: bool

definition retry_interval :: int where "retry_interval = 10000"

definition new_dialog :: "'q client \<Rightarrow> 'q dialog" where
  "new_dialog c = \<lparr>d_client = c, m_userId = -1, m_userName = [], m_friends = [], m_groups = [], m_offlineMsgs = [],
     m_pending = NoAction, m_pendingLoginId = -1, m_pendingLoginPwd = [], m_pendingRegName = [], m_pendingRegPwd = [],
     m_loginStatus = [], m_regStatus = [], m_retryTimeout = None, inputs_enabled = True, accepted = False\<rparr>"

definition setInputsEnabled :: "bool \<Rightarrow> 'q dialog \<Rightarrow> 'q dialog" where
  "setInputsEnabled b D = D\<lparr>inputs_enabled := b\<rparr>"

definition arm_retry :: "'q dialog \<Rightarrow> 'q dialog" where
  "arm_retry D = D\<lparr>m_retryTimeout := Some (clock_ms (d_client D))\<rparr>"

subsection \<open>Calls on the client\<close>

text \<open>A connection error changes the status text of what is pending.\<close>

definition onConnectionError :: "'q dialog \<Rightarrow> 'q dialog" where
  "onConnectionError D = (case m_pending D of
      Login \<Rightarrow> D\<lparr>m_loginStatus := ''Cannot reach server, retrying...''\<rparr>
    | Reg \<Rightarrow> D\<lparr>m_regStatus := ''Cannot reach server, retrying...''\<rparr>
    | NoAction \<Rightarrow> D)"

text \<open>
  A call of the dialog on its client. Of the signals that a request, a logout or a connection
  attempt emits at once, \<open>disconnected\<close> and \<open>connectionError\<close>, the dialog listens to the second.
\<close>

definition new_signals :: "'q client \<Rightarrow> 'q client \<Rightarrow> csignal list" where
  "new_signals c c' = drop (length (emitted c)) (emitted c')"

definition call_client :: "('q client \<Rightarrow> 'q client) \<Rightarrow> 'q dialog \<Rightarrow> 'q dialog" where
  "call_client f D =
     (let c' = f (d_client D) in
      foldl (\<lambda>D s. case s of connectionError e \<Rightarrow> onConnectionError D | _ \<Rightarrow> D) (D\<lparr>d_client := c'\<rparr>) (new_signals (d_client D) c'))"

subsection \<open>Buttons\<close>

text \<open>Both actions connect first when there is no connection; the slot for the connection sends the request.\<close>

definition onLoginClicked :: "'q qsocket \<Rightarrow> qjson \<Rightarrow> (string \<Rightarrow> int) \<Rightarrow> string \<Rightarrow> string \<Rightarrow> 'q dialog \<Rightarrow> 'q dialog" where
  "onLoginClicked S Q toint idtext pwd D =
     (if idtext = [] \<or> pwd = [] then D\<lparr>m_loginStatus := ''Please fill all fields''\<rparr>
      else (let D1 = (setInputsEnabled False D)\<lparr>m_loginStatus := ''Connecting...'', m_pendingLoginId := toint idtext,
                       m_pendingLoginPwd := pwd, m_pending := Login\<rparr>;
                D2 = arm_retry D1
            in if \<not> isConnected S (d_client D2)
               then call_client (\<lambda>c. connectToServer S (m_serverIp c) (m_serverPort c) c) D2
               else call_client (client_login S Q (m_pendingLoginId D2) (m_pendingLoginPwd D2)) D2))"

definition onRegisterClicked :: "'q qsocket \<Rightarrow> qjson \<Rightarrow> string \<Rightarrow> string \<Rightarrow> 'q dialog \<Rightarrow> 'q dialog" where
  "onRegisterClicked S Q name pwd D =
     (if name = [] \<or> pwd = [] then D\<lparr>m_regStatus := ''Please fill all fields''\<rparr>
      else (let D1 = (setInputsEnabled False D)\<lparr>m_regStatus := ''Connecting...'', m_pendingRegName := name,
                       m_pendingRegPwd := pwd, m_pending := Reg\<rparr>;
                D2 = arm_retry D1
            in if \<not> isConnected S (d_client D2)
               then call_client (\<lambda>c. connectToServer S (m_serverIp c) (m_serverPort c) c) D2
               else call_client (client_reg S Q (m_pendingRegName D2) (m_pendingRegPwd D2)) D2))"

definition onCancelClicked :: "'q qsocket \<Rightarrow> qjson \<Rightarrow> 'q dialog \<Rightarrow> 'q dialog" where
  "onCancelClicked S Q D =
     (let D1 = call_client (client_loginout S Q) (D\<lparr>m_retryTimeout := None\<rparr>)
      in (setInputsEnabled True (D1\<lparr>m_pending := NoAction\<rparr>))\<lparr>m_loginStatus := [], m_regStatus := []\<rparr>)"

text \<open>The slot of the timer.\<close>

definition onRetryTimeout :: "'q qsocket \<Rightarrow> qjson \<Rightarrow> 'q dialog \<Rightarrow> 'q dialog" where
  "onRetryTimeout S Q D =
     (let D1 = call_client (client_loginout S Q) D; was = m_pending D1;
          D2 = setInputsEnabled True (D1\<lparr>m_pending := NoAction\<rparr>)
      in case was of Login \<Rightarrow> D2\<lparr>m_loginStatus := ''Connection timeout, try again''\<rparr>
         | Reg \<Rightarrow> D2\<lparr>m_regStatus := ''Connection timeout, try again''\<rparr>
         | NoAction \<Rightarrow> D2)"

text \<open>The settings dialog, when it was accepted with an address and a port.\<close>

definition showServerSettings :: "(string \<times> int) option \<Rightarrow> 'q dialog \<Rightarrow> 'q dialog" where
  "showServerSettings answer D = (case answer of
      None \<Rightarrow> D | Some (ip, port) \<Rightarrow> D\<lparr>d_client := setServer ip port (d_client D)\<rparr>)"

subsection \<open>Slots of the client's signals\<close>

definition dlg_onConnected :: "'q qsocket \<Rightarrow> qjson \<Rightarrow> 'q dialog \<Rightarrow> 'q dialog" where
  "dlg_onConnected S Q D = (case m_pending D of
      Login \<Rightarrow> call_client (client_login S Q (m_pendingLoginId D) (m_pendingLoginPwd D)) D
    | Reg \<Rightarrow> call_client (client_reg S Q (m_pendingRegName D) (m_pendingRegPwd D)) D
    | NoAction \<Rightarrow> D)"

definition onLoginSuccess :: "int \<Rightarrow> string \<Rightarrow> json list \<Rightarrow> json list \<Rightarrow> json list \<Rightarrow> 'q dialog \<Rightarrow> 'q dialog" where
  "onLoginSuccess i name fs gs vs D =
     D\<lparr>m_userId := i, m_userName := name, m_friends := fs, m_groups := gs, m_offlineMsgs := vs, m_pending := NoAction,
       m_retryTimeout := None, accepted := True\<rparr>"

definition onLoginFailed :: "string \<Rightarrow> 'q dialog \<Rightarrow> 'q dialog" where
  "onLoginFailed reason D = (setInputsEnabled True (D\<lparr>m_retryTimeout := None\<rparr>))\<lparr>m_pending := NoAction, m_loginStatus := reason\<rparr>"

definition onRegSuccess :: "int \<Rightarrow> 'q dialog \<Rightarrow> 'q dialog" where
  "onRegSuccess i D = (setInputsEnabled True (D\<lparr>m_retryTimeout := None\<rparr>))\<lparr>m_pending := NoAction,
     m_regStatus := ''Registered! ID: '' @ dec_int i\<rparr>"

definition onRegFailed :: "string \<Rightarrow> 'q dialog \<Rightarrow> 'q dialog" where
  "onRegFailed reason D = (setInputsEnabled True (D\<lparr>m_retryTimeout := None\<rparr>))\<lparr>m_pending := NoAction, m_regStatus := reason\<rparr>"

definition dialog_slot :: "'q qsocket \<Rightarrow> qjson \<Rightarrow> 'q dialog \<Rightarrow> csignal \<Rightarrow> 'q dialog" where
  "dialog_slot S Q D s = (case s of
      connected \<Rightarrow> dlg_onConnected S Q D
    | loginSuccess i name fs gs vs \<Rightarrow> onLoginSuccess i name fs gs vs D
    | loginFailed reason \<Rightarrow> onLoginFailed reason D
    | regSuccess i \<Rightarrow> onRegSuccess i D
    | regFailed reason \<Rightarrow> onRegFailed reason D
    | connectionError e \<Rightarrow> onConnectionError D
    | _ \<Rightarrow> D)"

text \<open>
  The client went from \<open>d_client D\<close> to \<open>c\<close> in one of its slots: the dialog's slots run for the
  signals in order. Only \<open>connected\<close> calls the client again, and its emission ends the slot.
\<close>

definition deliver :: "'q qsocket \<Rightarrow> qjson \<Rightarrow> 'q client \<Rightarrow> 'q dialog \<Rightarrow> 'q dialog" where
  "deliver S Q c D = foldl (dialog_slot S Q) (D\<lparr>d_client := c\<rparr>) (new_signals (d_client D) c)"

subsection \<open>Events while the dialog is open\<close>

text \<open>
  Enter in the password field runs the login slot whether or not the buttons are enabled. The
  login and register buttons are enabled, the cancel button visible, by \<open>inputs_enabled\<close>.
\<close>

inductive dialog_step :: "'q qsocket \<Rightarrow> qjson \<Rightarrow> 'q dialog \<Rightarrow> 'q dialog \<Rightarrow> bool" for S Q where
  d_login: "dialog_step S Q D (onLoginClicked S Q toint idtext pwd D)"
| d_register: "inputs_enabled D \<Longrightarrow> dialog_step S Q D (onRegisterClicked S Q name pwd D)"
| d_cancel: "\<not> inputs_enabled D \<Longrightarrow> dialog_step S Q D (onCancelClicked S Q D)"
| d_settings: "dialog_step S Q D (showServerSettings answer D)"
| d_retry: "due (m_retryTimeout D) retry_interval (clock_ms (d_client D)) \<Longrightarrow>
    dialog_step S Q D (onRetryTimeout S Q (D\<lparr>m_retryTimeout := None\<rparr>))"
| d_network: "client_step S Q (d_client D) e c \<Longrightarrow>
    e \<in> {N_connected, N_disconnected, T_reconnect, T_login, T_heartbeat, T_heartbeat_timeout} \<or> (\<exists>p. e = N_data p \<or> e = N_error p) \<Longrightarrow>
    dialog_step S Q D (deliver S Q c D)"
| d_tick: "client_step S Q (d_client D) (T_tick dt) c \<Longrightarrow> in_time (m_retryTimeout D) retry_interval (clock_ms c) \<Longrightarrow>
    dialog_step S Q D (D\<lparr>d_client := c\<rparr>)"

text \<open>The dialog closes when it is accepted.\<close>

inductive dialog_run :: "'q qsocket \<Rightarrow> qjson \<Rightarrow> 'q dialog \<Rightarrow> 'q dialog \<Rightarrow> bool" for S Q where
  drun_nil: "dialog_run S Q D D"
| drun_snoc: "dialog_run S Q D D' \<Longrightarrow> \<not> accepted D' \<Longrightarrow> dialog_step S Q D' D'' \<Longrightarrow> dialog_run S Q D D''"

text \<open>The window that \<open>main\<close> opens for an accepted dialog.\<close>

definition open_window :: "qjson \<Rightarrow> 'q dialog \<Rightarrow> 'q widget" where
  "open_window Q D = new_widget Q (d_client D) (m_userId D) (m_userName D) (m_friends D) (m_groups D) (m_offlineMsgs D)"

end
