(* ===== verification/LoginUiProps.thy ===== *)
theory LoginUiProps
  imports LoginUi WidgetProps
begin

section \<open>The login dialog: pending actions, and from the server's answer to the window\<close>

text \<open>
  An action of the dialog is always supervised by its timer and can be cancelled; the answer of
  the server to a login turns into the window with the account's friends and groups.
\<close>

subsection \<open>Time in the client\<close>

lemma handleMessage_clock: "clock_ms (handleMessage Q js c) = clock_ms c"
  by (auto simp: handleMessage_def on_login_ack_def resetLoginState_def Let_def)

lemma readyRead_clock: "clock_ms (onReadyRead S Q d c) = clock_ms c"
proof -
  obtain c1 rest bad where l: "readyRead_loop (client_body Q) (m_recvBuf c @ d) (c\<lparr>m_lastDataTime := time_s c\<rparr>) = (c1, rest, bad)"
    using prod_cases3 by blast
  have "clock_ms (fst (readyRead_loop (client_body Q) (m_recvBuf c @ d) (c\<lparr>m_lastDataTime := time_s c\<rparr>))) = clock_ms c"
    by (rule readyRead_loop_inv [where P = "\<lambda>x. clock_ms x = clock_ms c"])
      (auto simp: client_body_def handleMessage_clock split: option.split)
  then show ?thesis by (simp add: onReadyRead_def l Let_def)
qed

lemma request_clock [simp]:
  "clock_ms (client_sendJson S Q obj c) = clock_ms c" "clock_ms (client_login S Q i p c) = clock_ms c"
  "clock_ms (client_reg S Q n p c) = clock_ms c" "clock_ms (client_loginout S Q c) = clock_ms c"
  "clock_ms (connectToServer S h port c) = clock_ms c"
  by (simp_all add: client_sendJson_def client_login_def client_reg_def client_loginout_def connectToServer_def Let_def)

lemma client_step_clock:
  assumes "client_step S Q c e d" and "\<And>dt. e \<noteq> T_tick dt"
  shows "clock_ms d = clock_ms c"
  using assms
  by (cases rule: client_step.cases)
    (auto simp: readyRead_clock relogin_def onConnected_def onDisconnected_def onError_def onReconnectTimeout_def onLoginTimeout_def
      sendHeartbeat_def onHeartbeatTimeout_def Let_def)

subsection \<open>What a call on the client leaves alone\<close>

lemma conn_error_frame [simp]:
  "m_pending (onConnectionError D) = m_pending D" "m_retryTimeout (onConnectionError D) = m_retryTimeout D"
  "inputs_enabled (onConnectionError D) = inputs_enabled D" "accepted (onConnectionError D) = accepted D"
  "d_client (onConnectionError D) = d_client D" "m_pendingLoginId (onConnectionError D) = m_pendingLoginId D"
  "m_pendingLoginPwd (onConnectionError D) = m_pendingLoginPwd D"
  by (simp_all add: onConnectionError_def split: pending_action.split)

lemma call_frame [simp]:
  "m_pending (call_client f D) = m_pending D" "m_retryTimeout (call_client f D) = m_retryTimeout D"
  "inputs_enabled (call_client f D) = inputs_enabled D" "accepted (call_client f D) = accepted D"
  "d_client (call_client f D) = f (d_client D)" "m_pendingLoginId (call_client f D) = m_pendingLoginId D"
  "m_pendingLoginPwd (call_client f D) = m_pendingLoginPwd D"
proof -
  have "let D' = foldl (\<lambda>D s. case s of connectionError e \<Rightarrow> onConnectionError D | _ \<Rightarrow> D) D0 ss in
    m_pending D' = m_pending D0 \<and> m_retryTimeout D' = m_retryTimeout D0 \<and> inputs_enabled D' = inputs_enabled D0 \<and>
    accepted D' = accepted D0 \<and> d_client D' = d_client D0 \<and> m_pendingLoginId D' = m_pendingLoginId D0 \<and>
    m_pendingLoginPwd D' = m_pendingLoginPwd D0" for D0 :: "'a dialog" and ss
    by (induction ss arbitrary: D0) (auto simp: Let_def split: csignal.split)
  from this [of "D\<lparr>d_client := f (d_client D)\<rparr>" "new_signals (d_client D) (f (d_client D))"]
  show "m_pending (call_client f D) = m_pending D" "m_retryTimeout (call_client f D) = m_retryTimeout D"
    "inputs_enabled (call_client f D) = inputs_enabled D" "accepted (call_client f D) = accepted D"
    "d_client (call_client f D) = f (d_client D)" "m_pendingLoginId (call_client f D) = m_pendingLoginId D"
    "m_pendingLoginPwd (call_client f D) = m_pendingLoginPwd D"
    by (simp_all add: call_client_def Let_def)
qed

subsection \<open>The invariant of the dialog\<close>

definition dialog_ok :: "'q dialog \<Rightarrow> bool" where
  "dialog_ok D \<longleftrightarrow> (m_pending D = NoAction \<longleftrightarrow> m_retryTimeout D = None) \<and>
     (\<not> accepted D \<longrightarrow> (inputs_enabled D \<longleftrightarrow> m_pending D = NoAction)) \<and>
     in_time (m_retryTimeout D) retry_interval (clock_ms (d_client D))"

lemma in_time_now: "in_time (Some t) retry_interval t"
  by (simp add: in_time_def retry_interval_def)

lemma in_time_None [simp]: "in_time None i t"
  by (simp add: in_time_def)

lemma dialog_slot_ok: "dialog_ok D \<Longrightarrow> dialog_ok (dialog_slot S Q D s)"
  by (cases s) (auto simp: dialog_slot_def dialog_ok_def dlg_onConnected_def onLoginSuccess_def onLoginFailed_def onRegSuccess_def
      onRegFailed_def setInputsEnabled_def split: pending_action.split)

lemma slots_ok: "dialog_ok D \<Longrightarrow> dialog_ok (foldl (dialog_slot S Q) D ss)"
  by (induction ss arbitrary: D) (auto simp: dialog_slot_ok)

lemma dialog_step_ok: "dialog_step S Q D D' \<Longrightarrow> dialog_ok D \<Longrightarrow> \<not> accepted D \<Longrightarrow> dialog_ok D'"
proof (induction rule: dialog_step.induct)
  case (d_login D toint idtext pwd)
  then show ?case by (auto simp: onLoginClicked_def dialog_ok_def arm_retry_def setInputsEnabled_def in_time_now Let_def)
next
  case (d_register D name pwd)
  then show ?case by (auto simp: onRegisterClicked_def dialog_ok_def arm_retry_def setInputsEnabled_def in_time_now Let_def)
next
  case (d_cancel D)
  then show ?case by (simp add: onCancelClicked_def dialog_ok_def setInputsEnabled_def Let_def)
next
  case (d_settings D answer)
  then show ?case by (auto simp: showServerSettings_def dialog_ok_def setServer_def split: option.split)
next
  case (d_retry D)
  then show ?case by (auto simp: onRetryTimeout_def dialog_ok_def setInputsEnabled_def Let_def split: pending_action.split)
next
  case (d_network D e c)
  then have "clock_ms c = clock_ms (d_client D)" by (intro client_step_clock [OF d_network.hyps(1)]) auto
  with d_network show ?case unfolding deliver_def by (intro slots_ok) (simp add: dialog_ok_def)
next
  case (d_tick D dt c)
  then show ?case by (simp add: dialog_ok_def)
qed

lemma dialog_run_ok: "dialog_run S Q D D' \<Longrightarrow> dialog_ok D \<Longrightarrow> dialog_ok D'"
  by (induction rule: dialog_run.induct) (auto intro: dialog_step_ok)

subsection \<open>A logout is never half done\<close>

text \<open>A client that disconnects on purpose does not want to log in again.\<close>

definition settled :: "'q client \<Rightarrow> bool" where
  "settled c \<longleftrightarrow> (m_intentionalDisconnect c \<longrightarrow> \<not> m_wantRelogin c)"

lemma settled_update [simp]: "settled (c\<lparr>m_lastDataTime := t\<rparr>) = settled c"
  by (simp add: settled_def)

lemma settled_logout: "settled c \<Longrightarrow> m_intentionalDisconnect (client_loginout S Q c) \<and> \<not> m_wantRelogin (client_loginout S Q c)"
  by (simp add: settled_def client_loginout_def Let_def)

lemma settled_handle: "settled c \<Longrightarrow> settled (handleMessage Q js c)"
  by (auto simp: handleMessage_def on_login_ack_def resetLoginState_def Let_def settled_def)

lemma settled_read: "settled c \<Longrightarrow> settled (onReadyRead S Q d c)"
proof -
  assume c: "settled c"
  obtain c1 rest bad where l: "readyRead_loop (client_body Q) (m_recvBuf c @ d) (c\<lparr>m_lastDataTime := time_s c\<rparr>) = (c1, rest, bad)"
    using prod_cases3 by blast
  have "settled (fst (readyRead_loop (client_body Q) (m_recvBuf c @ d) (c\<lparr>m_lastDataTime := time_s c\<rparr>)))"
    by (rule readyRead_loop_inv [where P = settled])
      (use c in \<open>auto simp: client_body_def settled_handle split: option.split\<close>)
  then show ?thesis by (simp add: onReadyRead_def l Let_def settled_def)
qed

lemma settled_calls:
  "settled (client_login S Q i p c)" "settled c \<Longrightarrow> settled (client_reg S Q n p c)" "settled c \<Longrightarrow> settled (client_loginout S Q c)"
  "settled (connectToServer S h port c)" "settled (setServer ip port c) = settled c"
  by (simp_all add: settled_def client_login_def client_reg_def client_loginout_def connectToServer_def setServer_def Let_def)

lemma settled_step: "client_step S Q c e d \<Longrightarrow> settled c \<Longrightarrow> settled d"
proof (induction rule: client_step.induct)
  case (n_data c d q)
  then show ?case by (intro settled_read) (simp add: settled_def)
qed (auto simp: settled_calls settled_def relogin_def onConnected_def onDisconnected_def onError_def onReconnectTimeout_def
  onLoginTimeout_def sendHeartbeat_def onHeartbeatTimeout_def client_sendJson_def client_login_def client_loginout_def connectToServer_def Let_def)

lemma settled_slots: "settled (d_client D) \<Longrightarrow> settled (d_client (foldl (dialog_slot S Q) D ss))"
proof (induction ss arbitrary: D)
  case (Cons s ss)
  have "settled (d_client (dialog_slot S Q D s))"
    using Cons.prems by (cases s) (auto simp: dialog_slot_def dlg_onConnected_def onLoginSuccess_def onLoginFailed_def onRegSuccess_def
      onRegFailed_def setInputsEnabled_def settled_calls split: pending_action.split)
  with Cons.IH show ?case by simp
qed simp

lemma dialog_step_settled: "dialog_step S Q D D' \<Longrightarrow> settled (d_client D) \<Longrightarrow> settled (d_client D')"
proof (induction rule: dialog_step.induct)
  case (d_network D e c)
  then show ?case unfolding deliver_def by (intro settled_slots) (simp add: settled_step [OF d_network.hyps(1)])
next
  case (d_tick D dt c)
  then show ?case by (simp add: settled_step [OF d_tick.hyps(1)])
qed (auto simp: onLoginClicked_def onRegisterClicked_def onCancelClicked_def onRetryTimeout_def showServerSettings_def arm_retry_def
  setInputsEnabled_def settled_calls Let_def split: option.split pending_action.split)

lemma dialog_run_settled: "dialog_run S Q D D' \<Longrightarrow> settled (d_client D) \<Longrightarrow> settled (d_client D')"
  by (induction rule: dialog_run.induct) (auto intro: dialog_step_settled)

subsection \<open>Properties of the dialog\<close>

text \<open>
  (C23) An action never hangs in the dialog: whatever the user and the network do, while the
  dialog is open the buttons are disabled exactly while a login or registration is pending, and
  then the timer that ends it is armed, at most 10.5 seconds ago.
\<close>

theorem dialog_pending:
  assumes "dialog_run S Q (new_dialog c) D" and "\<not> accepted D"
  shows "(inputs_enabled D \<longleftrightarrow> m_pending D = NoAction) \<and>
    (m_pending D \<noteq> NoAction \<longrightarrow> (\<exists>t. m_retryTimeout D = Some t \<and> clock_ms (d_client D) - t \<le> 10500))"
proof -
  have "dialog_ok D"
    using dialog_run_ok [OF assms(1)] by (simp add: dialog_ok_def new_dialog_def)
  with assms(2) show ?thesis by (auto simp: dialog_ok_def in_time_def retry_interval_def split: option.splits)
qed

definition fresh_client :: "sock_state client" where
  "fresh_client = new_client UnconnectedState 100000 None None"

theorem dialog_pending_witness:
  "\<exists>t. m_retryTimeout (onLoginClicked ref_socket (ref_qjson []) atoi ''7'' ''pw'' (new_dialog fresh_client)) = Some t \<and>
     clock_ms (d_client (onLoginClicked ref_socket (ref_qjson []) atoi ''7'' ''pw'' (new_dialog fresh_client))) - t \<le> 10500"
proof -
  define D where "D = onLoginClicked ref_socket (ref_qjson []) atoi ''7'' ''pw'' (new_dialog fresh_client)"
  have r: "dialog_run ref_socket (ref_qjson []) (new_dialog fresh_client) D"
    unfolding D_def by (rule drun_snoc [OF drun_nil _ d_login]) (simp add: new_dialog_def)
  have a: "\<not> accepted D" "m_pending D \<noteq> NoAction"
    by (simp_all add: D_def onLoginClicked_def new_dialog_def setInputsEnabled_def arm_retry_def Let_def)
  from dialog_pending [OF r a(1)] a(2) show ?thesis unfolding D_def by blast
qed

text \<open>
  (C33) Cancelling and the timeout are final: after either nothing is pending, the buttons work
  again, and a connection that still comes up sends no login and no registration.
\<close>

theorem dialog_cancel_final:
  assumes "dialog_run S Q (new_dialog c) D" and "m_intentionalDisconnect c \<longrightarrow> \<not> m_wantRelogin c"
    and "D' = onCancelClicked S Q D \<or> D' = onRetryTimeout S Q (D\<lparr>m_retryTimeout := None\<rparr>)"
  shows "m_pending D' = NoAction \<and> inputs_enabled D' \<and> m_retryTimeout D' = None \<and>
    (\<forall>q. let c' = onConnected S Q ((d_client D')\<lparr>m_socket := q\<rparr>); D'' = deliver S Q c' D' in
       m_socket c' = q \<and> m_socket (d_client D'') = q \<and> m_pending D'' = NoAction)"
proof -
  have "settled (d_client D)"
    by (rule dialog_run_settled [OF assms(1)]) (use assms(2) in \<open>simp add: settled_def new_dialog_def\<close>)
  then have out: "m_intentionalDisconnect (client_loginout S Q (d_client D)) \<and> \<not> m_wantRelogin (client_loginout S Q (d_client D))"
    by (rule settled_logout)
  have D': "m_pending D' = NoAction" "inputs_enabled D'" "m_retryTimeout D' = None" "d_client D' = client_loginout S Q (d_client D)"
    using assms(3) by (auto simp: onCancelClicked_def onRetryTimeout_def setInputsEnabled_def Let_def split: pending_action.splits)
  have "let c' = onConnected S Q ((d_client D')\<lparr>m_socket := q\<rparr>); D'' = deliver S Q c' D' in
       m_socket c' = q \<and> m_socket (d_client D'') = q \<and> m_pending D'' = NoAction" for q
  proof -
    define c' where "c' = onConnected S Q ((d_client D')\<lparr>m_socket := q\<rparr>)"
    have c': "c' = emit connected ((d_client D')\<lparr>m_socket := q, m_reconnectTimer := None, m_intentionalDisconnect := False\<rparr>)"
      using out by (simp add: c'_def onConnected_def Let_def D'(4))
    then have "new_signals (d_client D') c' = [connected]" by (simp add: new_signals_def)
    then have "deliver S Q c' D' = dialog_slot S Q (D'\<lparr>d_client := c'\<rparr>) connected" by (simp add: deliver_def)
    also have "\<dots> = D'\<lparr>d_client := c'\<rparr>" using D'(1) by (simp add: dialog_slot_def dlg_onConnected_def)
    finally show ?thesis unfolding Let_def c'_def [symmetric] using D'(1) c' by simp
  qed
  with D' show ?thesis by blast
qed

theorem dialog_cancel_final_witness:
  "m_pending (onCancelClicked ref_socket (ref_qjson []) (onLoginClicked ref_socket (ref_qjson []) atoi ''7'' ''pw'' (new_dialog fresh_client))) = NoAction"
proof -
  have r: "dialog_run ref_socket (ref_qjson []) (new_dialog fresh_client)
      (onLoginClicked ref_socket (ref_qjson []) atoi ''7'' ''pw'' (new_dialog fresh_client))"
    by (rule drun_snoc [OF drun_nil _ d_login]) (simp add: new_dialog_def)
  show ?thesis using dialog_cancel_final [OF r _ disjI1 [OF refl]] by (simp add: fresh_client_def new_client_def)
qed

text \<open>
  What is typed can be ignored: when the client still wants its old session back (a login was
  sent and got no answer) and the user enters another account and presses Enter, the connection
  that comes up logs in with the old id and password, and the dialog's own request is not sent.
\<close>

theorem retyped_login_ignored:
  assumes "m_wantRelogin (d_client D)" and "\<not> isConnected S (d_client D)" and "idtext \<noteq> []" and "pwd \<noteq> []"
    and "D' = onLoginClicked S Q toint idtext pwd D" and "c' = onConnected S Q ((d_client D')\<lparr>m_socket := q\<rparr>)"
  shows "c' = client_login S Q (m_myId (d_client D)) (m_password (d_client D))
      ((d_client D')\<lparr>m_socket := q, m_reconnectTimer := None, m_intentionalDisconnect := False\<rparr>) \<and>
    m_pendingLoginId D' = toint idtext \<and> m_myId c' = m_myId (d_client D) \<and> m_password c' = m_password (d_client D)"
proof -
  define D2 where "D2 = arm_retry ((setInputsEnabled False D)\<lparr>m_loginStatus := ''Connecting...'', m_pendingLoginId := toint idtext,
    m_pendingLoginPwd := pwd, m_pending := Login\<rparr>)"
  have D2: "d_client D2 = d_client D" "m_pendingLoginId D2 = toint idtext" by (simp_all add: D2_def arm_retry_def setInputsEnabled_def)
  have D': "D' = call_client (\<lambda>c. connectToServer S (m_serverIp c) (m_serverPort c) c) D2"
    using assms(2-5) D2(1) by (simp add: onLoginClicked_def Let_def flip: D2_def)
  then have c: "d_client D' = connectToServer S (m_serverIp (d_client D)) (m_serverPort (d_client D)) (d_client D)" "m_pendingLoginId D' = toint idtext"
    by (simp_all add: D2)
  have "m_wantRelogin (d_client D') = True" "m_myId (d_client D') = m_myId (d_client D)" "m_password (d_client D') = m_password (d_client D)"
    using assms(1) by (simp_all add: c connectToServer_def Let_def)
  then show ?thesis
    unfolding assms(6) using c(2) by (simp add: onConnected_def Let_def client_login_def client_sendJson_def)
qed

theorem retyped_login_ignored_witness:
  "m_myId (onConnected ref_socket (ref_qjson []) ((d_client (onLoginClicked ref_socket (ref_qjson []) atoi ''7'' ''pw''
     (new_dialog (demo_client\<lparr>m_socket := UnconnectedState\<rparr>))))\<lparr>m_socket := ConnectedState\<rparr>)) = 1"
proof -
  let ?D = "new_dialog (demo_client\<lparr>m_socket := UnconnectedState\<rparr>)"
  have h: "m_wantRelogin (d_client ?D)" "\<not> isConnected ref_socket (d_client ?D)" "m_myId (d_client ?D) = 1"
    by (simp_all add: new_dialog_def demo_client_def isConnected_def ref_socket_def)
  have "m_myId (onConnected ref_socket (ref_qjson []) ((d_client (onLoginClicked ref_socket (ref_qjson []) atoi ''7'' ''pw'' ?D))
      \<lparr>m_socket := ConnectedState\<rparr>)) = m_myId (d_client ?D)"
    using retyped_login_ignored [OF h(1,2) _ _ refl refl, where idtext = "''7''" and pwd = "''pw''" and Q = "ref_qjson []"
      and toint = atoi and q = ConnectedState] by blast
  then show ?thesis by (simp only: h(3))
qed

subsection \<open>From the server's answer to the window\<close>

text \<open>The id and the label of the items; badges do not change them.\<close>

definition labels :: "entry list \<Rightarrow> (int \<times> string) list" where
  "labels es = map (\<lambda>e. (e_id e, e_text e)) es"

lemma labels_change [simp]: "labels (change_first i (\<lambda>e. e\<lparr>e_badge := v\<rparr>) es) = labels es"
  by (induction es) (auto simp: labels_def)

lemma labels_changes [simp]: "labels (foldl (\<lambda>es i. change_first i (\<lambda>e. e\<lparr>e_badge := v i\<rparr>) es) es ks) = labels es"
  by (induction ks arbitrary: es) simp_all

lemma labels_badges [simp]:
  "labels (w_friends (apply_badges w)) = labels (w_friends w)" "labels (w_groups (apply_badges w)) = labels (w_groups w)"
  "w_myId (apply_badges w) = w_myId w" "w_userName (apply_badges w) = w_userName w"
  by (simp_all add: apply_badges_def updates_fold)

lemma merges_name [simp]:
  "w_myId (foldl (merge_offline Q) w vs) = w_myId w" "w_userName (foldl (merge_offline Q) w vs) = w_userName w"
  by (induction vs arbitrary: w)
    (simp_all add: merge_offline_def appendToHistory_def bump_friend_def bump_group_def Let_def)

lemma new_widget_lists:
  "labels (w_friends (new_widget Q c me name fs gs vs)) = labels (loadFriends Q fs)"
  "labels (w_groups (new_widget Q c me name fs gs vs)) = labels (loadGroups Q gs)"
  "w_myId (new_widget Q c me name fs gs vs) = me" "w_userName (new_widget Q c me name fs gs vs) = name"
  by (simp_all add: new_widget_def Let_def setStatus_def)

context qt_json
begin

lemma inner_doc_str: "fromJson Q s = Some j \<Longrightarrow> inner_doc Q (JStr s) = j"
  by (simp add: inner_doc_def toStr_str)

lemma friends_shown:
  assumes "\<forall>f\<in>set fs. is_int32 (uid f) \<and> fromJson Q (dump J (friend_json f)) = Some (friend_json f)"
  shows "labels (loadFriends Q (map JStr (map (\<lambda>f. dump J (friend_json f)) fs))) = map (\<lambda>f. (uid f, uname f @ '' ['' @ ustate f @ '']'')) fs"
  using assms
  by (induction fs) (simp_all add: labels_def loadFriends_def inner_doc_str friend_json_def field_jobj value_simps friend_text_def)

lemma groups_shown:
  assumes "\<forall>g\<in>set gs. is_int32 (gid g) \<and> fromJson Q (dump J (group_json J g)) = Some (group_json J g)"
  shows "labels (loadGroups Q (map JStr (map (\<lambda>g. dump J (group_json J g)) gs))) = map (\<lambda>g. (gid g, gname g)) gs"
  using assms
  by (induction gs) (simp_all add: labels_def loadGroups_def inner_doc_str group_json_def field_jobj value_simps)

lemma login_answer_fields:
  fixes J u vec us gs
  defines "obj \<equiv> login_response J u vec us gs"
  shows "contains obj ''errno''" "contains obj ''id''" "contains obj ''name''"
    "field obj ''msgid'' = JInt (code LOGIN_MSG_ACK)" "field obj ''errno'' = JInt 0" "field obj ''id'' = JInt (uid u)"
    "field obj ''name'' = JStr (uname u)"
    "field obj ''friends'' = (if us = [] then JNull else jstrings (map (\<lambda>f. dump J (friend_json f)) us))"
    "field obj ''groups'' = (if gs = [] then JNull else jstrings (map (\<lambda>g. dump J (group_json J g)) gs))"
    "contains obj ''offlinemsg'' \<longleftrightarrow> vec \<noteq> []" "field obj ''offlinemsg'' = (if vec = [] then JNull else jstrings vec)"
  by (auto simp: obj_def login_response_def contains_jobj field_jobj simp del: code.simps)

lemma login_answer_signal:
  assumes "is_int32 (uid u)"
  shows "handleMessage Q (login_response J u vec us gs) c = (let c3 = emit (loginSuccess (uid u) (uname u)
      (map JStr (map (\<lambda>f. dump J (friend_json f)) us)) (map JStr (map (\<lambda>g. dump J (group_json J g)) gs)) (map JStr vec))
      (c\<lparr>m_loginTimeoutTimer := None, m_myId := uid u, m_myName := uname u\<rparr>) in c3\<lparr>m_heartbeatTimer := Some (clock_ms c3)\<rparr>)"
proof -
  note f = login_answer_fields [of J u vec us gs]
  have i: "is_int32 0" "is_int32 (code LOGIN_MSG_ACK)" by (simp_all add: is_int32_def)
  have m: "int_of Q (login_response J u vec us gs) ''msgid'' = code LOGIN_MSG_ACK"
    "int_of Q (login_response J u vec us gs) ''errno'' = 0"
    "int_of Q (login_response J u vec us gs) ''id'' = uid u"
    "str_of Q (login_response J u vec us gs) ''name'' = uname u"
    using i assms by (simp_all only: f toInt_int toStr_str)
  have o: "(if vec \<noteq> [] then toArray Q (field (login_response J u vec us gs) ''offlinemsg'') else []) = map JStr vec"
    by (simp add: f jstrings_def toArray_arr)
  have ar: "toArray Q (field (login_response J u vec us gs) ''friends'') = map JStr (map (\<lambda>f. dump J (friend_json f)) us)"
    "toArray Q (field (login_response J u vec us gs) ''groups'') = map JStr (map (\<lambda>g. dump J (group_json J g)) gs)"
    by (simp_all add: f jstrings_def toArray_arr toArray_default)
  show ?thesis
    by (simp only: handleMessage_def on_login_ack_def Let_def m f(1-3,10) o ar refl if_True simp_thms) (simp add: emit_def)
qed

end

text \<open>
  (C9) From the server's answer to the window: when the client's JSON classes read the documents
  of the server's library, the packet with which the server answers a login closes the dialog,
  and the window it opens shows the account's id and name, a line for each friend with name and
  state, and a line for each group, in the order of the database.
\<close>

theorem login_opens_window:
  assumes "qt_json Q" and "body_ok (dump J (login_response J u vec us gs))" and "m_recvBuf (d_client D) = []"
    and "fromJson Q (dump J (login_response J u vec us gs)) = Some (login_response J u vec us gs)" and "is_int32 (uid u)"
    and "\<forall>f\<in>set us. is_int32 (uid f) \<and> fromJson Q (dump J (friend_json f)) = Some (friend_json f)"
    and "\<forall>g\<in>set gs. is_int32 (gid g) \<and> fromJson Q (dump J (group_json J g)) = Some (group_json J g)"
    and "D' = deliver S Q (onReadyRead S Q (packet (dump J (login_response J u vec us gs))) (d_client D)) D"
  shows "accepted D' \<and> m_pending D' = NoAction \<and> w_myId (open_window Q D') = uid u \<and> w_userName (open_window Q D') = uname u \<and>
    labels (w_friends (open_window Q D')) = map (\<lambda>f. (uid f, uname f @ '' ['' @ ustate f @ '']'')) us \<and>
    labels (w_groups (open_window Q D')) = map (\<lambda>g. (gid g, gname g)) gs"
proof -
  define F where "F = map JStr (map (\<lambda>f. dump J (friend_json f)) us)"
  define G where "G = map JStr (map (\<lambda>g. dump J (group_json J g)) gs)"
  define c where "c = d_client D"
  define c' where "c' = onReadyRead S Q (packet (dump J (login_response J u vec us gs))) c"
  have "emitted c' = emitted c @ [loginSuccess (uid u) (uname u) F G (map JStr vec)]"
    unfolding c'_def onReadyRead_packet [OF assms(2) assms(3) [folded c_def]] client_body_def assms(4) option.case
      qt_json.login_answer_signal [OF assms(1,5)] by (simp add: Let_def F_def G_def emit_def)
  then have "new_signals c c' = [loginSuccess (uid u) (uname u) F G (map JStr vec)]" by (simp add: new_signals_def)
  then have D': "D' = onLoginSuccess (uid u) (uname u) F G (map JStr vec) (D\<lparr>d_client := c'\<rparr>)"
    unfolding assms(8) c_def [symmetric] c'_def [symmetric] by (simp add: deliver_def dialog_slot_def c_def)
  have f: "labels (loadFriends Q F) = map (\<lambda>f. (uid f, uname f @ '' ['' @ ustate f @ '']'')) us"
    unfolding F_def by (rule qt_json.friends_shown [OF assms(1,6)])
  have g: "labels (loadGroups Q G) = map (\<lambda>g. (gid g, gname g)) gs"
    unfolding G_def by (rule qt_json.groups_shown [OF assms(1,7)])
  show ?thesis by (simp add: D' onLoginSuccess_def open_window_def new_widget_lists f g)
qed

definition demo_account :: "user \<times> user list \<times> group list" where
  "demo_account = (\<lparr>uid = 1, uname = ''ann'', upwd = ''a'', ustate = ''online''\<rparr>,
     [\<lparr>uid = 2, uname = ''bob'', upwd = [], ustate = ''offline''\<rparr>], [\<lparr>gid = 3, gname = ''team'', gdesc = ''d'', gusers = []\<rparr>])"

definition demo_answer :: json where
  "demo_answer = (case demo_account of (u, us, gs) \<Rightarrow> login_response (ref_json []) u [] us gs)"

definition demo_docs :: "json list" where
  "demo_docs = (case demo_account of (u, us, gs) \<Rightarrow> demo_answer # map friend_json us @ map (group_json (ref_json [])) gs)"

theorem login_opens_window_witness:
  "labels (w_friends (open_window (ref_qjson demo_docs)
     (deliver ref_socket (ref_qjson demo_docs) (onReadyRead ref_socket (ref_qjson demo_docs) (packet (ref_dump demo_answer)) fresh_client)
       (new_dialog fresh_client)))) = [(2, ''bob [offline]'')]"
proof -
  define u us gs where "u = fst demo_account" and "us = fst (snd demo_account)" and "gs = snd (snd demo_account)"
  let ?J = "ref_json []" and ?Q = "ref_qjson demo_docs"
  have e: "demo_answer = login_response ?J u [] us gs" by (simp add: demo_answer_def u_def us_def gs_def demo_account_def)
  have d: "dump ?J (login_response ?J u [] us gs) = ref_dump demo_answer" by (simp add: ref_json_def e)
  have l: "0 < length (ref_dump demo_answer)" "length (ref_dump demo_answer) \<le> 300"
    by code_simp+
  have b: "body_ok (dump ?J (login_response ?J u [] us gs))"
    unfolding d using l by (simp add: body_ok_def max_body_def)
  have h: "fromJson ?Q (dump ?J (login_response ?J u [] us gs)) = Some (login_response ?J u [] us gs)" "is_int32 (uid u)"
    "\<forall>f\<in>set us. is_int32 (uid f) \<and> fromJson ?Q (dump ?J (friend_json f)) = Some (friend_json f)"
    "\<forall>g\<in>set gs. is_int32 (gid g) \<and> fromJson ?Q (dump ?J (group_json ?J g)) = Some (group_json ?J g)"
    subgoal unfolding u_def us_def gs_def by code_simp
    subgoal unfolding u_def us_def gs_def by code_simp
    subgoal unfolding u_def us_def gs_def by code_simp
    subgoal unfolding u_def us_def gs_def by code_simp
    done
  have "m_recvBuf (d_client (new_dialog fresh_client)) = []" by (simp add: new_dialog_def fresh_client_def new_client_def)
  from login_opens_window [OF qref.qt_json_axioms b this h(1-4) refl, of ref_socket]
  have "labels (w_friends (open_window ?Q (deliver ref_socket ?Q (onReadyRead ref_socket ?Q (packet (ref_dump demo_answer)) fresh_client)
       (new_dialog fresh_client)))) = map (\<lambda>f. (uid f, uname f @ '' ['' @ ustate f @ '']'')) us"
    unfolding d by (simp add: new_dialog_def)
  then show ?thesis by (simp add: us_def demo_account_def)
qed

end
