(* ===== verification/Startup.thy ===== *)
theory Startup
  imports Config AsyncLog DbPool ChatService
begin

section \<open>The server's main function\<close>

text \<open>
  \<open>src/server/main.cpp\<close>: from the configuration file to a listening server, and the sequence
  after the loop. Files, directories, the time and the outcomes of the connections to MySQL are
  the fields of \<open>boot\<close>; \<open>b_writer\<close> is what the log's writer thread did to the log meanwhile.
  The set-up of signal handlers and of muduo's loop is not modelled.
\<close>

record boot =
  b_exe :: "string option"
  b_file :: "string \<Rightarrow> string option"
  b_isdir :: "string \<Rightarrow> bool"
  b_mkdir :: "string \<Rightarrow> bool"
  b_errno :: string
  b_pid :: int
  b_time :: tm
  b_thread :: string
  b_source :: "string \<Rightarrow> string"
  b_opens :: bool
  b_fw :: "nat \<Rightarrow> nat"
  b_writer :: "alog \<Rightarrow> alog"
  b_attempts :: "handle option list"
  b_now :: int

record server_setup =
  listen_ip :: string
  listen_port :: "16 word"
  db_args :: "string list"
  setup_pool :: pool
  setup_log :: alog

text \<open>\<open>main\<close> returns 1, crashes, has no defined result, or reaches the loop.\<close>

datatype outcome = Returned_1 | Crash | No_result | Serving server_setup

definition getProjectRootDir :: "string option \<Rightarrow> string" where
  "getProjectRootDir exe = (case exe of Some path \<Rightarrow> (if path \<noteq> [] then dirname path @ ''/..'' else ''.'') | None \<Rightarrow> ''.'')"

text \<open>
  \<open>LOGF\<close> crashes the program; the \<open>return 1\<close> behind it is reached when no log file can be opened.
  \<open>cont\<close> is what \<open>main\<close> does with the log when the call returns.
\<close>

definition fatal :: "boot \<Rightarrow> string \<Rightarrow> int \<Rightarrow> string \<Rightarrow> alog \<Rightarrow> (alog \<Rightarrow> outcome) \<Rightarrow> outcome" where
  "fatal B file line msg L cont = (case log_output FATAL (b_time B) (b_thread B) (Some (b_source B file, line)) msg (b_opens B) (b_fw B) L of
      None \<Rightarrow> No_result | Some (Crashed, L1) \<Rightarrow> Crash | Some (Returned r, L1) \<Rightarrow> cont L1)"

definition log_directory :: "boot \<Rightarrow> string \<Rightarrow> string" where
  "log_directory B dir = (if dir \<noteq> [] \<and> hd dir \<noteq> CHR ''/'' then getProjectRootDir (b_exe B) @ ''/'' @ dir else dir)"

text \<open>\<open>(short)atol(s)\<close>, taken by \<open>InetAddress\<close> as a \<open>uint16_t\<close>.\<close>

definition port_of :: "string \<Rightarrow> 16 word" where
  "port_of s = word_of_int (max (-(2 ^ 63)) (min (2 ^ 63 - 1) (atoi s)))"

definition number_of :: "config \<Rightarrow> string \<Rightarrow> int \<Rightarrow> int" where
  "number_of cfg name d = (case getConfigName cfg name of Some s \<Rightarrow> c_atoi s | None \<Rightarrow> d)"

text \<open>The address to listen on; the arguments replace the configured one.\<close>

definition listen :: "boot \<Rightarrow> string list \<Rightarrow> config \<Rightarrow> string list \<Rightarrow> pool \<Rightarrow> alog \<Rightarrow> outcome" where
  "listen B args cfg db p L =
     (case getConfigName cfg ''serverip'' of
        None \<Rightarrow> fatal B ''main.cpp'' 115 ''serverip not set in config file'' L (\<lambda>_. Returned_1)
      | Some ip \<Rightarrow> (case getConfigName cfg ''serverport'' of
          None \<Rightarrow> fatal B ''main.cpp'' 117 ''serverport not set in config file'' L (\<lambda>_. Returned_1)
        | Some portstr \<Rightarrow> (case args of
            [] \<Rightarrow> Serving \<lparr>listen_ip = ip, listen_port = port_of portstr, db_args = db, setup_pool = p, setup_log = L\<rparr>
          | [ip2, portstr2] \<Rightarrow> Serving \<lparr>listen_ip = ip2, listen_port = port_of portstr2, db_args = db, setup_pool = p, setup_log = L\<rparr>
          | _ \<Rightarrow> Returned_1)))"

text \<open>The database pool; \<open>init\<close> itself is fatal when no connection comes.\<close>

definition open_pool :: "boot \<Rightarrow> string list \<Rightarrow> config \<Rightarrow> string list \<Rightarrow> alog \<Rightarrow> outcome" where
  "open_pool B args cfg db L =
     (let n = number_of cfg ''dbpoolsize'' 8; m = number_of cfg ''dbmaxpoolsize'' 16;
          (ok, p) = pool_init (b_now B) n m (b_attempts B) new_pool;
          failed = (\<lambda>L. fatal B ''main.cpp'' 107 ''DbPool init failed'' L (\<lambda>_. Returned_1))
      in if ok then listen B args cfg db p L
         else if n \<le> 0 \<or> m < n then failed L
         else fatal B ''dbpool.cpp'' 66 ''DbPool init: no connection available'' L failed)"

text \<open>
  \<open>main\<close> up to the loop. After a successful \<open>mkdir\<close> the code calls \<open>closedir\<close> with the null pointer of
  the failed \<open>opendir\<close>, which the C library of the platform answers with an error.
\<close>

definition startup :: "boot \<Rightarrow> string list \<Rightarrow> outcome" where
  "startup B args =
     (case loadFile (b_file B (getProjectRootDir (b_exe B) @ ''/etc/chatserver.conf'')) of
        None \<Rightarrow> No_result
      | Some cfg \<Rightarrow> (case getConfigName cfg ''logfiledir'' of
          None \<Rightarrow> fatal B ''main.cpp'' 56 ''logdir is not set in config file'' new_log (\<lambda>_. Returned_1)
        | Some dir \<Rightarrow>
            (let absdir = log_directory B dir in
             if \<not> b_isdir B absdir \<and> \<not> b_mkdir B absdir
             then fatal B ''main.cpp'' 76 (''create base dir error, '' @ absdir @ '' , errno: '' @ b_errno B) new_log (\<lambda>_. Returned_1)
             else (let name = (case getConfigName cfg ''logfilename'' of Some s \<Rightarrow> s | None \<Rightarrow> ''chatserver'');
                       db = map (getConfigName cfg) [''dbserver'', ''dbuser'', ''dbpassword'', ''dbname'']
                   in case log_init (b_exe B) (b_pid B) (Some (absdir @ name)) False (10 * 1024 * 1024) new_log of
                        None \<Rightarrow> No_result
                      | Some L0 \<Rightarrow>
                          if None \<in> set db
                          then fatal B ''main.cpp'' 96 ''mysql config is not set in config file'' (b_writer B L0) (\<lambda>_. Returned_1)
                          else open_pool B args cfg (map the db) (b_writer B L0)))))"

text \<open>After the loop: everybody is marked offline, then the pool closes its connections.\<close>

definition main_exit :: "('db, 'h) env \<Rightarrow> pool \<Rightarrow> ('db, 'h) svc \<Rightarrow> (('db, 'h) svc \<times> pool) option" where
  "main_exit E p w = (case reset E w of None \<Rightarrow> None | Some w1 \<Rightarrow> Some (w1, pool_shutdown p))"

subsection \<open>Facts\<close>

lemma fatal_not_serving:
  "(\<And>L. cont L \<noteq> Serving s) \<Longrightarrow> fatal B file line msg L cont \<noteq> Serving s"
  by (auto simp: fatal_def split: option.split log_result.split prod.split)

lemma listen_serving:
  assumes "listen B args cfg db p L = Serving s"
  shows "\<exists>ip portstr. getConfigName cfg ''serverip'' = Some ip \<and> getConfigName cfg ''serverport'' = Some portstr \<and>
    (args = [] \<and> listen_ip s = ip \<and> listen_port s = port_of portstr \<or>
     (\<exists>ip2 portstr2. args = [ip2, portstr2] \<and> listen_ip s = ip2 \<and> listen_port s = port_of portstr2)) \<and>
    db_args s = db \<and> setup_pool s = p \<and> setup_log s = L"
  using assms unfolding listen_def
  by (auto simp: fatal_not_serving dest!: fatal_not_serving [THEN notE, rotated] split: option.splits list.splits)

lemma open_pool_serving:
  assumes "open_pool B args cfg db L = Serving s"
  shows "\<exists>p. pool_init (b_now B) (number_of cfg ''dbpoolsize'' 8) (number_of cfg ''dbmaxpoolsize'' 16) (b_attempts B) new_pool = (True, p) \<and>
    listen B args cfg db p L = Serving s"
proof -
  obtain ok p where i: "pool_init (b_now B) (number_of cfg ''dbpoolsize'' 8) (number_of cfg ''dbmaxpoolsize'' 16) (b_attempts B) new_pool = (ok, p)"
    by force
  have "ok"
  proof (rule ccontr)
    assume "\<not> ok"
    with assms i show False
      by (auto simp: open_pool_def Let_def split: if_split_asm dest!: fatal_not_serving [THEN notE, rotated])
  qed
  with assms i show ?thesis by (simp add: open_pool_def Let_def)
qed

end
