(* ===== verification/StartupProps.thy ===== *)
theory StartupProps
  imports Startup
begin

section \<open>When the server serves\<close>

text \<open>
  The server reaches its loop only with a complete configuration, a log directory and a filled
  connection pool; the shipped file is such a configuration.
\<close>

text \<open>The file \<open>etc/chatserver.conf\<close> of the repository.\<close>

definition shipped_conf :: string where
  "shipped_conf = ''#client listener'' @ [NEWLINE] @
     ''listenip=0.0.0.0'' @ [NEWLINE] @
     ''listenport=20000'' @ [NEWLINE] @
     [NEWLINE] @
     ''#server listener'' @ [NEWLINE] @
     ''serverip=127.0.0.1'' @ [NEWLINE] @
     ''serverport=8000'' @ [NEWLINE] @
     [NEWLINE] @
     ''logfiledir=logs/'' @ [NEWLINE] @
     ''logfilename=chatserver'' @ [NEWLINE] @
     ''logbinarypackage=0'' @ [NEWLINE] @
     [NEWLINE] @
     ''#mysql config'' @ [NEWLINE] @
     ''dbserver=127.0.0.1'' @ [NEWLINE] @
     ''dbuser=root'' @ [NEWLINE] @
     ''dbpassword=123456'' @ [NEWLINE] @
     ''dbname=chat'' @ [NEWLINE] @
     [NEWLINE] @
     ''#db pool config'' @ [NEWLINE] @
     ''dbpoolsize=8'' @ [NEWLINE] @
     ''dbmaxpoolsize=16''"

definition demo_boot :: boot where
  "demo_boot = \<lparr>b_exe = Some ''/srv/bin/ChatServer'',
     b_file = (\<lambda>f. if f = ''/srv/bin/../etc/chatserver.conf'' then Some shipped_conf else None),
     b_isdir = (\<lambda>d. False), b_mkdir = (\<lambda>d. d = ''/srv/bin/../logs/''), b_errno = [], b_pid = 7,
     b_time = \<lparr>tm_year = 126, tm_mon = 0, tm_mday = 1, tm_hour = 0, tm_min = 0, tm_sec = 0, millitm = 0\<rparr>,
     b_thread = ''1'', b_source = (\<lambda>f. f), b_opens = True, b_fw = (\<lambda>k. 4096), b_writer = (\<lambda>L. L),
     b_attempts = map Some [0..<8], b_now = 0\<rparr>"

lemma pool_init_filled:
  assumes "pool_init t n m as new_pool = (True, p)"
  shows "0 < length (idleConns p)" "int (length (idleConns p)) \<le> poolSize p" "poolSize p \<le> maxPoolSize p"
proof -
  have n: "0 < n" "n \<le> m" and i: "idleConns p \<noteq> []" "p = new_pool\<lparr>poolSize := n, maxPoolSize := m, stopped := False,
      idleConns := map (\<lambda>c. (c, t)) (somes (take (nat n) as))\<rparr>"
    using assms by (auto simp: pool_init_eq new_pool_def Let_def split: if_splits)
  have "length (idleConns p) \<le> nat n"
    using i(2) length_somes [of "take (nat n) as"] by simp
  with n i show "0 < length (idleConns p)" "int (length (idleConns p)) \<le> poolSize p" "poolSize p \<le> maxPoolSize p"
    by simp_all
qed

definition conf_path :: "boot \<Rightarrow> string" where
  "conf_path B = getProjectRootDir (b_exe B) @ ''/etc/chatserver.conf''"

text \<open>
  (C32) The server starts to listen only when everything it needs is there: the file gives a log
  directory that exists or was made, the four database settings, an address and a port; the pool
  holds at least one and at most the configured number of connections, the maximum is no less;
  and it listens on the configured address, or on the two arguments, with the port modulo \<open>2\<^sup>1\<^sup>6\<close>.
\<close>

theorem startup_complete:
  assumes "startup B args = Serving s"
  shows "\<exists>cfg dir ip port. loadFile (b_file B (conf_path B)) = Some cfg \<and> getConfigName cfg ''logfiledir'' = Some dir \<and>
    (b_isdir B (log_directory B dir) \<or> b_mkdir B (log_directory B dir)) \<and>
    map (getConfigName cfg) [''dbserver'', ''dbuser'', ''dbpassword'', ''dbname''] = map Some (db_args s) \<and>
    getConfigName cfg ''serverip'' = Some ip \<and> getConfigName cfg ''serverport'' = Some port \<and>
    (args = [] \<and> listen_ip s = ip \<and> listen_port s = port_of port \<or>
     (\<exists>ip2 port2. args = [ip2, port2] \<and> listen_ip s = ip2 \<and> listen_port s = port_of port2)) \<and>
    0 < length (idleConns (setup_pool s)) \<and> int (length (idleConns (setup_pool s))) \<le> poolSize (setup_pool s) \<and>
    poolSize (setup_pool s) \<le> maxPoolSize (setup_pool s)"
proof -
  obtain cfg where cfg: "loadFile (b_file B (conf_path B)) = Some cfg"
    using assms by (auto simp: startup_def conf_path_def split: option.splits)
  obtain dir where dir: "getConfigName cfg ''logfiledir'' = Some dir"
    using assms cfg fatal_not_serving [of "\<lambda>_. Returned_1"] by (auto simp: startup_def conf_path_def split: option.splits)
  define absdir where "absdir = log_directory B dir"
  define name where "name = (case getConfigName cfg ''logfilename'' of Some s \<Rightarrow> s | None \<Rightarrow> ''chatserver'')"
  define db where "db = map (getConfigName cfg) [''dbserver'', ''dbuser'', ''dbpassword'', ''dbname'']"
  define init where "init = log_init (b_exe B) (b_pid B) (Some (absdir @ name)) False (10 * 1024 * 1024) new_log"
  have s: "(if \<not> b_isdir B absdir \<and> \<not> b_mkdir B absdir
      then fatal B ''main.cpp'' 76 (''create base dir error, '' @ absdir @ '' , errno: '' @ b_errno B) new_log (\<lambda>_. Returned_1)
      else case init of None \<Rightarrow> No_result
        | Some L0 \<Rightarrow> if None \<in> set db
            then fatal B ''main.cpp'' 96 ''mysql config is not set in config file'' (b_writer B L0) (\<lambda>_. Returned_1)
            else open_pool B args cfg (map the db) (b_writer B L0)) = Serving s"
    using assms unfolding startup_def conf_path_def [symmetric] cfg option.case dir Let_def absdir_def init_def name_def db_def .
  have d: "b_isdir B absdir \<or> b_mkdir B absdir"
    using s fatal_not_serving [of "\<lambda>_. Returned_1"] by (auto split: if_splits)
  then obtain L0 where "init = Some L0" using s by (auto split: option.splits)
  define L where "L = b_writer B L0"
  have db1: "None \<notin> set db"
    using s d fatal_not_serving [of "\<lambda>_. Returned_1"] \<open>init = Some L0\<close> by (auto split: if_splits)
  then have "open_pool B args cfg (map the db) L = Serving s" using s d \<open>init = Some L0\<close> by (auto simp: L_def)
  from open_pool_serving [OF this] obtain p where
    p: "pool_init (b_now B) (number_of cfg ''dbpoolsize'' 8) (number_of cfg ''dbmaxpoolsize'' 16) (b_attempts B) new_pool = (True, p)"
      "listen B args cfg (map the db) p L = Serving s" by blast
  note l = listen_serving [OF p(2)]
  have sp: "setup_pool s = p" "db_args s = map the db" using l by blast+
  have "db = map Some (map the db)" using db1 by (induction db) auto
  then have "map (getConfigName cfg) [''dbserver'', ''dbuser'', ''dbpassword'', ''dbname''] = map Some (db_args s)"
    unfolding db_def [symmetric] sp .
  moreover obtain ip port where "getConfigName cfg ''serverip'' = Some ip" "getConfigName cfg ''serverport'' = Some port"
    "args = [] \<and> listen_ip s = ip \<and> listen_port s = port_of port \<or>
     (\<exists>ip2 port2. args = [ip2, port2] \<and> listen_ip s = ip2 \<and> listen_port s = port_of port2)" using l by blast
  ultimately show ?thesis
    using d pool_init_filled [OF p(1)] unfolding absdir_def sp(1) by (intro exI [of _ cfg] exI [of _ dir] exI [of _ ip] exI [of _ port] conjI cfg dir)
qed

theorem startup_complete_witness:
  "\<exists>s. startup demo_boot [] = Serving s \<and> listen_ip s = ''127.0.0.1'' \<and> listen_port s = 8000 \<and> length (idleConns (setup_pool s)) = 8 \<and>
     poolSize (setup_pool s) \<le> maxPoolSize (setup_pool s)"
proof -
  have "(case startup demo_boot [] of Serving s \<Rightarrow> listen_ip s = ''127.0.0.1'' \<and> listen_port s = 8000 \<and>
      length (idleConns (setup_pool s)) = 8 | _ \<Rightarrow> False)"
    by code_simp
  then obtain s where s: "startup demo_boot [] = Serving s" "listen_ip s = ''127.0.0.1''" "listen_port s = 8000"
    "length (idleConns (setup_pool s)) = 8"
    by (auto split: outcome.splits)
  with startup_complete [OF s(1)] show ?thesis by blast
qed

end
