(* ===== verification/Requests.thy ===== *)
theory Requests
  imports ClientProps
begin

section \<open>The requests of the Qt client are well typed for the server\<close>

text \<open>
  The calls of the Qt client that send a request, the document each sends, and the proof that
  the server's handler for it does the operation of the request with the very values of the call:
  both ends use the same kinds, field names and types.
\<close>

datatype qt_request =
    Q_login int string | Q_reg string string | Q_chat int string | Q_addFriend int | Q_createGroup string string
  | Q_addGroup int | Q_groupChat int string | Q_updateName int string | Q_logout

definition issue :: "'q qsocket \<Rightarrow> qjson \<Rightarrow> string \<Rightarrow> qt_request \<Rightarrow> 'q client \<Rightarrow> 'q client" where
  "issue S Q stamp r c = (case r of
      Q_login i pwd \<Rightarrow> client_login S Q i pwd c
    | Q_reg name pwd \<Rightarrow> client_reg S Q name pwd c
    | Q_chat toid msg \<Rightarrow> client_oneChat S Q stamp toid msg c
    | Q_addFriend i \<Rightarrow> client_addFriend S Q i c
    | Q_createGroup name desc \<Rightarrow> client_createGroup S Q name desc c
    | Q_addGroup g \<Rightarrow> client_addGroup S Q g c
    | Q_groupChat g msg \<Rightarrow> client_groupChat S Q stamp g msg c
    | Q_updateName i name \<Rightarrow> client_updateName S Q i name c
    | Q_logout \<Rightarrow> client_loginout S Q c)"

text \<open>The kind of a request and the types of the fields beside it.\<close>

fun request_kind :: "qt_request \<Rightarrow> msg_type" where
  "request_kind (Q_login i pwd) = LOGIN_MSG"
| "request_kind (Q_reg name pwd) = REG_MSG"
| "request_kind (Q_chat toid msg) = ONE_CHAT_MSG"
| "request_kind (Q_addFriend i) = ADD_FRIEND_MSG"
| "request_kind (Q_createGroup name desc) = CREATE_GROUP_MSG"
| "request_kind (Q_addGroup g) = ADD_GROUP_MSG"
| "request_kind (Q_groupChat g msg) = GROUP_CHAT_MSG"
| "request_kind (Q_updateName i name) = UPDATE_NAME_MSG"
| "request_kind Q_logout = LOGINOUT_MSG"

fun request_fields :: "'q client \<Rightarrow> string \<Rightarrow> qt_request \<Rightarrow> (string \<times> json) list" where
  "request_fields c stamp (Q_login i pwd) = [(''id'', JInt i), (''password'', JStr pwd)]"
| "request_fields c stamp (Q_reg name pwd) = [(''name'', JStr name), (''password'', JStr pwd)]"
| "request_fields c stamp (Q_chat toid msg) = [(''id'', JInt (m_myId c)), (''name'', JStr (m_myName c)), (''toid'', JInt toid),
     (''msg'', JStr msg), (''time'', JStr stamp)]"
| "request_fields c stamp (Q_addFriend i) = [(''id'', JInt (m_myId c)), (''friendid'', JInt i)]"
| "request_fields c stamp (Q_createGroup name desc) = [(''id'', JInt (m_myId c)), (''groupname'', JStr name), (''groupdesc'', JStr desc)]"
| "request_fields c stamp (Q_addGroup g) = [(''id'', JInt (m_myId c)), (''groupid'', JInt g)]"
| "request_fields c stamp (Q_groupChat g msg) = [(''id'', JInt (m_myId c)), (''name'', JStr (m_myName c)), (''groupid'', JInt g),
     (''msg'', JStr msg), (''time'', JStr stamp)]"
| "request_fields c stamp (Q_updateName i name) = [(''id'', JInt i), (''name'', JStr name)]"
| "request_fields c stamp Q_logout = [(''id'', JInt (m_myId c))]"

definition request_doc :: "'q client \<Rightarrow> string \<Rightarrow> qt_request \<Rightarrow> json" where
  "request_doc c stamp r = jobj ((''msgid'', JInt (code (request_kind r))) # request_fields c stamp r)"

text \<open>A socket that keeps the bytes written to it and emits nothing.\<close>

definition tape :: "string list qsocket" where
  "tape = \<lparr>sk_state = (\<lambda>q. ConnectedState), sk_abort = (\<lambda>q. ([], q)), sk_connect = (\<lambda>h p q. ([], q)),
     sk_write = (\<lambda>b q. ([], q @ [b])), sk_disconnect = (\<lambda>q. ([], q))\<rparr>"

lemma tape_send [simp]: "m_socket (client_sendJson tape Q obj c) = m_socket c @ [packet (toJson Q obj)]"
  by (simp add: client_sendJson_def sock_def tape_def)

lemma issue_writes:
  assumes "r = Q_logout \<longrightarrow> \<not> m_intentionalDisconnect c"
  shows "m_socket (issue tape Q stamp r c) = m_socket c @ [packet (toJson Q (request_doc c stamp r))]"
proof -
  have d: "m_socket (sock (sk_disconnect tape) x) = m_socket x" for x :: "string list client"
    by (simp add: sock_def tape_def)
  show ?thesis
    using assms by (cases r) (simp_all add: issue_def request_doc_def client_login_def login_json_def client_reg_def client_oneChat_def
      chat_json_def client_addFriend_def client_createGroup_def client_addGroup_def client_groupChat_def group_chat_json_def
      client_updateName_def client_loginout_def Let_def d del: code.simps)
qed

text \<open>The ids of a request, all of type \<open>int\<close> in the client.\<close>

fun request_ids :: "qt_request \<Rightarrow> int list" where
  "request_ids (Q_login i pwd) = [i]"
| "request_ids (Q_chat toid msg) = [toid]"
| "request_ids (Q_addFriend i) = [i]"
| "request_ids (Q_addGroup g) = [g]"
| "request_ids (Q_groupChat g msg) = [g]"
| "request_ids (Q_updateName i name) = [i]"
| "request_ids r = []"

lemma kind_read: "int_field J (request_doc c stamp r) ''msgid'' = Inr (code (request_kind r))"
proof -
  have "map_of (rev ((''msgid'', JInt (code (request_kind r))) # request_fields c stamp r)) ''msgid'' = Some (JInt (code (request_kind r)))"
    by (cases r) (simp_all del: code.simps)
  then have "int_field J (request_doc c stamp r) ''msgid'' = Inr (to_int32 (code (request_kind r)))"
    unfolding request_doc_def by (rule int_field_jobj [OF list.discI [OF refl]])
  also have "is_int32 (code (request_kind r))" by (cases r) (simp_all add: is_int32_def)
  ultimately show ?thesis by simp
qed

lemma handlers:
  "getHandler E (code LOGIN_MSG) = login E" "getHandler E (code REG_MSG) = reg E" "getHandler E (code LOGINOUT_MSG) = loginout E"
  "getHandler E (code ONE_CHAT_MSG) = oneChat E" "getHandler E (code GROUP_CHAT_MSG) = groupChat E"
  "getHandler E (code ADD_FRIEND_MSG) = addFriend E" "getHandler E (code CREATE_GROUP_MSG) = createGroup E"
  "getHandler E (code ADD_GROUP_MSG) = addGroup E" "getHandler E (code UPDATE_NAME_MSG) = updateName E"
  by (simp_all add: getHandler_def msgHandlerMap_def)

text \<open>Reading a field of a document that has it.\<close>

lemma doc_fields:
  assumes "kvs \<noteq> []"
  shows "k \<in> fst ` set kvs \<Longrightarrow> contains (jobj kvs) k"
    "map_of (rev kvs) k = Some (JInt n) \<Longrightarrow> is_int32 n \<Longrightarrow> int_field J (jobj kvs) k = Inr n"
    "map_of (rev kvs) k = Some (JStr s) \<Longrightarrow> string_field (jobj kvs) k = Inr s"
  using assms by (simp_all add: contains_jobj int_field_jobj string_field_jobj)

text \<open>The operation that a request asks the server for, with the values of the call.\<close>

fun asked :: "('db, 'h) env \<Rightarrow> conn \<Rightarrow> 'q client \<Rightarrow> string \<Rightarrow> qt_request \<Rightarrow> ('db, 'h) svc \<Rightarrow>
    (json_error + ('db, 'h) svc) option" where
  "asked E conn c stamp (Q_login i pwd) w = login_user E conn i pwd w"
| "asked E conn c stamp (Q_reg name pwd) w = reg_user E conn name pwd w"
| "asked E conn c stamp (Q_chat toid msg) w = chat_to E toid (request_doc c stamp (Q_chat toid msg)) w"
| "asked E conn c stamp (Q_addFriend i) w = befriend E conn (m_myId c) i w"
| "asked E conn c stamp (Q_createGroup name desc) w = group_create E conn (m_myId c) name desc w"
| "asked E conn c stamp (Q_addGroup g) w = group_join E conn (m_myId c) g w"
| "asked E conn c stamp (Q_groupChat g msg) w = group_send E (m_myId c) g (request_doc c stamp (Q_groupChat g msg)) w"
| "asked E conn c stamp (Q_updateName i name) w = rename_user E conn i name w"
| "asked E conn c stamp Q_logout w = logout_user E conn (m_myId c) w"

lemma handled:
  assumes "is_int32 (m_myId c)" and "\<forall>i\<in>set (request_ids r). is_int32 i"
  shows "getHandler E (code (request_kind r)) conn (request_doc c stamp r) w = asked E conn c stamp r w"
  using assms
  by (cases r) (simp_all add: handlers request_doc_def doc_fields login_def reg_def oneChat_def addFriend_def createGroup_def
      addGroup_def groupChat_def updateName_def loginout_def del: code.simps handler_ops)

text \<open>The operations themselves do not throw.\<close>

lemma asked_returns: "asked E conn c stamp r w \<noteq> Some (Inl e)"
  by (cases r) (auto simp: Let_def bind_eq_Some_conv split: if_splits option.splits prod.splits)

text \<open>
  (C16) Both ends agree on the protocol: every request call of the Qt client writes one packet, whose
  document has the kind the server dispatches to the handler of that request; and that handler
  does the operation of the request with exactly the values of the call (ids, names, password, text
  and the client's own id), and never throws.
\<close>

theorem client_requests_typed:
  assumes "is_int32 (m_myId c)" and "\<forall>i\<in>set (request_ids r). is_int32 i" and "r = Q_logout \<longrightarrow> \<not> m_intentionalDisconnect c"
  shows "m_socket (issue tape Q stamp r c) = m_socket c @ [packet (toJson Q (request_doc c stamp r))] \<and>
    int_field (jlib E) (request_doc c stamp r) ''msgid'' = Inr (code (request_kind r)) \<and>
    getHandler E (code (request_kind r)) conn (request_doc c stamp r) w = asked E conn c stamp r w \<and>
    asked E conn c stamp r w \<noteq> Some (Inl e)"
  using issue_writes [OF assms(3)] kind_read handled [OF assms(1,2)] asked_returns by blast

theorem client_requests_typed_witness:
  "getHandler (ref_chat []) (code ADD_FRIEND_MSG) (demo_conn 1) (request_doc demo_client ''now'' (Q_addFriend 3)) demo =
     befriend (ref_chat []) (demo_conn 1) 1 3 demo"
proof -
  have h: "\<forall>i\<in>set (request_ids (Q_addFriend 3)). is_int32 i" by (simp add: is_int32_def)
  have me: "m_myId demo_client = 1" by (simp add: demo_client_def)
  have i: "is_int32 (m_myId ((new_client ([] :: string list) 100000 None None)\<lparr>m_myId := 1\<rparr>))" by (simp add: is_int32_def)
  from client_requests_typed [OF i h, of "ref_qjson []" "''now''" "ref_chat []" "demo_conn 1" demo]
  show ?thesis by (simp add: request_doc_def me del: code.simps handler_ops)
qed

end
