(* ===== verification/Connections.thy ===== *)
theory Connections
  imports DbPool Mysql AsyncLog
begin

section \<open>MySQL objects and the handles of the driver\<close>

text \<open>
  The class \<open>MySQL\<close> (\<open>db.cpp\<close>, \<open>db.hpp\<close>), the calls that \<open>PooledMySQL\<close> forwards to it and the
  life of a driver handle: \<open>createConnection\<close>, the owners of a handle, and the places where the
  last owner goes and the destructor closes it. The C client library of MySQL is the parameter
  \<open>L\<close>; the locale \<open>client_lib\<close> states what it promises of the handles. The relation \<open>conn_step\<close>
  runs the locked regions of \<open>dbpool.cpp\<close> with these calls in place, and refines \<open>pool_step\<close>.
\<close>

subsection \<open>The client library\<close>

text \<open>A call that may fail returns whether it succeeded. \<open>opened\<close> below are the handles not yet closed.\<close>

record 'd mysql_lib =
  lib_init :: "'d \<Rightarrow> handle option \<times> 'd"
  lib_close :: "handle \<Rightarrow> 'd \<Rightarrow> 'd"
  lib_real_connect :: "handle \<Rightarrow> string \<Rightarrow> string \<Rightarrow> string \<Rightarrow> string \<Rightarrow> int \<Rightarrow> 'd \<Rightarrow> bool \<times> 'd"
  lib_query :: "handle \<Rightarrow> string \<Rightarrow> 'd \<Rightarrow> bool \<times> 'd"
  lib_ping :: "handle \<Rightarrow> 'd \<Rightarrow> bool \<times> 'd"
  lib_store_result :: "handle \<Rightarrow> 'd \<Rightarrow> string list list option \<times> 'd"
  lib_escape :: "handle \<Rightarrow> string \<Rightarrow> 'd \<Rightarrow> string"
  lib_error :: "handle \<Rightarrow> 'd \<Rightarrow> string"

text \<open>The library's state and what the code logged.\<close>

record 'd drv =
  lib :: 'd
  logged :: "(log_level \<times> string) list"

definition say :: "log_level \<Rightarrow> string \<Rightarrow> 'd drv \<Rightarrow> 'd drv" where
  "say lvl msg s = s\<lparr>logged := logged s @ [(lvl, msg)]\<rparr>"

definition lib_call :: "('d \<Rightarrow> 'a \<times> 'd) \<Rightarrow> 'd drv \<Rightarrow> 'a \<times> 'd drv" where
  "lib_call f s = (let (r, d) = f (lib s) in (r, s\<lparr>lib := d\<rparr>))"

subsection \<open>The class MySQL\<close>

text \<open>
  An object is its member \<open>_conn\<close>, which is null when \<open>mysql_init\<close> had no memory; the library
  has no defined result for a null handle. The static members are the configuration.
\<close>

type_synonym mysql_obj = "handle option"

record db_config =
  db_server :: string
  db_user :: string
  db_password :: string
  db_name :: string

definition mysql_new :: "'d mysql_lib \<Rightarrow> 'd drv \<Rightarrow> mysql_obj \<times> 'd drv" where
  "mysql_new L s = lib_call (lib_init L) s"

definition mysql_delete :: "'d mysql_lib \<Rightarrow> mysql_obj \<Rightarrow> 'd drv \<Rightarrow> 'd drv" where
  "mysql_delete L conn s = (case conn of None \<Rightarrow> s | Some h \<Rightarrow> s\<lparr>lib := lib_close L h (lib s)\<rparr>)"

definition setConfig :: "string \<Rightarrow> string \<Rightarrow> string \<Rightarrow> string \<Rightarrow> db_config \<Rightarrow> db_config" where
  "setConfig srv usr pwd db cfg = cfg\<lparr>db_server := srv, db_user := usr, db_password := pwd, db_name := db\<rparr>"

definition connect_to :: "'d mysql_lib \<Rightarrow> mysql_obj \<Rightarrow> string \<Rightarrow> string \<Rightarrow> string \<Rightarrow> string \<Rightarrow> 'd drv \<Rightarrow> (bool \<times> 'd drv) option" where
  "connect_to L conn srv usr pwd db s = (case conn of
      None \<Rightarrow> None
    | Some h \<Rightarrow> (case lib_call (lib_real_connect L h (c_str srv) (c_str usr) (c_str pwd) (c_str db) 3306) s of
        (True, s1) \<Rightarrow> (let (_, s2) = lib_call (lib_query L h ''set names utf8mb4'') s1
                      in Some (True, say INFO ''connect mysql success!'' s2))
      | (False, s1) \<Rightarrow> Some (False, say INFO ''connect mysql fail!'' s1)))"

definition connect_default :: "'d mysql_lib \<Rightarrow> db_config \<Rightarrow> mysql_obj \<Rightarrow> 'd drv \<Rightarrow> (bool \<times> 'd drv) option" where
  "connect_default L cfg conn s = connect_to L conn (db_server cfg) (db_user cfg) (db_password cfg) (db_name cfg) s"

text \<open>\<open>vector<char> buf(2 n + 1)\<close>: an escaped text that does not fit with its zero byte has no result.\<close>

definition mysql_escape :: "'d mysql_lib \<Rightarrow> mysql_obj \<Rightarrow> string \<Rightarrow> 'd drv \<Rightarrow> string option" where
  "mysql_escape L conn str s = (case conn of
      None \<Rightarrow> None
    | Some h \<Rightarrow> (let len = length str * 2 + 1; e = lib_escape L h str (lib s) in
        if length e + 1 \<le> len then Some (c_str e) else None))"

definition update_failed :: string where
  "update_failed = ''%s:%d:%s '' @ [CHR 0xE6, CHR 0x9B, CHR 0xB4, CHR 0xE6, CHR 0x96, CHR 0xB0, CHR 0xE5, CHR 0xA4, CHR 0xB1,
     CHR 0xE8, CHR 0xB4, CHR 0xA5] @ ''! error: %s''"

definition query_failed :: string where
  "query_failed = ''%s:%d:%s '' @ [CHR 0xE6, CHR 0x9F, CHR 0xA5, CHR 0xE8, CHR 0xAF, CHR 0xA2, CHR 0xE5, CHR 0xA4, CHR 0xB1,
     CHR 0xE8, CHR 0xB4, CHR 0xA5] @ ''! %s''"

text \<open>\<open>file\<close> is what the compiler makes of \<open>__FILE__\<close>.\<close>

definition mysql_update_obj :: "'d mysql_lib \<Rightarrow> string \<Rightarrow> mysql_obj \<Rightarrow> string \<Rightarrow> 'd drv \<Rightarrow> (bool \<times> 'd drv) option" where
  "mysql_update_obj L file conn sql s = (case conn of
      None \<Rightarrow> None
    | Some h \<Rightarrow> (case lib_call (lib_query L h (c_str sql)) s of
        (False, s1) \<Rightarrow> Some (False, say ERROR (sprintf update_failed [CStr file, CInt 80, CStr (c_str sql), CStr (lib_error L h (lib s1))]) s1)
      | (True, s1) \<Rightarrow> Some (True, s1)))"

definition mysql_query_obj :: "'d mysql_lib \<Rightarrow> string \<Rightarrow> mysql_obj \<Rightarrow> string \<Rightarrow> 'd drv \<Rightarrow> (string list list option \<times> 'd drv) option" where
  "mysql_query_obj L file conn sql s = (case conn of
      None \<Rightarrow> None
    | Some h \<Rightarrow> (case lib_call (lib_query L h (c_str sql)) s of
        (False, s1) \<Rightarrow> Some (None, say ERROR (sprintf query_failed [CStr file, CInt 93, CStr (c_str sql), CStr (lib_error L h (lib s1))]) s1)
      | (True, s1) \<Rightarrow> Some (lib_call (lib_store_result L h) s1)))"

text \<open>\<open>PooledMySQL\<close> forwards updates and queries with its own message for a failed query.\<close>

definition pooled_update :: "'d mysql_lib \<Rightarrow> string \<Rightarrow> pooled \<Rightarrow> string \<Rightarrow> 'd drv \<Rightarrow> (bool \<times> 'd drv) option" where
  "pooled_update L file x sql s = mysql_update_obj L file (Some (pconn x)) sql s"

definition pooled_query :: "'d mysql_lib \<Rightarrow> pooled \<Rightarrow> string \<Rightarrow> 'd drv \<Rightarrow> string list list option \<times> 'd drv" where
  "pooled_query L x sql s =
     (case lib_call (lib_query L (pconn x) (c_str sql)) s of
        (False, s1) \<Rightarrow> (None, say ERROR (sprintf ''query failed: %s, error: %s''
            [CStr (c_str sql), CStr (lib_error L (pconn x) (lib s1))]) s1)
      | (True, s1) \<Rightarrow> lib_call (lib_store_result L (pconn x)) s1)"

definition pooled_escape :: "'d mysql_lib \<Rightarrow> pooled \<Rightarrow> string \<Rightarrow> 'd drv \<Rightarrow> string option" where
  "pooled_escape L x str s = mysql_escape L (Some (pconn x)) str s"

subsection \<open>Connections of the pool\<close>

text \<open>A connection that cannot be established is dropped at the return, and its handle closed.\<close>

definition createConnection :: "'d mysql_lib \<Rightarrow> db_config \<Rightarrow> 'd drv \<Rightarrow> (mysql_obj \<times> 'd drv) option" where
  "createConnection L cfg s =
     (let (conn, s1) = mysql_new L s in do {
        (ok, s2) \<leftarrow> connect_to L conn (db_server cfg) (db_user cfg) (db_password cfg) (db_name cfg) s1;
        Some (if ok then (conn, s2)
              else (None, mysql_delete L conn (say ERROR (sprintf ''createConnection failed, host=%s db=%s''
                     [CStr (c_str (db_server cfg)), CStr (c_str (db_name cfg))]) s2)))
      })"

text \<open>The loop of \<open>init\<close>: attempt \<open>i + 1\<close> of \<open>n\<close>.\<close>

fun make_connections :: "'d mysql_lib \<Rightarrow> db_config \<Rightarrow> int \<Rightarrow> nat \<Rightarrow> nat \<Rightarrow> 'd drv \<Rightarrow> (mysql_obj list \<times> 'd drv) option" where
  "make_connections L cfg n i 0 s = Some ([], s)"
| "make_connections L cfg n i (Suc k) s = do {
     (conn, s1) \<leftarrow> createConnection L cfg s;
     let s2 = (if conn = None then say ERROR (sprintf ''init: failed to create connection %d/%d'' [CInt (int i + 1), CInt n]) s1 else s1);
     (conns, s3) \<leftarrow> make_connections L cfg n (Suc i) k s2;
     Some (conn # conns, s3)
   }"

text \<open>
  \<open>DbPool::init\<close> with its connections made; the fatal line of an empty pool is left to the
  caller, who gets \<open>False\<close>.
\<close>

definition pool_open :: "'d mysql_lib \<Rightarrow> db_config \<Rightarrow> int \<Rightarrow> int \<Rightarrow> int \<Rightarrow> pool \<Rightarrow> 'd drv \<Rightarrow> (bool \<times> pool \<times> 'd drv) option" where
  "pool_open L cfg now n m p s =
     (if n \<le> 0 \<or> m < n
      then Some (False, p, say ERROR (sprintf ''DbPool init: invalid poolSize=%d maxPoolSize=%d'' [CInt n, CInt m]) s)
      else do {
        (attempts, s1) \<leftarrow> make_connections L cfg n 0 (nat n) s;
        let (ok, p1) = pool_init now n m attempts p;
        Some (ok, p1, if ok then say INFO (sprintf ''DbPool init: %d connections ready'' [CInt (int (length (idleConns p1)))]) s1 else s1)
      })"

text \<open>
  One locked region of \<open>acquire\<close>. A connection that no longer answers is replaced; its entry is
  the last owner and goes out of scope at the return or the \<open>continue\<close>.
\<close>

definition acquire_region :: "'d mysql_lib \<Rightarrow> db_config \<Rightarrow> int \<Rightarrow> pool \<Rightarrow> 'd drv \<Rightarrow> (iteration \<times> pool \<times> 'd drv) option" where
  "acquire_region L cfg now p s =
     (case idleConns p of
        (c, lastUsed) # rest \<Rightarrow>
          (let p1 = p\<lparr>idleConns := rest, activeCount := activeCount p + 1\<rparr> in
           if now - lastUsed > IDLE_PING_THRESHOLD then
             (case lib_call (lib_ping L c) s of
                (True, s1) \<Rightarrow> Some (Got c, borrow now c p1, s1)
              | (False, s1) \<Rightarrow> do {
                  (newConn, s2) \<leftarrow> createConnection L cfg (say ERROR ''ping failed, recreating connection'' s1);
                  let s3 = mysql_delete L (Some c) s2;
                  Some (case newConn of
                      Some c' \<Rightarrow> (Got c', borrow now c' p1, s3)
                    | None \<Rightarrow> (Retry, p1\<lparr>activeCount := activeCount p1 - 1\<rparr>, s3))
                })
           else Some (Got c, borrow now c p1, s))
      | [] \<Rightarrow>
          Some (if activeCount p < maxPoolSize p
                then (Creating, p\<lparr>activeCount := activeCount p + 1\<rparr>, s)
                else (DbPool.Waiting, p, s)))"

text \<open>The queue's entries are the last owners of the idle connections.\<close>

definition shutdown_conns :: "'d mysql_lib \<Rightarrow> pool \<Rightarrow> 'd drv \<Rightarrow> pool \<times> 'd drv" where
  "shutdown_conns L p s =
     (pool_shutdown p, if stopped p then s else foldl (\<lambda>s e. mysql_delete L (Some (fst e)) s) s (idleConns p))"

text \<open>The wrapper's destructor: the connection goes back to the queue, or, when the pool is stopped, it is closed.\<close>

definition return_conn :: "'d mysql_lib \<Rightarrow> int \<Rightarrow> handle \<Rightarrow> pool \<Rightarrow> 'd drv \<Rightarrow> pool \<times> 'd drv" where
  "return_conn L now c p s =
     (returnConnection now c p, if stopped p then mysql_delete L (Some c) s else s)"

subsection \<open>Any number of threads, with the driver\<close>

text \<open>
  Threads that left the lock to connect have not connected yet, have a connection (\<open>made\<close>) or
  have failed (\<open>failed\<close>), until they take the lock again.
\<close>

record 'd conn_sys =
  csys :: pool_sys
  cdrv :: "'d drv"
  made :: "handle list"
  failed :: nat

inductive conn_step :: "'d mysql_lib \<Rightarrow> db_config \<Rightarrow> 'd conn_sys \<Rightarrow> 'd conn_sys \<Rightarrow> bool" for L cfg where
  c_got: "acquire_region L cfg now (pool_of (csys s)) (cdrv s) = Some (Got c, p', d') \<Longrightarrow>
    conn_step L cfg s (s\<lparr>csys := (csys s)\<lparr>pool_of := p', held := c # held (csys s)\<rparr>, cdrv := d'\<rparr>)"
| c_retry: "acquire_region L cfg now (pool_of (csys s)) (cdrv s) = Some (Retry, p', d') \<Longrightarrow>
    conn_step L cfg s (s\<lparr>csys := (csys s)\<lparr>pool_of := p'\<rparr>, cdrv := d'\<rparr>)"
| c_unlock: "acquire_region L cfg now (pool_of (csys s)) (cdrv s) = Some (Creating, p', d') \<Longrightarrow>
    conn_step L cfg s (s\<lparr>csys := (csys s)\<lparr>pool_of := p', making := Suc (making (csys s))\<rparr>, cdrv := d'\<rparr>)"
| c_connect: "length (made s) + failed s < making (csys s) \<Longrightarrow> createConnection L cfg (cdrv s) = Some (r, d') \<Longrightarrow>
    conn_step L cfg s (case r of Some c \<Rightarrow> s\<lparr>cdrv := d', made := c # made s\<rparr> | None \<Rightarrow> s\<lparr>cdrv := d', failed := Suc (failed s)\<rparr>)"
| c_made: "c \<in> set (made s) \<Longrightarrow> acquire_created now (Some c) (pool_of (csys s)) = (Got c, p') \<Longrightarrow>
    conn_step L cfg s (s\<lparr>csys := (csys s)\<lparr>pool_of := p', making := making (csys s) - 1, held := c # held (csys s)\<rparr>,
      made := remove1 c (made s)\<rparr>)"
| c_unmade: "failed s = Suc k \<Longrightarrow> acquire_created now None (pool_of (csys s)) = (Retry, p') \<Longrightarrow>
    conn_step L cfg s (s\<lparr>csys := (csys s)\<lparr>pool_of := p', making := making (csys s) - 1\<rparr>, failed := k\<rparr>)"
| c_update: "pconn x \<in> set (held (csys s)) \<Longrightarrow> pooled_update L file x sql (cdrv s) = Some (ok, d') \<Longrightarrow>
    conn_step L cfg s (s\<lparr>cdrv := d'\<rparr>)"
| c_query: "pconn x \<in> set (held (csys s)) \<Longrightarrow> pooled_query L x sql (cdrv s) = (rows, d') \<Longrightarrow>
    conn_step L cfg s (s\<lparr>cdrv := d'\<rparr>)"
| c_return: "c \<in> set (held (csys s)) \<Longrightarrow> return_conn L now c (pool_of (csys s)) (cdrv s) = (p', d') \<Longrightarrow>
    conn_step L cfg s (s\<lparr>csys := (csys s)\<lparr>pool_of := p', held := remove1 c (held (csys s))\<rparr>, cdrv := d'\<rparr>)"
| c_shutdown: "shutdown_conns L (pool_of (csys s)) (cdrv s) = (p', d') \<Longrightarrow>
    conn_step L cfg s (s\<lparr>csys := (csys s)\<lparr>pool_of := p'\<rparr>, cdrv := d'\<rparr>)"

inductive conn_steps :: "'d mysql_lib \<Rightarrow> db_config \<Rightarrow> 'd conn_sys \<Rightarrow> 'd conn_sys \<Rightarrow> bool" for L cfg where
  csteps_refl: "conn_steps L cfg s s"
| csteps_step: "conn_steps L cfg s t \<Longrightarrow> conn_step L cfg t u \<Longrightarrow> conn_steps L cfg s u"

end
