(* ===== verification/ConnectionProps.thy ===== *)
theory ConnectionProps
  imports Connections
begin

section \<open>The handles of the driver are owned\<close>

text \<open>
  From the library's promises: every handle it has open is idle in the pool, held by a wrapper
  or in the hands of a thread that is connecting, through failures, replacements and the
  shutdown; and what the threads do with the driver in place is what \<open>pool_step\<close> allows.
\<close>

subsection \<open>The library's promises\<close>

locale client_lib =
  fixes L :: "'d mysql_lib" and opened :: "'d \<Rightarrow> handle set"
  assumes init_some: "lib_init L d = (Some h, d') \<Longrightarrow> h \<notin> opened d \<and> opened d' = insert h (opened d)"
    and init_none: "lib_init L d = (None, d') \<Longrightarrow> opened d' = opened d"
    and close: "opened (lib_close L h d) = opened d - {h}"
    and connect: "lib_real_connect L h srv usr pwd db port d = (ok, d') \<Longrightarrow> opened d' = opened d"
    and query: "lib_query L h sql d = (ok, d') \<Longrightarrow> opened d' = opened d"
    and ping: "lib_ping L h d = (ok, d') \<Longrightarrow> opened d' = opened d"
    and store: "lib_store_result L h d = (rows, d') \<Longrightarrow> opened d' = opened d"
begin

lemma lib_say [simp]: "lib (say lvl msg s) = lib s"
  by (simp add: say_def)

lemma delete_opened [simp]:
  "opened (lib (mysql_delete L conn s)) = opened (lib s) - set_option conn"
  by (simp add: mysql_delete_def close split: option.split)

lemma connect_opened:
  assumes "connect_to L conn srv usr pwd db s = Some (ok, s')"
  shows "opened (lib s') = opened (lib s)"
  using assms
  by (auto simp: connect_to_def lib_call_def Let_def connect query split: option.splits prod.splits bool.splits)

lemma update_opened:
  assumes "pooled_update L file x sql s = Some (ok, s')"
  shows "opened (lib s') = opened (lib s)"
  using assms
  by (auto simp: pooled_update_def mysql_update_obj_def lib_call_def Let_def query split: prod.splits bool.splits)

lemma query_opened:
  assumes "pooled_query L x sql s = (rows, s')"
  shows "opened (lib s') = opened (lib s)"
  using assms
  by (auto simp: pooled_query_def lib_call_def Let_def query store split: prod.splits bool.splits)

text \<open>An attempt either leaves one more handle open, a new one, or none.\<close>

lemma create_opened:
  assumes "createConnection L cfg s = Some (r, s')"
  shows "case r of Some c \<Rightarrow> c \<notin> opened (lib s) \<and> opened (lib s') = insert c (opened (lib s))
    | None \<Rightarrow> opened (lib s') = opened (lib s)"
proof -
  obtain conn s1 ok s2 where n: "mysql_new L s = (conn, s1)"
    and c: "connect_to L conn (db_server cfg) (db_user cfg) (db_password cfg) (db_name cfg) s1 = Some (ok, s2)"
    and r: "(r, s') = (if ok then (conn, s2) else (None, mysql_delete L conn (say ERROR
      (sprintf ''createConnection failed, host=%s db=%s'' [CStr (c_str (db_server cfg)), CStr (c_str (db_name cfg))]) s2)))"
    using assms by (auto simp: createConnection_def bind_eq_Some_conv split: prod.splits)
  from c obtain h where h: "conn = Some h" by (auto simp: connect_to_def split: option.splits)
  with n have "lib_init L (lib s) = (Some h, lib s1)"
    by (auto simp: mysql_new_def lib_call_def split: prod.splits)
  note i = init_some [OF this]
  from r i connect_opened [OF c] h show ?thesis by (cases ok) auto
qed

lemma make_opened:
  "make_connections L cfg n i k s = Some (conns, s') \<Longrightarrow>
    distinct (somes conns) \<and> set (somes conns) \<inter> opened (lib s) = {} \<and> opened (lib s') = opened (lib s) \<union> set (somes conns) \<and>
    length conns = k"
proof (induction k arbitrary: i s conns s')
  case (Suc k)
  then obtain r s1 cs s2 where c: "createConnection L cfg s = Some (r, s1)" and cs: "conns = r # cs"
    and m: "make_connections L cfg n (Suc i) k s2 = Some (cs, s')" and l: "lib s2 = lib s1"
    by (auto simp: bind_eq_Some_conv Let_def split: if_splits)
  from Suc.IH [OF m] create_opened [OF c] show ?case
    by (cases r) (auto simp: cs l)
qed simp

subsection \<open>Regions of \<open>acquire\<close>\<close>

lemma region_opened:
  assumes "acquire_region L cfg now p s = Some (it, p', s')"
  shows "\<exists>ping cr. acquire_iter now ping cr p = (it, p') \<and> (\<forall>c. cr = Some c \<longrightarrow> c \<notin> opened (lib s)) \<and>
    (case it of
       Got c \<Rightarrow> (\<exists>d lu rest. idleConns p = (d, lu) # rest \<and> idleConns p' = rest \<and>
         (c = d \<and> opened (lib s') = opened (lib s) \<or>
          c \<notin> opened (lib s) \<and> opened (lib s') = insert c (opened (lib s)) - {d}))
     | Retry \<Rightarrow> (\<exists>d lu. idleConns p = (d, lu) # idleConns p' \<and> opened (lib s') = opened (lib s) - {d})
     | _ \<Rightarrow> idleConns p' = idleConns p \<and> opened (lib s') = opened (lib s))"
proof (cases "idleConns p")
  case Nil
  with assms show ?thesis
    by (auto simp: acquire_region_def acquire_iter_def split: if_splits)
next
  case (Cons e rest)
  obtain d lu where e: "e = (d, lu)" by force
  show ?thesis
  proof (cases "now - lu > IDLE_PING_THRESHOLD")
    case False
    with assms Cons e show ?thesis
      by (auto simp: acquire_region_def acquire_iter_def borrow_def Let_def intro!: exI [of _ None])
  next
    case True
    obtain alive s1 where pg: "lib_call (lib_ping L d) s = (alive, s1)" by force
    then have o1: "opened (lib s1) = opened (lib s)"
      by (auto simp: lib_call_def dest: ping split: prod.splits)
    show ?thesis
    proof (cases alive)
      case True
      with assms Cons e pg o1 \<open>now - lu > _\<close> show ?thesis
        by (auto simp: acquire_region_def acquire_iter_def borrow_def Let_def intro!: exI [of _ "\<lambda>_. True"] exI [of _ None])
    next
      case False
      with assms Cons e pg \<open>now - lu > _\<close> obtain r s2
        where c: "createConnection L cfg (say ERROR ''ping failed, recreating connection'' s1) = Some (r, s2)"
          and s': "s' = mysql_delete L (Some d) s2"
          and it: "acquire_iter now (\<lambda>_. False) r p = (it, p')"
        by (auto simp: acquire_region_def acquire_iter_def Let_def bind_eq_Some_conv split: option.splits)
      from create_opened [OF c] o1 it s' Cons e \<open>now - lu > _\<close> show ?thesis
        by (intro exI [of _ "\<lambda>_. False"] exI [of _ r])
          (auto simp: acquire_iter_def borrow_def Let_def split: option.splits)
    qed
  qed
qed

lemma region_stopped:
  assumes "acquire_region L cfg now p s = Some (it, p', s')"
  shows "stopped p' = stopped p"
proof -
  from region_opened [OF assms] obtain ping cr where "acquire_iter now ping cr p = (it, p')" by blast
  then show ?thesis
    by (auto simp: acquire_iter_def borrow_def Let_def split: list.splits if_splits option.splits)
qed

subsection \<open>Every open handle has an owner\<close>

definition owned :: "'d conn_sys \<Rightarrow> handle set" where
  "owned s = in_use (csys s) \<union> set (made s)"

definition conn_inv :: "'d conn_sys \<Rightarrow> bool" where
  "conn_inv s \<longleftrightarrow> pool_inv (csys s) \<and> opened (lib (cdrv s)) = owned s \<and>
     distinct (made s) \<and> in_use (csys s) \<inter> set (made s) = {} \<and>
     length (made s) + failed s \<le> making (csys s) \<and>
     (stopped (pool_of (csys s)) \<longrightarrow> idleConns (pool_of (csys s)) = [])"

text \<open>With the driver in place the pool does what \<open>pool_step\<close> allows, or nothing.\<close>

lemma conn_step_pool:
  assumes "conn_step L cfg s t" and "conn_inv s"
  shows "csys t = csys s \<or> pool_step (csys s) (csys t)"
  using assms
proof (induction rule: conn_step.induct)
  case (c_got now s c p' d')
  from region_opened [OF c_got(1)] obtain ping cr where
    "acquire_iter now ping cr (pool_of (csys s)) = (Got c, p')" "\<forall>c. cr = Some c \<longrightarrow> c \<notin> opened (lib (cdrv s))"
    by blast
  with c_got(2) have "pool_step (csys s) ((csys s)\<lparr>pool_of := p', held := c # held (csys s)\<rparr>)"
    by (intro pool_step.step_got) (auto simp: conn_inv_def owned_def)
  then show ?case by simp
next
  case (c_retry now s p' d')
  from region_opened [OF c_retry(1)] show ?case by (auto intro: pool_step.step_retry)
next
  case (c_unlock now s p' d')
  from region_opened [OF c_unlock(1)] show ?case by (auto intro: pool_step.step_unlock)
next
  case (c_made c s now p')
  then have "0 < length (made s)" by (cases "made s") auto
  moreover from c_made(3) have "length (made s) + failed s \<le> making (csys s)" by (simp add: conn_inv_def)
  ultimately have "making (csys s) = Suc (making (csys s) - 1)" by linarith
  with c_made have "pool_step (csys s) ((csys s)\<lparr>pool_of := p', making := making (csys s) - 1, held := c # held (csys s)\<rparr>)"
    by (intro pool_step.step_made) (auto simp: conn_inv_def)
  then show ?case by simp
next
  case (c_unmade s k now p')
  then have "making (csys s) = Suc (making (csys s) - 1)" by (auto simp: conn_inv_def)
  with c_unmade have "pool_step (csys s) ((csys s)\<lparr>pool_of := p', making := making (csys s) - 1\<rparr>)"
    by (intro pool_step.step_unmade) auto
  then show ?case by simp
next
  case (c_return c s now p' d')
  then show ?case by (auto simp: return_conn_def intro: pool_step.step_return)
next
  case (c_shutdown s p' d')
  then show ?case by (auto simp: shutdown_conns_def intro: pool_step.step_shutdown)
qed (auto split: option.split)

lemma close_all_opened:
  "opened (lib (foldl (\<lambda>s e. mysql_delete L (Some (fst e)) s) s es)) = opened (lib s) - keys es"
  by (induction es arbitrary: s) (auto simp: keys_fold)

lemma conn_inv_alt:
  "conn_inv s \<longleftrightarrow> pool_inv (csys s) \<and>
     opened (lib (cdrv s)) = set (held (csys s)) \<union> keys (idleConns (pool_of (csys s))) \<union> set (made s) \<and>
     distinct (made s) \<and> (set (held (csys s)) \<union> keys (idleConns (pool_of (csys s)))) \<inter> set (made s) = {} \<and>
     length (made s) + failed s \<le> making (csys s) \<and>
     (stopped (pool_of (csys s)) \<longrightarrow> idleConns (pool_of (csys s)) = [])"
  by (simp add: conn_inv_def owned_def in_use_def)

lemma conn_inv_facts:
  assumes "conn_inv s"
  shows "opened (lib (cdrv s)) = set (held (csys s)) \<union> keys (idleConns (pool_of (csys s))) \<union> set (made s)"
    "(set (held (csys s)) \<union> keys (idleConns (pool_of (csys s)))) \<inter> set (made s) = {}"
    "distinct (made s)" "length (made s) + failed s \<le> making (csys s)"
    "stopped (pool_of (csys s)) \<longrightarrow> idleConns (pool_of (csys s)) = []"
  using assms unfolding conn_inv_alt by blast+

text \<open>An idle handle is idle once and nowhere else.\<close>

lemma idle_alone:
  assumes "conn_inv s"
  shows "distinct (map fst (idleConns (pool_of (csys s))))" "distinct (held (csys s))"
    "set (held (csys s)) \<inter> keys (idleConns (pool_of (csys s))) = {}"
  using assms by (simp_all add: conn_inv_def pool_inv_def keys_def)

lemma inv_got:
  assumes "conn_inv s" and "acquire_region L cfg now (pool_of (csys s)) (cdrv s) = Some (Got c, p', d')"
    and "pool_inv (csys t)" and t: "t = s\<lparr>csys := (csys s)\<lparr>pool_of := p', held := c # held (csys s)\<rparr>, cdrv := d'\<rparr>"
  shows "conn_inv t"
proof -
  from region_opened [OF assms(2)] obtain d lu rest where i: "idleConns (pool_of (csys s)) = (d, lu) # rest" "idleConns p' = rest"
    and o: "c = d \<and> opened (lib d') = opened (lib (cdrv s)) \<or>
      c \<notin> opened (lib (cdrv s)) \<and> opened (lib d') = insert c (opened (lib (cdrv s))) - {d}" by auto
  have d: "d \<notin> set (held (csys s)) \<union> keys rest" "d \<notin> set (made s)" and s: "\<not> stopped p'"
    using idle_alone [OF assms(1)] assms(1) i region_stopped [OF assms(2)] by (auto simp: conn_inv_alt keys_def)
  from assms(1) have "opened (lib (cdrv s)) = insert d (set (held (csys s)) \<union> keys rest \<union> set (made s))"
    by (simp add: conn_inv_alt i)
  with o d have "opened (lib d') = insert c (set (held (csys s)) \<union> keys rest \<union> set (made s))" "c \<notin> set (made s)"
    by auto
  with assms(1,3) s i show ?thesis
    unfolding t by (simp add: conn_inv_alt)
qed

lemma inv_retry:
  assumes "conn_inv s" and "acquire_region L cfg now (pool_of (csys s)) (cdrv s) = Some (Retry, p', d')"
    and "pool_inv (csys t)" and t: "t = s\<lparr>csys := (csys s)\<lparr>pool_of := p'\<rparr>, cdrv := d'\<rparr>"
  shows "conn_inv t"
proof -
  from region_opened [OF assms(2)] obtain d lu where i: "idleConns (pool_of (csys s)) = (d, lu) # idleConns p'"
    and o: "opened (lib d') = opened (lib (cdrv s)) - {d}" by auto
  have "d \<notin> set (held (csys s)) \<union> keys (idleConns p')" "d \<notin> set (made s)" "\<not> stopped p'"
    using idle_alone [OF assms(1)] assms(1) i region_stopped [OF assms(2)] by (auto simp: conn_inv_alt keys_def)
  with assms(1,3) i o show ?thesis
    unfolding t by (simp add: conn_inv_alt)
qed

lemma inv_made:
  assumes "conn_inv s" and "c \<in> set (made s)" and "acquire_created now (Some c) (pool_of (csys s)) = (Got c, p')"
    and "pool_inv (csys t)"
    and t: "t = s\<lparr>csys := (csys s)\<lparr>pool_of := p', making := making (csys s) - 1, held := c # held (csys s)\<rparr>, made := remove1 c (made s)\<rparr>"
  shows "conn_inv t"
proof -
  from assms(3) have p': "idleConns p' = idleConns (pool_of (csys s))" "stopped p' = stopped (pool_of (csys s))"
    by (auto simp: acquire_created_def borrow_def)
  from assms(2) have "0 < length (made s)" by (cases "made s") auto
  moreover note inv = conn_inv_facts [OF assms(1)]
  ultimately have len: "length (made s) - 1 + failed s \<le> making (csys s) - 1" by linarith
  have "opened (lib (cdrv s)) = insert c (set (held (csys s))) \<union> keys (idleConns p') \<union> (set (made s) - {c})"
    and "(insert c (set (held (csys s))) \<union> keys (idleConns p')) \<inter> (set (made s) - {c}) = {}"
    using inv(1,2) assms(2) p'(1) by auto
  with assms(2,4) len inv(3,5) p' show ?thesis
    unfolding t by (simp add: conn_inv_alt length_remove1)
qed

lemma inv_return:
  assumes "conn_inv s" and "c \<in> set (held (csys s))" and "return_conn L now c (pool_of (csys s)) (cdrv s) = (p', d')"
    and "pool_inv (csys t)" and t: "t = s\<lparr>csys := (csys s)\<lparr>pool_of := p', held := remove1 c (held (csys s))\<rparr>, cdrv := d'\<rparr>"
  shows "conn_inv t"
proof -
  let ?i = "keys (idleConns (pool_of (csys s)))"
  note inv = conn_inv_facts [OF assms(1)]
  have h: "set (remove1 c (held (csys s))) = set (held (csys s)) - {c}"
    using idle_alone(2) [OF assms(1)] by simp
  have "opened (lib d') = (set (held (csys s)) - {c}) \<union> keys (idleConns p') \<union> set (made s)"
    and "((set (held (csys s)) - {c}) \<union> keys (idleConns p')) \<inter> set (made s) = {}"
    using assms(2,3) inv idle_alone(3) [OF assms(1)]
    by (auto simp: return_conn_def returnConnection_def Let_def split: if_splits)
  moreover have "stopped p' \<longrightarrow> idleConns p' = []"
    using assms(3) inv(5) by (auto simp: return_conn_def returnConnection_def Let_def split: if_splits)
  ultimately show ?thesis
    using assms(4) inv(3,4) h unfolding t by (simp add: conn_inv_alt)
qed

lemma inv_shutdown:
  assumes "conn_inv s" and "shutdown_conns L (pool_of (csys s)) (cdrv s) = (p', d')"
    and "pool_inv (csys t)" and t: "t = s\<lparr>csys := (csys s)\<lparr>pool_of := p'\<rparr>, cdrv := d'\<rparr>"
  shows "conn_inv t"
proof -
  let ?i = "keys (idleConns (pool_of (csys s)))"
  note inv = conn_inv_facts [OF assms(1)]
  from assms(2) inv(5) have p': "idleConns p' = []"
    by (auto simp: shutdown_conns_def pool_shutdown_def)
  have "opened (lib d') = opened (lib (cdrv s)) - ?i"
    using assms(2) inv(5) by (cases "stopped (pool_of (csys s))") (auto simp: shutdown_conns_def close_all_opened)
  then have "opened (lib d') = set (held (csys s)) \<union> set (made s)" "set (held (csys s)) \<inter> set (made s) = {}"
    using inv(1,2) idle_alone(3) [OF assms(1)] by auto
  with assms(3) inv(3,4) p' show ?thesis
    unfolding t by (simp add: conn_inv_alt)
qed

lemma conn_inv_step:
  assumes "conn_step L cfg s t" and "conn_inv s"
  shows "conn_inv t"
proof -
  have "pool_inv (csys t)"
    using conn_step_pool [OF assms] assms(2) by (auto simp: conn_inv_def intro: pool_inv_step)
  with assms show ?thesis
  proof (induction rule: conn_step.induct)
    case (c_got now s c p' d')
    show ?case by (rule inv_got [OF c_got(2,1,3) refl])
  next
    case (c_retry now s p' d')
    show ?case by (rule inv_retry [OF c_retry(2,1,3) refl])
  next
    case (c_unlock now s p' d')
    from region_opened [OF c_unlock(1)] region_stopped [OF c_unlock(1)] c_unlock(2,3) show ?case
      by (auto simp: conn_inv_def owned_def in_use_def)
  next
    case (c_connect s r d')
    from create_opened [OF c_connect(2)] c_connect(1,3,4) show ?case
      by (auto simp: conn_inv_def owned_def in_use_def split: option.splits)
  next
    case (c_made c s now p')
    show ?case by (rule inv_made [OF c_made(3,1,2,4) refl])
  next
    case (c_unmade s k now p')
    then show ?case
      by (auto simp: conn_inv_def owned_def in_use_def acquire_created_def)
  next
    case (c_update x s src sql ok d')
    then show ?case by (simp add: conn_inv_def owned_def update_opened [OF c_update(2)])
  next
    case (c_query x s sql rows d')
    then show ?case by (simp add: conn_inv_def owned_def query_opened [OF c_query(2)])
  next
    case (c_return c s now p' d')
    show ?case by (rule inv_return [OF c_return(3,1,2,4) refl])
  next
    case (c_shutdown s p' d')
    show ?case by (rule inv_shutdown [OF c_shutdown(2,1,3) refl])
  qed
qed

lemma conn_steps_inv:
  assumes "conn_steps L cfg s t" and "conn_inv s"
  shows "conn_inv t \<and> pool_steps (csys s) (csys t)"
  using assms
proof (induction rule: conn_steps.induct)
  case (csteps_step s t u)
  then have t: "conn_inv t" "pool_steps (csys s) (csys t)" by auto
  from conn_step_pool [OF csteps_step(2) t(1)] conn_inv_step [OF csteps_step(2) t(1)] t(2) show ?case
    by (auto intro: pool_steps.steps_step)
qed (simp add: pool_steps.steps_refl)

text \<open>A fresh pool owns what its attempts opened.\<close>

lemma pool_open_inv:
  assumes "pool_open L cfg now n m new_pool d0 = Some (True, p, d1)" and "opened (lib d0) = {}"
  shows "conn_inv \<lparr>csys = \<lparr>pool_of = p, held = [], making = 0\<rparr>, cdrv = d1, made = [], failed = 0\<rparr>"
    and "maxPoolSize p = m"
proof -
  obtain conns s1 where mk: "make_connections L cfg n 0 (nat n) d0 = Some (conns, s1)"
    using assms(1) by (auto simp: pool_open_def bind_eq_Some_conv split: if_splits)
  with assms(1) have i: "pool_init now n m conns new_pool = (True, p)" and l: "lib d1 = lib s1"
    by (auto simp: pool_open_def Let_def split: if_splits prod.splits)
  note o = make_opened [OF mk]
  from i o have "keys (idleConns p) = set (somes conns)" "\<not> stopped p"
    by (auto simp: pool_init_eq new_pool_def Let_def keys_def image_image split: if_splits)
  with pool_init_inv [OF i] o l assms(2)
  show "conn_inv \<lparr>csys = \<lparr>pool_of = p, held = [], making = 0\<rparr>, cdrv = d1, made = [], failed = 0\<rparr>"
    and "maxPoolSize p = m"
    by (auto simp: conn_inv_def owned_def in_use_def)
qed

end

subsection \<open>A library that keeps its promises\<close>

text \<open>
  Handles are numbered; a connection is refused unless the password is right, and a handle in
  \<open>gone\<close> no longer answers a ping.
\<close>

record ref_client =
  next_handle :: handle
  open_handles :: "handle list"
  gone :: "handle list"

definition ref_lib :: "ref_client mysql_lib" where
  "ref_lib = \<lparr>
     lib_init = \<lambda>d. (Some (next_handle d), d\<lparr>next_handle := Suc (next_handle d), open_handles := next_handle d # open_handles d\<rparr>),
     lib_close = \<lambda>h d. d\<lparr>open_handles := removeAll h (open_handles d)\<rparr>,
     lib_real_connect = \<lambda>h srv usr pwd db port d. (pwd = ''secret'', d),
     lib_query = \<lambda>h sql d. (sql \<noteq> [], d),
     lib_ping = \<lambda>h d. (h \<notin> set (gone d), d),
     lib_store_result = \<lambda>h d. (Some [], d),
     lib_escape = \<lambda>h s d. s,
     lib_error = \<lambda>h d. ''error''\<rparr>"

definition ref_opened :: "ref_client \<Rightarrow> handle set" where
  "ref_opened d = set (open_handles d) \<inter> {..<next_handle d}"

interpretation ref_client: client_lib ref_lib ref_opened
  by unfold_locales (auto simp: ref_lib_def ref_opened_def)

subsection \<open>Properties\<close>

text \<open>
  (C5) No MySQL connection leaks. Whatever the threads do from \<open>DbPool::init\<close> on, with failing
  connects, pings that find a dead connection, updates, queries, returns and the shutdown in any
  order, between their locked regions the handles the library has open are exactly those that are
  idle in the pool, held by a wrapper or just made by a thread in \<open>acquire\<close>; they are never more
  than the configured maximum, and all are closed once the pool is stopped and nobody holds or makes
  one. The runs are runs of the pool without the driver, so its bounds apply to them.
\<close>
theorem no_connection_leak:
  assumes "client_lib L opened" and "opened (lib d0) = {}"
    and "pool_open L cfg now n m new_pool d0 = Some (True, p, d1)"
    and "conn_steps L cfg \<lparr>csys = \<lparr>pool_of = p, held = [], making = 0\<rparr>, cdrv = d1, made = [], failed = 0\<rparr> s"
  shows "opened (lib (cdrv s)) = set (held (csys s)) \<union> keys (idleConns (pool_of (csys s))) \<union> set (made s) \<and>
    int (card (opened (lib (cdrv s)))) \<le> m \<and>
    (stopped (pool_of (csys s)) \<and> held (csys s) = [] \<and> making (csys s) = 0 \<longrightarrow> opened (lib (cdrv s)) = {}) \<and>
    pool_steps \<lparr>pool_of = p, held = [], making = 0\<rparr> (csys s)"
proof -
  note facts = client_lib.conn_steps_inv [OF assms(1,4) client_lib.pool_open_inv(1) [OF assms(1,3,2)]]
  then have inv: "client_lib.conn_inv opened s" and steps: "pool_steps \<lparr>pool_of = p, held = [], making = 0\<rparr> (csys s)"
    by auto
  note k = client_lib.conn_inv_facts [OF assms(1) inv]
  have "maxPoolSize (pool_of (csys s)) = m"
    using pool_steps_max [OF steps] client_lib.pool_open_inv(2) [OF assms(1,3,2)] by simp
  moreover have "pool_inv (csys s)"
    using inv client_lib.conn_inv_def [OF assms(1)] by blast
  moreover have "card (opened (lib (cdrv s))) \<le>
      length (held (csys s)) + length (idleConns (pool_of (csys s))) + length (made s)"
    using card_length [of "held (csys s) @ map fst (idleConns (pool_of (csys s))) @ made s"]
    unfolding k(1) by (simp add: keys_def Un_assoc)
  ultimately have "int (card (opened (lib (cdrv s)))) \<le> m"
    using k(4) by (simp add: pool_inv_def)
  with k steps show ?thesis by auto
qed

text \<open>A dead connection is replaced at its second use: the first handle is closed, the new one is held.\<close>

definition ref_cfg :: db_config where
  "ref_cfg = \<lparr>db_server = ''127.0.0.1'', db_user = ''root'', db_password = ''secret'', db_name = ''chat''\<rparr>"

theorem no_connection_leak_witness:
  "\<exists>s :: ref_client conn_sys. held (csys s) = [1] \<and> ref_opened (lib (cdrv s)) = {1} \<and> int (card (ref_opened (lib (cdrv s)))) \<le> 2"
proof -
  let ?d0 = "\<lparr>lib = \<lparr>next_handle = 0, open_handles = [], gone = [0]\<rparr>, logged = []\<rparr>"
  let ?r = "the (pool_open ref_lib ref_cfg 0 1 2 new_pool ?d0)"
  let ?p = "fst (snd ?r)"
  let ?d1 = "snd (snd ?r)"
  let ?s = "\<lparr>csys = \<lparr>pool_of = ?p, held = [], making = 0\<rparr>, cdrv = ?d1, made = [], failed = 0\<rparr>"
  let ?q = "the (acquire_region ref_lib ref_cfg 100 ?p ?d1)"
  let ?t = "?s\<lparr>csys := (csys ?s)\<lparr>pool_of := fst (snd ?q), held := 1 # held (csys ?s)\<rparr>, cdrv := snd (snd ?q)\<rparr>"
  have o: "pool_open ref_lib ref_cfg 0 1 2 new_pool ?d0 = Some (True, ?p, ?d1)"
    by code_simp
  have q: "acquire_region ref_lib ref_cfg 100 ?p ?d1 = Some (Got 1, fst (snd ?q), snd (snd ?q))"
    by code_simp
  have "conn_step ref_lib ref_cfg ?s ?t"
    using q by (intro conn_step.c_got) simp
  then have "conn_steps ref_lib ref_cfg ?s ?t"
    by (blast intro: conn_steps.intros)
  note l = no_connection_leak [OF ref_client.client_lib_axioms _ o this]
  have "idleConns (fst (snd ?q)) = []" by code_simp
  with l show ?thesis
    by (intro exI [of _ ?t]) (simp add: ref_opened_def)
qed

end
