(* ===== verification/Resume.thy ===== *)
theory Resume
  imports Prelude
begin

section \<open>Programs in atomic steps\<close>

text \<open>
  A handler cut at the points where other threads may run: a program is finished or has a step
  on the shared state that yields the rest of the program. A step without a result is one that
  has no defined outcome or ends the process. Programs are a datatype, so each of them finishes
  after finitely many steps, whatever the other threads do in between. The last part is the
  rely-guarantee argument the properties use.
\<close>

datatype 's prog = Done | Act "'s \<Rightarrow> ('s prog \<times> 's) option"

text \<open>The whole program without interruption.\<close>

primrec run_prog :: "'s prog \<Rightarrow> 's \<Rightarrow> 's option" where
  "run_prog Done = Some"
| "run_prog (Act f) = (\<lambda>s. case map_option (map_prod run_prog id) (f s) of None \<Rightarrow> None | Some (r, s') \<Rightarrow> r s')"

definition act :: "('s \<Rightarrow> ('a \<times> 's) option) \<Rightarrow> ('a \<Rightarrow> 's prog) \<Rightarrow> 's prog" where
  "act f k = Act (\<lambda>s. map_option (map_prod k id) (f s))"

text \<open>A step that only changes the state, one that only reads it, and a list of changes, each a step.\<close>

definition upd :: "('s \<Rightarrow> 's) \<Rightarrow> 's prog \<Rightarrow> 's prog" where
  "upd g p = act (\<lambda>s. Some ((), g s)) (\<lambda>_. p)"

definition look :: "('s \<Rightarrow> 'a) \<Rightarrow> ('a \<Rightarrow> 's prog) \<Rightarrow> 's prog" where
  "look g k = act (\<lambda>s. Some (g s, s)) k"

definition upds :: "('a \<Rightarrow> 's \<Rightarrow> 's) \<Rightarrow> 'a list \<Rightarrow> 's prog \<Rightarrow> 's prog" where
  "upds g xs p = foldr (\<lambda>x. upd (g x)) xs p"

definition halt :: "'s prog" where
  "halt = Act (\<lambda>s. None)"

text \<open>One program after the other.\<close>

primrec andthen :: "'s prog \<Rightarrow> 's prog \<Rightarrow> 's prog" where
  "andthen Done = (\<lambda>q. q)"
| "andthen (Act f) = (\<lambda>q. Act (\<lambda>s. map_option (map_prod (\<lambda>r. r q) id) (map_option (map_prod andthen id) (f s))))"

lemma run_act: "run_prog (act f k) s = Option.bind (f s) (\<lambda>(x, s'). run_prog (k x) s')"
  by (cases "f s") (auto simp: act_def)

lemma run_simps [simp]:
  "run_prog Done s = Some s" "run_prog (upd g p) s = run_prog p (g s)" "run_prog (look h k) s = run_prog (k (h s)) s"
  "run_prog halt s = None"
  by (simp_all add: upd_def look_def run_act halt_def)

lemma run_upds [simp]: "run_prog (upds g xs p) s = run_prog p (foldl (\<lambda>s x. g x s) s xs)"
  by (induction xs arbitrary: s) (simp_all add: upds_def)

lemma run_andthen: "run_prog (andthen p q) s = Option.bind (run_prog p s) (run_prog q)"
proof (induction p arbitrary: s)
  case (Act f)
  show ?case
  proof (cases "f s")
    case (Some x)
    then obtain p s' where "f s = Some (p, s')" by (cases x) auto
    moreover from this have "run_prog (andthen p q) s' = Option.bind (run_prog p s') (run_prog q)"
      by (intro Act.IH [of "f s" "(p, s')"]) (auto intro: range_eqI [OF sym])
    ultimately show ?thesis by simp
  qed simp
qed simp

subsection \<open>Threads\<close>

text \<open>What the threads still have to do; \<open>Done\<close> is an idle thread.\<close>

record 's threads =
  shared :: 's
  todo :: "nat \<Rightarrow> 's prog"

definition thread_step :: "nat \<Rightarrow> 's threads \<Rightarrow> 's threads option" where
  "thread_step t S = (case todo S t of
      Done \<Rightarrow> None
    | Act f \<Rightarrow> map_option (\<lambda>(p, s). \<lparr>shared = s, todo = (todo S)(t := p)\<rparr>) (f (shared S)))"

text \<open>A list of turns; without a result when one of the threads has none.\<close>

fun turns :: "nat list \<Rightarrow> 's threads \<Rightarrow> 's threads option" where
  "turns [] S = Some S"
| "turns (t # ts) S = do { S' \<leftarrow> thread_step t S; turns ts S' }"

lemma turns_append: "turns (ts @ us) S = do { S' \<leftarrow> turns ts S; turns us S' }"
  by (induction ts arbitrary: S) (simp_all split: Option.bind_split)

lemma turn_act:
  assumes "todo S t = act f k" and "f (shared S) = Some (x, s)"
  shows "turns [t] S = Some \<lparr>shared = s, todo = (todo S)(t := k x)\<rparr>"
  using assms by (simp add: thread_step_def act_def)

text \<open>A thread that is left alone does what its program does without interruption.\<close>

lemma run_alone:
  "todo S t = q \<Longrightarrow> run_prog q (shared S) = Some s \<Longrightarrow>
    \<exists>n. turns (replicate n t) S = Some \<lparr>shared = s, todo = (todo S)(t := Done)\<rparr>"
proof (induction q arbitrary: S)
  case Done
  then have "(todo S)(t := Done) = todo S" by auto
  with Done have "turns (replicate 0 t) S = Some \<lparr>shared = s, todo = (todo S)(t := Done)\<rparr>"
    by (cases S) simp
  then show ?case by blast
next
  case (Act f)
  from Act.prems(2) obtain p s1 where f: "f (shared S) = Some (p, s1)" and r: "run_prog p s1 = Some s"
    by (auto split: option.splits)
  let ?S = "\<lparr>shared = s1, todo = (todo S)(t := p)\<rparr>"
  have "\<exists>n. turns (replicate n t) ?S = Some \<lparr>shared = s, todo = (todo ?S)(t := Done)\<rparr>"
    by (rule Act.IH [of "f (shared S)" "(p, s1)" p]) (use f r in \<open>auto intro: range_eqI [OF sym]\<close>)
  then obtain n where n: "turns (replicate n t) ?S = Some \<lparr>shared = s, todo = (todo S)(t := Done)\<rparr>" by auto
  have "thread_step t S = Some ?S"
    using Act.prems(1) f by (simp add: thread_step_def)
  with n have "turns (replicate (Suc n) t) S = Some \<lparr>shared = s, todo = (todo S)(t := Done)\<rparr>" by simp
  then show ?case by blast
qed

subsection \<open>Rely and guarantee\<close>

text \<open>
  \<open>G\<close> is what every step of every thread may do to the state. A condition that \<open>G\<close> keeps can
  stand between two steps of a program; \<open>conforms\<close> says that with such conditions every step is
  a \<open>G\<close> step.
\<close>

definition stable :: "('s \<Rightarrow> 's \<Rightarrow> bool) \<Rightarrow> ('s \<Rightarrow> bool) \<Rightarrow> bool" where
  "stable G P \<longleftrightarrow> (\<forall>s s'. P s \<longrightarrow> G s s' \<longrightarrow> P s')"

inductive conforms :: "('s \<Rightarrow> 's \<Rightarrow> bool) \<Rightarrow> ('s \<Rightarrow> bool) \<Rightarrow> 's prog \<Rightarrow> bool" for G where
  conforms_Done: "conforms G P Done"
| conforms_Act: "(\<And>s p s'. P s \<Longrightarrow> f s = Some (p, s') \<Longrightarrow> G s s' \<and> (\<exists>Q. stable G Q \<and> Q s' \<and> conforms G Q p)) \<Longrightarrow>
    conforms G P (Act f)"

inductive_cases conforms_ActE: "conforms G P (Act f)"

lemma conforms_act:
  assumes "\<And>s x s'. P s \<Longrightarrow> f s = Some (x, s') \<Longrightarrow> G s s' \<and> Q x s' \<and> stable G (Q x) \<and> conforms G (Q x) (k x)"
  shows "conforms G P (act f k)"
  unfolding act_def using assms by (intro conforms_Act) fastforce

lemma conforms_upd:
  assumes "\<And>s. P s \<Longrightarrow> G s (g s)" and "stable G P" and "conforms G P p"
  shows "conforms G P (upd g p)"
  unfolding upd_def
  by (rule conforms_act [where Q = "\<lambda>_. P"]) (use assms in \<open>auto simp: stable_def\<close>)

lemma conforms_upds:
  assumes "\<And>x s. P s \<Longrightarrow> G s (g x s)" and "stable G P" and "conforms G P p"
  shows "conforms G P (upds g xs p)"
  using assms by (induction xs) (auto simp: upds_def intro: conforms_upd)

lemma conforms_look:
  assumes "\<And>s. G s s" and "stable G P" and "\<And>x. conforms G P (k x)"
  shows "conforms G P (look g k)"
  unfolding look_def
  by (rule conforms_act [where Q = "\<lambda>_. P"]) (use assms in auto)

lemma conforms_halt: "conforms G P halt"
  unfolding halt_def by (rule conforms_Act) simp

lemma conforms_andthen:
  assumes "conforms G P p" and "\<And>P. conforms G P q"
  shows "conforms G P (andthen p q)"
  using assms(1)
proof (induction rule: conforms.induct)
  case (conforms_Act P f)
  show ?case
    by (simp, rule conforms.conforms_Act) (use conforms_Act in \<open>fastforce\<close>)
qed (simp add: assms(2))

text \<open>Every thread has a condition that holds now and under which what it has to do conforms.\<close>

definition guarded :: "('s \<Rightarrow> 's \<Rightarrow> bool) \<Rightarrow> 's threads \<Rightarrow> bool" where
  "guarded G S \<longleftrightarrow> (\<forall>t. \<exists>P. stable G P \<and> P (shared S) \<and> conforms G P (todo S t))"

lemma guarded_step:
  assumes "guarded G S" and "thread_step t S = Some S'"
  shows "G (shared S) (shared S') \<and> guarded G S'"
proof -
  from assms(2) obtain f p s where f: "todo S t = Act f" "f (shared S) = Some (p, s)"
    and S': "S' = \<lparr>shared = s, todo = (todo S)(t := p)\<rparr>"
    by (auto simp: thread_step_def split: prog.splits)
  from assms(1) f(1) obtain P where "P (shared S)" "conforms G P (Act f)"
    by (metis guarded_def)
  then have g: "G (shared S) s" and q: "\<exists>Q. stable G Q \<and> Q s \<and> conforms G Q p"
    using f(2) by (auto elim!: conforms_ActE)
  have "\<exists>P. stable G P \<and> P s \<and> conforms G P (((todo S)(t := p)) u)" for u
  proof (cases "u = t")
    case True
    with q show ?thesis by simp
  next
    case False
    from assms(1) obtain P where "stable G P" "P (shared S)" "conforms G P (todo S u)"
      unfolding guarded_def by blast
    with g False show ?thesis by (intro exI [of _ P]) (auto simp: stable_def)
  qed
  with g show ?thesis by (simp add: S' guarded_def)
qed

lemma guarded_start:
  assumes "guarded G S" and "stable G P" and "P (shared S)" and "conforms G P p"
  shows "guarded G (S\<lparr>todo := (todo S)(t := p)\<rparr>)"
  using assms by (auto simp: guarded_def)

end
