(* ===== verification/Threads.thy ===== *)
theory Threads
  imports Resume Server
begin

section \<open>The server's handlers in steps\<close>

text \<open>
  muduo runs the handlers of \<open>chatservice.cpp\<close> on four loops, the Redis callback on the observer's
  thread and the heartbeat check on the main loop. Here each handler is a program whose steps are
  what other threads see at once: one call of a model class, one Redis call, one region under
  \<open>_connMutex\<close>, one packet sent. \<open>ThreadProps\<close> shows that a handler that is not interrupted is the
  handler of \<open>ChatService\<close>.
\<close>

type_synonym ('db, 'h) sprog = "('db, 'h) svc prog"

subsection \<open>Steps\<close>

definition db_step :: "('db \<Rightarrow> ('a \<times> 'db) option) \<Rightarrow> ('a \<Rightarrow> ('db, 'h) sprog) \<Rightarrow> ('db, 'h) sprog" where
  "db_step f k = act (on_db f) k"

definition redis_step :: "('h redis \<Rightarrow> (bool \<times> 'h redis) option) \<Rightarrow> ('db, 'h) sprog \<Rightarrow> ('db, 'h) sprog" where
  "redis_step f p = act (\<lambda>w. map_option (Pair ()) (on_redis f w)) (\<lambda>_. p)"

definition reply :: "('db, 'h) env \<Rightarrow> conn \<Rightarrow> json \<Rightarrow> ('db, 'h) sprog \<Rightarrow> ('db, 'h) sprog" where
  "reply E c js p = upd (sendJson E c js) p"

subsection \<open>Notices, login and logout\<close>

definition notify_prog :: "('db, 'h) env \<Rightarrow> int \<Rightarrow> string \<Rightarrow> ('db, 'h) sprog" where
  "notify_prog E u st = db_step (FriendModel_query (sql E) u) (\<lambda>fs.
     look (\<lambda>w. (here w (map uid fs), elsewhere w (map uid fs))) (\<lambda>(onlineConns, crossIds).
       upds (\<lambda>c. sendJson E c (state_notice u st)) onlineConns
         (upds (\<lambda>f. redis_publish E f (dump (jlib E) (state_notice u st))) crossIds Done)))"

text \<open>
  A user known as online is taken over in one region under the mutex; otherwise the channel is
  subscribed after the region.
\<close>

definition register_prog :: "('db, 'h) env \<Rightarrow> conn \<Rightarrow> int \<Rightarrow> user \<Rightarrow> ('db, 'h) sprog \<Rightarrow> ('db, 'h) sprog" where
  "register_prog E c i u p =
     (if ustate u = ''online''
      then act (\<lambda>w. do {
          let w1 = (case map_of (userConnMap w) i of
              Some old \<Rightarrow> w\<lparr>shut := shut w @ [old], userConnMap := AList.delete i (userConnMap w)\<rparr>
            | None \<Rightarrow> w);
          let w2 = w1\<lparr>userConnMap := AList.update i c (userConnMap w1)\<rparr>;
          w3 \<leftarrow> on_redis (unsubscribe (hlib E) i) w2;
          w4 \<leftarrow> on_redis (subscribe (hlib E) i) w3;
          Some ((), w4)
        }) (\<lambda>_. p)
      else upd (\<lambda>w. w\<lparr>userConnMap := AList.update i c (userConnMap w)\<rparr>)
        (redis_step (subscribe (hlib E) i) p))"

definition answer_prog :: "('db, 'h) env \<Rightarrow> conn \<Rightarrow> int \<Rightarrow> user \<Rightarrow> ('db, 'h) sprog" where
  "answer_prog E c i u =
     db_step (UserModel_updateState (sql E) (u\<lparr>ustate := ''online''\<rparr>)) (\<lambda>_.
     db_step (OfflineMsgModel_query (sql E) i) (\<lambda>vec.
     db_step (FriendModel_query (sql E) i) (\<lambda>userVec.
     db_step (GroupModel_queryGroups (sql E) i) (\<lambda>groupVec.
     reply E c (login_response (jlib E) (u\<lparr>ustate := ''online''\<rparr>) vec userVec groupVec)
       (if vec = [] then notify_prog E i ''online''
        else db_step (OfflineMsgModel_remove (sql E) i) (\<lambda>_. notify_prog E i ''online''))))))"

definition login_prog :: "('db, 'h) env \<Rightarrow> conn \<Rightarrow> json \<Rightarrow> ('db, 'h) sprog" where
  "login_prog E c js =
     (if \<not> contains js ''id'' \<or> \<not> contains js ''password''
      then reply E c (error_reply LOGIN_MSG_ACK ''invalid fields'') Done
      else case int_field (jlib E) js ''id'' of
        Inl e \<Rightarrow> Done
      | Inr i \<Rightarrow> (case string_field js ''password'' of
          Inl e \<Rightarrow> Done
        | Inr pwd \<Rightarrow> db_step (UserModel_query (sql E) i) (\<lambda>u.
            if uid u = i \<and> upwd u = pwd then register_prog E c i u (answer_prog E c i u)
            else reply E c (error_reply LOGIN_MSG_ACK ''id or password is invalid!'') Done)))"

definition reg_prog :: "('db, 'h) env \<Rightarrow> conn \<Rightarrow> json \<Rightarrow> ('db, 'h) sprog" where
  "reg_prog E c js =
     (if \<not> contains js ''name'' \<or> \<not> contains js ''password''
      then reply E c (error_reply REG_MSG_ACK ''invalid fields'') Done
      else case string_field js ''name'' of
        Inl e \<Rightarrow> Done
      | Inr name \<Rightarrow> (case string_field js ''password'' of
          Inl e \<Rightarrow> Done
        | Inr pwd \<Rightarrow> db_step (UserModel_insert (sql E) (new_user\<lparr>uname := name, upwd := pwd\<rparr>)) (\<lambda>(state, u).
            reply E c
              (if state then jobj [(''msgid'', JInt (code REG_MSG_ACK)), (''errno'', JInt 0), (''id'', JInt (uid u))]
               else jobj [(''msgid'', JInt (code REG_MSG_ACK)), (''errno'', JInt 1)]) Done)))"

definition offline_prog :: "('db, 'h) env \<Rightarrow> int \<Rightarrow> ('db, 'h) sprog" where
  "offline_prog E i =
     db_step (UserModel_updateState (sql E) \<lparr>uid = i, uname = [], upwd = [], ustate = ''offline''\<rparr>)
       (\<lambda>_. notify_prog E i ''offline'')"

definition forget_time :: "conn \<Rightarrow> ('db, 'h) svc \<Rightarrow> ('db, 'h) svc" where
  "forget_time c w = w\<lparr>connectionLastTime := AList.delete (cname c) (connectionLastTime w)\<rparr>"

definition loginout_prog :: "('db, 'h) env \<Rightarrow> conn \<Rightarrow> json \<Rightarrow> ('db, 'h) sprog" where
  "loginout_prog E c js =
     (if \<not> contains js ''id'' then Done
      else case int_field (jlib E) js ''id'' of
        Inl e \<Rightarrow> Done
      | Inr i \<Rightarrow> upd (\<lambda>w. w\<lparr>userConnMap := AList.delete i (userConnMap w)\<rparr>)
          (redis_step (unsubscribe (hlib E) i) (upd (forget_time c) (offline_prog E i))))"

definition close_prog :: "('db, 'h) env \<Rightarrow> conn \<Rightarrow> ('db, 'h) sprog" where
  "close_prog E c =
     act (\<lambda>w. Some (case user_of_conn c (userConnMap w) of
         Some i \<Rightarrow> (i, w\<lparr>userConnMap := AList.delete i (userConnMap w)\<rparr>)
       | None \<Rightarrow> (-1, w)))
     (\<lambda>i. redis_step (unsubscribe (hlib E) i) (upd (forget_time c) (if i \<noteq> -1 then offline_prog E i else Done)))"

definition onConnection_prog :: "('db, 'h) env \<Rightarrow> conn \<Rightarrow> bool \<Rightarrow> ('db, 'h) sprog" where
  "onConnection_prog E c connected =
     (if \<not> connected then andthen (close_prog E c) (upd (\<lambda>w. w\<lparr>shut := shut w @ [c]\<rparr>) Done) else Done)"

subsection \<open>Chat\<close>

definition oneChat_prog :: "('db, 'h) env \<Rightarrow> conn \<Rightarrow> json \<Rightarrow> ('db, 'h) sprog" where
  "oneChat_prog E c js =
     (if \<not> contains js ''id'' \<or> \<not> contains js ''toid'' then Done
      else case int_field (jlib E) js ''toid'' of
        Inl e \<Rightarrow> Done
      | Inr toid \<Rightarrow> (case int_field (jlib E) js ''id'' of
          Inl e \<Rightarrow> Done
        | Inr fromid \<Rightarrow> look (\<lambda>w. map_of (userConnMap w) toid) (\<lambda>found. case found of
            Some toConn \<Rightarrow> reply E toConn js Done
          | None \<Rightarrow> db_step (UserModel_query (sql E) toid) (\<lambda>u.
              if ustate u = ''online'' then upd (redis_publish E toid (dump (jlib E) js)) Done
              else db_step (OfflineMsgModel_insert (sql E) toid (dump (jlib E) js)) (\<lambda>_. Done)))))"

text \<open>The packets of a group message to this server's connections are sent under the mutex.\<close>

fun group_prog :: "('db, 'h) env \<Rightarrow> string \<Rightarrow> int list \<Rightarrow> int list \<Rightarrow> ('db, 'h) sprog" where
  "group_prog E m [] crossIds = upds (\<lambda>i. redis_publish E i m) crossIds Done"
| "group_prog E m (i # is) crossIds = db_step (UserModel_query (sql E) i) (\<lambda>u.
     if ustate u = ''online'' then group_prog E m is (crossIds @ [i])
     else db_step (OfflineMsgModel_insert (sql E) i m) (\<lambda>_. group_prog E m is crossIds))"

definition groupChat_prog :: "('db, 'h) env \<Rightarrow> conn \<Rightarrow> json \<Rightarrow> ('db, 'h) sprog" where
  "groupChat_prog E c js =
     (if \<not> contains js ''id'' \<or> \<not> contains js ''groupid'' then Done
      else case int_field (jlib E) js ''id'' of
        Inl e \<Rightarrow> Done
      | Inr userid \<Rightarrow> (case int_field (jlib E) js ''groupid'' of
          Inl e \<Rightarrow> Done
        | Inr groupid \<Rightarrow> db_step (GroupModel_queryGroupUsers (sql E) userid groupid) (\<lambda>ids.
            act (\<lambda>w. Some (elsewhere w ids, foldl (\<lambda>w c. sendJson E c js w) w (here w ids)))
              (\<lambda>offlineIds. group_prog E (dump (jlib E) js) offlineIds []))))"

subsection \<open>Friends, groups, names and heartbeats\<close>

definition addFriend_prog :: "('db, 'h) env \<Rightarrow> conn \<Rightarrow> json \<Rightarrow> ('db, 'h) sprog" where
  "addFriend_prog E c js =
     (if \<not> contains js ''id'' \<or> \<not> contains js ''friendid'' then Done
      else case int_field (jlib E) js ''id'' of
        Inl e \<Rightarrow> Done
      | Inr userid \<Rightarrow> (case int_field (jlib E) js ''friendid'' of
          Inl e \<Rightarrow> Done
        | Inr friendid \<Rightarrow>
            db_step (FriendModel_insert (sql E) userid friendid) (\<lambda>_.
            db_step (FriendModel_insert (sql E) friendid userid) (\<lambda>_.
            db_step (UserModel_query (sql E) friendid) (\<lambda>f.
            reply E c (jobj [(''msgid'', JInt (code ADD_FRIEND_MSG)), (''id'', JInt (uid f)),
              (''name'', JStr (uname f)), (''state'', JStr (ustate f))]) Done)))))"

definition createGroup_prog :: "('db, 'h) env \<Rightarrow> conn \<Rightarrow> json \<Rightarrow> ('db, 'h) sprog" where
  "createGroup_prog E c js =
     (if \<not> contains js ''id'' \<or> \<not> contains js ''groupname'' then Done
      else case int_field (jlib E) js ''id'' of
        Inl e \<Rightarrow> Done
      | Inr userid \<Rightarrow> (case string_field js ''groupname'' of
          Inl e \<Rightarrow> Done
        | Inr name \<Rightarrow> (case string_field js ''groupdesc'' of
            Inl e \<Rightarrow> Done
          | Inr desc \<Rightarrow> db_step (GroupModel_createGroup (sql E) (new_group\<lparr>gname := name, gdesc := desc\<rparr>)) (\<lambda>(ok, g).
              if ok then db_step (GroupModel_addGroup (sql E) userid (gid g) ''creator'') (\<lambda>_.
                reply E c (jobj [(''msgid'', JInt (code CREATE_GROUP_MSG)), (''groupid'', JInt (gid g)),
                  (''groupname'', JStr (gname g)), (''groupdesc'', JStr (gdesc g))]) Done)
              else Done))))"

definition addGroup_prog :: "('db, 'h) env \<Rightarrow> conn \<Rightarrow> json \<Rightarrow> ('db, 'h) sprog" where
  "addGroup_prog E c js =
     (if \<not> contains js ''id'' \<or> \<not> contains js ''groupid'' then Done
      else case int_field (jlib E) js ''id'' of
        Inl e \<Rightarrow> Done
      | Inr userid \<Rightarrow> (case int_field (jlib E) js ''groupid'' of
          Inl e \<Rightarrow> Done
        | Inr groupid \<Rightarrow>
            db_step (GroupModel_addGroup (sql E) userid groupid ''normal'') (\<lambda>_.
            db_step (GroupModel_queryGroup (sql E) groupid) (\<lambda>g.
            reply E c (jobj [(''msgid'', JInt (code ADD_GROUP_MSG)), (''groupid'', JInt (gid g)),
              (''groupname'', JStr (gname g))]) Done))))"

definition updateName_prog :: "('db, 'h) env \<Rightarrow> conn \<Rightarrow> json \<Rightarrow> ('db, 'h) sprog" where
  "updateName_prog E c js =
     (if \<not> contains js ''id'' \<or> \<not> contains js ''name'' then Done
      else case int_field (jlib E) js ''id'' of
        Inl e \<Rightarrow> Done
      | Inr userid \<Rightarrow> (case string_field js ''name'' of
          Inl e \<Rightarrow> Done
        | Inr newName \<Rightarrow> db_step (UserModel_updateName (sql E) userid newName) (\<lambda>ok.
            reply E c
              (if ok then jobj [(''msgid'', JInt (code UPDATE_NAME_MSG)), (''id'', JInt userid), (''name'', JStr newName)]
               else error_reply UPDATE_NAME_MSG ''Name already exists'') Done)))"

definition heartbeat_prog :: "('db, 'h) env \<Rightarrow> conn \<Rightarrow> json \<Rightarrow> ('db, 'h) sprog" where
  "heartbeat_prog E c js = upd (updateConnTime c) (reply E c (jobj [(''msgid'', JInt (code HEARTBEAT_MSG))]) Done)"

definition handler_progs :: "('db, 'h) env \<Rightarrow> (int \<times> (conn \<Rightarrow> json \<Rightarrow> ('db, 'h) sprog)) list" where
  "handler_progs E =
     [(code LOGIN_MSG, login_prog E), (code LOGINOUT_MSG, loginout_prog E), (code REG_MSG, reg_prog E),
      (code ONE_CHAT_MSG, oneChat_prog E), (code ADD_FRIEND_MSG, addFriend_prog E),
      (code CREATE_GROUP_MSG, createGroup_prog E), (code ADD_GROUP_MSG, addGroup_prog E),
      (code GROUP_CHAT_MSG, groupChat_prog E), (code UPDATE_NAME_MSG, updateName_prog E),
      (code HEARTBEAT_MSG, heartbeat_prog E)]"

text \<open>A body in \<open>onMessage\<close>; the exceptions it catches are thrown before the handler's first step.\<close>

definition body_prog :: "('db, 'h) env \<Rightarrow> conn \<Rightarrow> string \<Rightarrow> ('db, 'h) sprog" where
  "body_prog E c msg = (case parse (jlib E) msg of
      None \<Rightarrow> Done
    | Some js \<Rightarrow> upd (updateConnTime c) (case int_field (jlib E) js ''msgid'' of
        Inl e \<Rightarrow> Done
      | Inr k \<Rightarrow> (case map_of (handler_progs E) k of None \<Rightarrow> Done | Some h \<Rightarrow> h c js)))"

subsection \<open>The other callbacks\<close>

text \<open>The observer's thread does not catch an exception: the process ends.\<close>

definition redis_prog :: "('db, 'h) env \<Rightarrow> int \<Rightarrow> string \<Rightarrow> ('db, 'h) sprog" where
  "redis_prog E u msg = look (\<lambda>w. map_of (userConnMap w) u) (\<lambda>found. case found of
      Some c \<Rightarrow> (case parse (jlib E) msg of Some js \<Rightarrow> reply E c js Done | None \<Rightarrow> Done)
    | None \<Rightarrow>
        (let parsed = (case parse (jlib E) msg of Some js \<Rightarrow> js | None \<Rightarrow> JNull);
             kind = (if contains parsed ''msgid'' then int_field (jlib E) parsed ''msgid'' else Inr 0)
         in case kind of
              Inl e \<Rightarrow> halt
            | Inr k \<Rightarrow> if k = code FRIEND_STATE_CHANGE_MSG then Done
                else db_step (OfflineMsgModel_insert (sql E) u msg) (\<lambda>_. Done)))"

definition check_prog :: "('db, 'h) sprog" where
  "check_prog = look (\<lambda>w. map (\<lambda>kv. snd (snd kv)) (filter (\<lambda>kv. now w - fst (snd kv) > 30) (connectionLastTime w)))
     (\<lambda>toClose. upds (\<lambda>c w. w\<lparr>shut := shut w @ [c]\<rparr>) toClose Done)"

subsection \<open>Runs\<close>

text \<open>
  The loops of the connections, the main loop and the observer's thread. An idle thread may
  begin the next callback; then it takes its turns between those of the others.
\<close>

datatype thread_event = Received conn string | Changed conn | Notified int string | Timer | Turn nat | Passed int

definition main_loop :: nat where "main_loop = 4"
definition observer :: nat where "observer = 5"

definition begin_prog :: "nat \<Rightarrow> 's prog \<Rightarrow> 's threads \<Rightarrow> 's threads" where
  "begin_prog t p S = S\<lparr>todo := (todo S)(t := p)\<rparr>"

definition all_idle :: "'s \<Rightarrow> 's threads" where
  "all_idle w = \<lparr>shared = w, todo = \<lambda>_. Done\<rparr>"

inductive thread_ev :: "('db, 'h) env \<Rightarrow> (conn \<Rightarrow> nat) \<Rightarrow> ('db, 'h) svc threads \<Rightarrow> thread_event \<Rightarrow> ('db, 'h) svc threads \<Rightarrow> bool"
  for E loop where
  t_body: "todo S (loop c) = Done \<Longrightarrow> thread_ev E loop S (Received c msg) (begin_prog (loop c) (body_prog E c msg) S)"
| t_close: "todo S (loop c) = Done \<Longrightarrow> thread_ev E loop S (Changed c) (begin_prog (loop c) (onConnection_prog E c False) S)"
| t_redis: "todo S observer = Done \<Longrightarrow> thread_ev E loop S (Notified u msg) (begin_prog observer (redis_prog E u msg) S)"
| t_timer: "todo S main_loop = Done \<Longrightarrow> thread_ev E loop S Timer (begin_prog main_loop check_prog S)"
| t_turn: "thread_step t S = Some S' \<Longrightarrow> thread_ev E loop S (Turn t) S'"
| t_time: "0 \<le> dt \<Longrightarrow> thread_ev E loop S (Passed dt) (S\<lparr>shared := (shared S)\<lparr>now := now (shared S) + dt\<rparr>\<rparr>)"

inductive thread_run :: "('db, 'h) env \<Rightarrow> (conn \<Rightarrow> nat) \<Rightarrow> ('db, 'h) svc threads \<Rightarrow> thread_event list \<Rightarrow> ('db, 'h) svc threads \<Rightarrow> bool"
  for E loop where
  trun_nil: "thread_run E loop S [] S"
| trun_snoc: "thread_run E loop S es S' \<Longrightarrow> thread_ev E loop S' e S'' \<Longrightarrow> thread_run E loop S (es @ [e]) S''"

end
