(* ===== verification/ThreadFacts.thy ===== *)
theory ThreadFacts
  imports Threads
begin

section \<open>Facts of the handlers in steps\<close>

text \<open>
  What a program does when it is not interrupted, runs of the threads, and the guarantee
  \<open>sessions_only\<close> that every step of every callback keeps.
\<close>

subsection \<open>Without interruption\<close>

lemma run_db [simp]: "run_prog (db_step f k) w = Option.bind (on_db f w) (\<lambda>(x, w'). run_prog (k x) w')"
  by (simp add: db_step_def run_act)

lemma run_redis [simp]: "run_prog (redis_step f p) w = Option.bind (on_redis f w) (run_prog p)"
  by (cases "on_redis f w") (simp_all add: redis_step_def run_act)

lemma run_reply [simp]: "run_prog (reply E c js p) w = run_prog p (sendJson E c js w)"
  by (simp add: reply_def)

lemma run_notify [simp]: "run_prog (notify_prog E u st) w = notifyFriendState E u st w"
  by (auto simp: notify_prog_def notifyFriendState_def Let_def intro!: Option.bind_cong)

lemma run_register: "run_prog (register_prog E c i u p) w = Option.bind (login_register E c i u w) (run_prog p)"
  by (simp add: register_prog_def login_register_def run_act Let_def)

lemma run_answer: "run_prog (answer_prog E c i u) w = login_answer E c i u w"
  by (auto simp: answer_prog_def login_answer_def Let_def intro!: Option.bind_cong)

text \<open>The result of a handler for the loop: an exception has changed nothing.\<close>

definition settle :: "'s \<Rightarrow> (json_error + 's) option \<Rightarrow> 's option" where
  "settle w r = (case r of None \<Rightarrow> None | Some (Inl e) \<Rightarrow> Some w | Some (Inr w') \<Rightarrow> Some w')"

lemma settle_simps [simp]:
  "settle w (Some (Inl e)) = Some w" "settle w (Some (Inr w')) = Some w'" "settle w None = None"
  by (simp_all add: settle_def)

lemma settle_bind [simp]: "settle w (Option.bind m (\<lambda>x. f x)) = Option.bind m (\<lambda>x. settle w (f x))"
  by (cases m) simp_all

lemma settle_if [simp]: "settle w (if b then x else y) = (if b then settle w x else settle w y)"
  by simp

lemma run_group: "run_prog (group_prog E m is acc) w =
  Option.bind (group_offline E m is w) (\<lambda>(crossIds, w'). Some (foldl (\<lambda>w i. redis_publish E i m w) w' (acc @ crossIds)))"
  by (induction "is" arbitrary: acc w) (auto intro!: Option.bind_cong)

lemma run_sessions:
  "run_prog (login_prog E c js) w = settle w (login E c js w)"
  "run_prog (loginout_prog E c js) w = settle w (loginout E c js w)"
  "run_prog (reg_prog E c js) w = settle w (reg E c js w)"
  by (auto simp: login_prog_def login_def loginout_prog_def loginout_def reg_prog_def reg_def offline_prog_def go_offline_def
      forget_time_def run_register run_answer Let_def split: sum.split intro!: Option.bind_cong)

lemma run_chats:
  "run_prog (oneChat_prog E c js) w = settle w (oneChat E c js w)"
  "run_prog (groupChat_prog E c js) w = settle w (groupChat E c js w)"
  by (auto simp: oneChat_prog_def oneChat_def groupChat_prog_def groupChat_def run_group run_act Let_def
      split: sum.split option.split intro!: Option.bind_cong)

lemma run_other_handlers:
  "run_prog (addFriend_prog E c js) w = settle w (addFriend E c js w)"
  "run_prog (createGroup_prog E c js) w = settle w (createGroup E c js w)"
  "run_prog (addGroup_prog E c js) w = settle w (addGroup E c js w)"
  "run_prog (updateName_prog E c js) w = settle w (updateName E c js w)"
  "run_prog (heartbeat_prog E c js) w = settle w (heartbeat E c js w)"
  by (auto simp: addFriend_prog_def addFriend_def createGroup_prog_def createGroup_def addGroup_prog_def addGroup_def
      updateName_prog_def updateName_def heartbeat_prog_def heartbeat_def Let_def
      split: sum.split intro!: Option.bind_cong)

lemma run_close: "run_prog (close_prog E c) w = clientCloseException E c w"
  by (auto simp: close_prog_def clientCloseException_def run_act offline_prog_def go_offline_def forget_time_def Let_def
      split: option.split intro!: Option.bind_cong)

lemma run_onConnection: "run_prog (onConnection_prog E c b) w = onConnection E c b w"
  by (auto simp: onConnection_prog_def onConnection_def run_andthen run_close intro!: Option.bind_cong)

lemma run_body: "run_prog (body_prog E c msg) w = handle_body E c msg w"
proof -
  have h: "run_prog (case map_of (handler_progs E) k of None \<Rightarrow> Done | Some h \<Rightarrow> h c js) w = settle w (getHandler E k c js w)"
    for k js and w :: "('a, 'b) svc"
    by (simp add: handler_progs_def getHandler_def msgHandlerMap_def run_sessions run_chats run_other_handlers)
  have "settle w m = Option.bind m (\<lambda>r. Some (case r of Inl e \<Rightarrow> w | Inr w2 \<Rightarrow> w2))"
    for w :: "('a, 'b) svc" and m
    by (cases m) (auto split: sum.split)
  then show ?thesis
    by (simp add: body_prog_def handle_body_def Let_def h split: option.split sum.split)
qed

lemma run_redis_callback:
  "run_prog (redis_prog E u m) w = (case handleRedisSubscribeMessage E u m w of Some (Inr w') \<Rightarrow> Some w' | _ \<Rightarrow> None)"
  by (cases "on_db (OfflineMsgModel_insert (sql E) u m) w")
    (auto simp: redis_prog_def handleRedisSubscribeMessage_def Let_def split: option.split sum.split)

lemma run_check: "run_prog check_prog w = Some (checkHeartbeat w)"
proof -
  have "foldl (\<lambda>w c. w\<lparr>shut := shut w @ [c]\<rparr>) w cs = w\<lparr>shut := shut w @ cs\<rparr>" for cs
    by (induction cs arbitrary: w) simp_all
  then show ?thesis by (simp add: check_prog_def checkHeartbeat_def)
qed

subsection \<open>Runs of the threads\<close>

lemma trun_one: "thread_ev E loop S e S' \<Longrightarrow> thread_run E loop S [e] S'"
  using trun_snoc [OF trun_nil] by simp

lemma trun_append: "thread_run E loop S' es' S'' \<Longrightarrow> thread_run E loop S es S' \<Longrightarrow> thread_run E loop S (es @ es') S''"
proof (induction rule: thread_run.induct)
  case (trun_snoc S' es' T e U)
  from thread_run.trun_snoc [OF trun_snoc.IH [OF trun_snoc.prems] trun_snoc.hyps(2)] show ?case by simp
qed simp

lemma trun_turns: "turns ts S = Some S' \<Longrightarrow> thread_run E loop S (map Turn ts) S'"
proof (induction ts arbitrary: S)
  case (Cons t ts)
  then obtain S1 where s: "thread_step t S = Some S1" "turns ts S1 = Some S'" by (auto split: bind_splits)
  from trun_append [OF Cons.IH [OF s(2)] trun_one [OF t_turn [OF s(1)]]] show ?case by simp
qed (simp add: trun_nil)

lemma trun_alone:
  assumes "run_prog (todo S t) (shared S) = Some w"
  shows "\<exists>es. thread_run E loop S es \<lparr>shared = w, todo = (todo S)(t := Done)\<rparr>"
  using run_alone [OF refl assms] trun_turns by blast

subsection \<open>Sessions of interleaved logins\<close>

text \<open>No statement of the server removes a user or changes a password.\<close>

definition pw_kept :: "tables \<Rightarrow> tables \<Rightarrow> bool" where
  "pw_kept t t' \<longleftrightarrow> (\<forall>i n p st. users t i = Some (n, p, st) \<longrightarrow> (\<exists>n' st'. users t' i = Some (n', p, st')))"

definition entitled :: "(conn \<times> int \<times> string) set \<Rightarrow> conn \<Rightarrow> int \<Rightarrow> tables \<Rightarrow> bool" where
  "entitled R c i t \<longleftrightarrow> (\<exists>pwd. (c, i, pwd) \<in> R \<and> ((\<exists>n p st. users t i = Some (n, p, st) \<and> c_str p = pwd) \<or> (i = -1 \<and> pwd = [])))"

text \<open>What one step may do: sessions begin only for entitled connections.\<close>

definition sessions_only :: "(conn \<times> int \<times> string) set \<Rightarrow> ('db \<Rightarrow> tables) \<Rightarrow> ('db, 'h) svc \<Rightarrow> ('db, 'h) svc \<Rightarrow> bool" where
  "sessions_only R T w w' \<longleftrightarrow> pw_kept (T (dbs w)) (T (dbs w')) \<and>
     (distinct (map fst (userConnMap w)) \<longrightarrow> distinct (map fst (userConnMap w'))) \<and>
     (\<forall>e \<in> set (userConnMap w'). e \<in> set (userConnMap w) \<or> entitled R (snd e) (fst e) (T (dbs w')))"

lemma pw_kept_refl [simp]: "pw_kept t t"
  by (simp add: pw_kept_def)

lemma pw_kept_trans: "pw_kept t u \<Longrightarrow> pw_kept u v \<Longrightarrow> pw_kept t v"
  unfolding pw_kept_def by blast

lemma pw_kept_changes [simp]:
  "pw_kept t (set_state i st t)" "pw_kept t (set_name i n t)" "pw_kept t (add_friend u f t)"
  "pw_kept t (clear_offline u t)" "pw_kept t (add_offline u m t)"
  "pw_kept t (t\<lparr>groups := g\<rparr>)" "pw_kept t (t\<lparr>members := ms\<rparr>)"
  "users t i = None \<Longrightarrow> pw_kept t (t\<lparr>users := (users t)(i \<mapsto> row)\<rparr>)"
  by (auto simp: pw_kept_def set_state_def set_name_def add_friend_def clear_offline_def add_offline_def split: option.split)

lemma entitled_kept: "entitled R c i t \<Longrightarrow> pw_kept t u \<Longrightarrow> entitled R c i u"
  unfolding entitled_def pw_kept_def by metis

lemma sessions_only_refl [simp]: "sessions_only R T w w"
  by (simp add: sessions_only_def)

lemma sessions_only_trans:
  assumes "sessions_only R T u v" and "sessions_only R T v w"
  shows "sessions_only R T u w"
  using assms unfolding sessions_only_def
  by (meson entitled_kept pw_kept_trans)

lemma sessions_only_same:
  "userConnMap w' = userConnMap w \<Longrightarrow> pw_kept (T (dbs w)) (T (dbs w')) \<Longrightarrow> sessions_only R T w w'"
  by (simp add: sessions_only_def)

lemma sessions_only_delete:
  "userConnMap w' = AList.delete i (userConnMap w) \<Longrightarrow> dbs w' = dbs w \<Longrightarrow> sessions_only R T w w'"
  by (auto simp: sessions_only_def dest: set_delete_subset intro: distinct_fst_delete)

context mysql_server begin

lemma queries_keep:
  "UserModel_query M i db = Some (u, d) \<Longrightarrow> T d = T db"
  "FriendModel_query M i db = Some (fs, d) \<Longrightarrow> T d = T db"
  "OfflineMsgModel_query M i db = Some (vec, d) \<Longrightarrow> T d = T db"
  "GroupModel_queryGroups M i db = Some (gs, d) \<Longrightarrow> T d = T db"
  "GroupModel_queryGroupUsers M i j db = Some (ids, d) \<Longrightarrow> T d = T db"
  "GroupModel_queryGroup M j db = Some (g, d) \<Longrightarrow> T d = T db"
  by (simp_all add: user_query friend_query offline_query groups_query group_member_ids group_query)

lemma updates_keep:
  "UserModel_updateState M u db = Some (ok, d) \<Longrightarrow> pw_kept (T db) (T d)"
  "UserModel_updateName M i n db = Some (ok, d) \<Longrightarrow> pw_kept (T db) (T d)"
  "FriendModel_insert M i j db = Some (x, d) \<Longrightarrow> pw_kept (T db) (T d)"
  "OfflineMsgModel_insert M i m db = Some (x, d) \<Longrightarrow> pw_kept (T db) (T d)"
  "OfflineMsgModel_remove M i db = Some (x, d) \<Longrightarrow> pw_kept (T db) (T d)"
  "GroupModel_addGroup M i j role db = Some (x, d) \<Longrightarrow> pw_kept (T db) (T d)"
  by (auto dest: user_updateState user_updateName friend_insert offline_insert offline_remove group_addMember split: if_splits)

lemma inserts_keep:
  "UserModel_insert M u db = Some (r, d) \<Longrightarrow> pw_kept (T db) (T d)"
  "GroupModel_createGroup M g db = Some (q, d) \<Longrightarrow> pw_kept (T db) (T d)"
proof -
  assume "UserModel_insert M u db = Some (r, d)"
  then have "UserModel_insert M u db = Some ((fst r, snd r), d)" by simp
  from user_insert [OF this] show "pw_kept (T db) (T d)" by (auto simp: domIff simp del: split_paired_Ex not_None_eq split: if_splits)
next
  assume "GroupModel_createGroup M g db = Some (q, d)"
  then have "GroupModel_createGroup M g db = Some ((fst q, snd q), d)" by simp
  from group_insert [OF this] show "pw_kept (T db) (T d)" by (auto split: if_splits)
qed

end

text \<open>Steps that begin no session.\<close>

lemma conforms_db:
  assumes "\<And>db x d. f db = Some (x, d) \<Longrightarrow> pw_kept (T db) (T d)" and "stable (sessions_only R T) P"
    and "\<And>x. conforms (sessions_only R T) P (k x)"
  shows "conforms (sessions_only R T) P (db_step f k)"
  unfolding db_step_def
proof (rule conforms_act [where Q = "\<lambda>_. P"], goal_cases)
  case (1 w x w')
  then have "sessions_only R T w w'"
    using assms(1) by (intro sessions_only_same) (auto elim!: on_db_SomeE)
  with 1 assms(2,3) show ?case by (auto simp: stable_def)
qed

lemma conforms_redis:
  assumes "stable (sessions_only R T) P" and "conforms (sessions_only R T) P p"
  shows "conforms (sessions_only R T) P (redis_step f p)"
  unfolding redis_step_def
proof (rule conforms_act [where Q = "\<lambda>_. P"], goal_cases)
  case (1 w x w')
  then have "sessions_only R T w w'"
    by (intro sessions_only_same) (auto dest!: quiet_on_redis simp: quiet_def)
  with 1 assms show ?case by (auto simp: stable_def)
qed

lemma conforms_same:
  assumes "\<And>w. userConnMap (g w) = userConnMap w \<and> dbs (g w) = dbs w" and "stable (sessions_only R T) P"
    and "conforms (sessions_only R T) P p"
  shows "conforms (sessions_only R T) P (upd g p)"
  using assms by (intro conforms_upd sessions_only_same) auto

lemma conforms_reply:
  "stable (sessions_only R T) P \<Longrightarrow> conforms (sessions_only R T) P p \<Longrightarrow> conforms (sessions_only R T) P (reply E c js p)"
  unfolding reply_def by (intro conforms_same) auto

lemmas plain_steps = conforms_reply conforms_redis conforms_Done conforms_halt conforms_look sessions_only_refl

lemma conforms_notify:
  assumes "mysql_server (sql E) T K" and "stable (sessions_only R T) P"
  shows "conforms (sessions_only R T) P (notify_prog E u st)"
  unfolding notify_prog_def
  by (intro conforms_db conforms_look)
    (auto simp: assms(2) mysql_server.queries_keep [OF assms(1)] split: prod.split
      intro!: conforms_upds conforms_Done sessions_only_same)

lemma conforms_group:
  assumes "mysql_server (sql E) T K" and "stable (sessions_only R T) P"
  shows "conforms (sessions_only R T) P (group_prog E m is acc)"
proof (induction "is" arbitrary: acc)
  case Nil
  show ?case by (auto simp: assms(2) intro!: conforms_upds conforms_Done sessions_only_same)
next
  case (Cons i "is")
  then show ?case
    by (auto intro!: conforms_db simp: assms(2) mysql_server.queries_keep [OF assms(1)] mysql_server.updates_keep [OF assms(1)])
qed

lemma stable_True [simp]: "stable G (\<lambda>_. True)"
  by (simp add: stable_def)

lemma conforms_weaken:
  assumes "conforms G P p" and "\<And>s. Q s \<Longrightarrow> P s"
  shows "conforms G Q p"
  using assms(1)
proof (cases rule: conforms.cases)
  case (conforms_Act f)
  show ?thesis
    unfolding conforms_Act(1) by (rule conforms.conforms_Act) (blast dest: assms(2) conforms_Act(2))
qed (simp add: conforms_Done)

lemma stable_entitled [simp]: "stable (sessions_only R T) (\<lambda>w. entitled R c i (T (dbs w)))"
  unfolding stable_def sessions_only_def using entitled_kept by blast

lemma conforms_answer:
  assumes "mysql_server (sql E) T K" and "stable (sessions_only R T) P"
  shows "conforms (sessions_only R T) P (answer_prog E c i u)"
  unfolding answer_prog_def
  by (auto simp: assms(2) mysql_server.queries_keep [OF assms(1)] mysql_server.updates_keep [OF assms(1)]
      intro!: conforms_db conforms_reply conforms_notify [OF assms])

text \<open>The steps that begin a session need the entitlement.\<close>

lemma sessions_only_begin:
  assumes "entitled R c i (T (dbs w))" and "dbs w' = dbs w"
    and "userConnMap w' = AList.update i c (userConnMap w) \<or> userConnMap w' = AList.update i c (AList.delete i (userConnMap w))"
  shows "sessions_only R T w w'"
proof -
  have "e = (i, c) \<or> e \<in> set (userConnMap w)" if "e \<in> set (userConnMap w')" for e
    using assms(3) that by (auto dest!: set_update_cases set_delete_subset)
  then have "\<forall>e \<in> set (userConnMap w'). e \<in> set (userConnMap w) \<or> entitled R (snd e) (fst e) (T (dbs w'))"
    using assms(1,2) by fastforce
  with assms(2,3) show ?thesis
    by (auto simp: sessions_only_def intro!: distinct_fst_update distinct_fst_delete)
qed

lemma conforms_register:
  assumes "conforms (sessions_only R T) (\<lambda>w. entitled R c i (T (dbs w))) p"
  shows "conforms (sessions_only R T) (\<lambda>w. entitled R c i (T (dbs w))) (register_prog E c i u p)"
proof (cases "ustate u = ''online''")
  case True
  show ?thesis
    unfolding register_prog_def if_P [OF True]
  proof (rule conforms_act [where Q = "\<lambda>_ w. entitled R c i (T (dbs w))"], goal_cases)
    case (1 w x w')
    with True have r: "login_register E c i u w = Some w'"
      by (auto simp: login_register_def Let_def split: bind_splits)
    then have d: "dbs w' = dbs w"
      by (auto simp: login_register_def Let_def split: option.splits bind_splits if_splits dest!: quiet_on_redis)
    with 1 login_register_effect [OF r] have "sessions_only R T w w'"
      by (intro sessions_only_begin) auto
    with 1 assms d show ?case by simp
  qed
next
  case False
  then show ?thesis
    unfolding register_prog_def
    by (auto intro!: conforms_upd conforms_redis assms sessions_only_begin)
qed

text \<open>The logins that a body asks for.\<close>

definition login_requests :: "('db, 'h) env \<Rightarrow> conn \<Rightarrow> string \<Rightarrow> (conn \<times> int \<times> string) set" where
  "login_requests E c msg = {(c, i, pwd) | i pwd js. parse (jlib E) msg = Some js \<and>
     int_field (jlib E) js ''msgid'' = Inr (code LOGIN_MSG) \<and> login_request (jlib E) js i pwd}"

lemma conforms_login:
  assumes "mysql_server (sql E) T K" and "\<And>i pwd. login_request (jlib E) js i pwd \<Longrightarrow> (c, i, pwd) \<in> R"
  shows "conforms (sessions_only R T) (\<lambda>_. True) (login_prog E c js)"
proof -
  have q: "conforms (sessions_only R T) (\<lambda>_. True) (db_step (UserModel_query (sql E) i) (\<lambda>u.
      if uid u = i \<and> upwd u = pwd then register_prog E c i u (answer_prog E c i u)
      else reply E c (error_reply LOGIN_MSG_ACK ''id or password is invalid!'') Done))"
    if "login_request (jlib E) js i pwd" for i pwd
    unfolding db_step_def
  proof (rule conforms_act [where Q = "\<lambda>u w. uid u = i \<and> upwd u = pwd \<longrightarrow> entitled R c i (T (dbs w))"], goal_cases)
    case (1 w u w')
    then obtain d where d: "UserModel_query (sql E) i (dbs w) = Some (u, d)" "w' = w\<lparr>dbs := d\<rparr>"
      by (auto elim: on_db_SomeE)
    from mysql_server.user_query [OF assms(1) d(1)] have t: "T d = T (dbs w)" "u = user_of (T (dbs w)) i \<or> u = new_user"
      by auto
    have e: "entitled R c i (T (dbs w'))" if "uid u = i" "upwd u = pwd"
    proof (cases "u = new_user")
      case True
      with that assms(2) [OF \<open>login_request (jlib E) js i pwd\<close>] show ?thesis by (auto simp: entitled_def new_user_def)
    next
      case False
      with t(2) obtain n p st where row: "users (T (dbs w)) i = Some (n, p, st)" "u = user_of (T (dbs w)) i"
        by (auto simp: user_of_def split: option.splits)
      then have "upwd u = c_str p" by (simp add: user_of_def)
      with that row(1) d(2) t(1) assms(2) [OF \<open>login_request (jlib E) js i pwd\<close>] show ?thesis
        by (auto simp: entitled_def)
    qed
    show ?case
    proof (intro conjI)
      show "sessions_only R T w w'" using d(2) t(1) by (intro sessions_only_same) simp_all
      show "uid u = i \<and> upwd u = pwd \<longrightarrow> entitled R c i (T (dbs w'))" using e by blast
      show "stable (sessions_only R T) (\<lambda>w. uid u = i \<and> upwd u = pwd \<longrightarrow> entitled R c i (T (dbs w)))"
        using stable_entitled [of R T c i] unfolding stable_def by blast
      show "conforms (sessions_only R T) (\<lambda>w. uid u = i \<and> upwd u = pwd \<longrightarrow> entitled R c i (T (dbs w)))
          (if uid u = i \<and> upwd u = pwd then register_prog E c i u (answer_prog E c i u)
           else reply E c (error_reply LOGIN_MSG_ACK ''id or password is invalid!'') Done)"
        by (auto intro!: conforms_register conforms_answer [OF assms(1)] conforms_reply conforms_Done)
    qed
  qed
  show ?thesis
    unfolding login_prog_def
    by (auto intro!: conforms_reply conforms_Done q simp: login_request_def split: sum.split)
qed

lemma conforms_offline:
  assumes "mysql_server (sql E) T K"
  shows "conforms (sessions_only R T) (\<lambda>_. True) (offline_prog E i)"
  unfolding offline_prog_def
  by (auto intro!: conforms_db conforms_notify [OF assms] simp: mysql_server.updates_keep [OF assms])

lemma conforms_close:
  assumes "mysql_server (sql E) T K"
  shows "conforms (sessions_only R T) (\<lambda>_. True) (onConnection_prog E c b)"
proof -
  have "conforms (sessions_only R T) (\<lambda>_. True) (close_prog E c)"
    unfolding close_prog_def
    by (rule conforms_act [where Q = "\<lambda>_ _. True"])
      (auto intro!: conforms_redis conforms_same conforms_Done conforms_offline [OF assms] simp: forget_time_def
        split: option.splits intro: sessions_only_delete)
  moreover have "conforms (sessions_only R T) P (upd (\<lambda>w. w\<lparr>shut := shut w @ [c]\<rparr>) Done)" for P
    by (rule conforms_weaken [where P = "\<lambda>_. True"]) (auto intro!: conforms_same conforms_Done)
  ultimately show ?thesis
    unfolding onConnection_prog_def by (auto intro!: conforms_andthen conforms_Done)
qed

lemma conforms_handlers:
  assumes "mysql_server (sql E) T K"
  shows "conforms (sessions_only R T) (\<lambda>_. True) (reg_prog E c js)"
    "conforms (sessions_only R T) (\<lambda>_. True) (oneChat_prog E c js)"
    "conforms (sessions_only R T) (\<lambda>_. True) (addFriend_prog E c js)"
    "conforms (sessions_only R T) (\<lambda>_. True) (createGroup_prog E c js)"
    "conforms (sessions_only R T) (\<lambda>_. True) (addGroup_prog E c js)"
    "conforms (sessions_only R T) (\<lambda>_. True) (updateName_prog E c js)"
    "conforms (sessions_only R T) (\<lambda>_. True) (heartbeat_prog E c js)"
    "conforms (sessions_only R T) (\<lambda>_. True) (redis_prog E u msg)"
    "conforms (sessions_only R T) (\<lambda>_. True) check_prog"
  unfolding reg_prog_def oneChat_prog_def addFriend_prog_def createGroup_prog_def
    addGroup_prog_def updateName_prog_def heartbeat_prog_def redis_prog_def check_prog_def
  by (auto simp: mysql_server.queries_keep [OF assms] mysql_server.updates_keep [OF assms] mysql_server.inserts_keep [OF assms]
        Let_def
      intro!: conforms_db conforms_reply conforms_same conforms_upds conforms_look conforms_Done conforms_halt sessions_only_same
      split: sum.split option.split prod.split)

lemma conforms_loginout:
  assumes "mysql_server (sql E) T K"
  shows "conforms (sessions_only R T) (\<lambda>_. True) (loginout_prog E c js)"
proof -
  have d: "conforms (sessions_only R T) (\<lambda>_. True) (upd (\<lambda>w. w\<lparr>userConnMap := AList.delete i (userConnMap w)\<rparr>) p)"
    if "conforms (sessions_only R T) (\<lambda>_. True) p" for i p
    using that by (intro conforms_upd sessions_only_delete) simp_all
  have f: "conforms (sessions_only R T) (\<lambda>_. True) (upd (forget_time c) (offline_prog E i))" for i
    by (intro conforms_same conforms_offline [OF assms]) (simp_all add: forget_time_def)
  show ?thesis
    unfolding loginout_prog_def by (auto intro!: d f conforms_redis conforms_Done split: sum.split)
qed

lemma conforms_groupChat:
  assumes "mysql_server (sql E) T K"
  shows "conforms (sessions_only R T) (\<lambda>_. True) (groupChat_prog E c js)"
proof -
  have "conforms (sessions_only R T) (\<lambda>_. True)
      (act (\<lambda>w. Some (elsewhere w ids, foldl (\<lambda>w c. sendJson E c js w) w (here w ids))) (\<lambda>is. group_prog E m is []))" for ids m
    by (rule conforms_act [where Q = "\<lambda>_ _. True"])
      (auto simp: service_folds intro!: conforms_group [OF assms] sessions_only_same)
  then show ?thesis
    unfolding groupChat_prog_def
    by (auto simp: mysql_server.queries_keep [OF assms] intro!: conforms_db conforms_Done split: sum.split)
qed

lemma conforms_body:
  assumes "mysql_server (sql E) T K" and "login_requests E c msg \<subseteq> R"
  shows "conforms (sessions_only R T) (\<lambda>_. True) (body_prog E c msg)"
proof -
  have "conforms (sessions_only R T) (\<lambda>_. True) (h c js)"
    if "parse (jlib E) msg = Some js" "int_field (jlib E) js ''msgid'' = Inr k" "map_of (handler_progs E) k = Some h" for js k h
  proof (cases "k = code LOGIN_MSG")
    case True
    with that have "h = login_prog E" by (simp add: handler_progs_def)
    moreover have "(c, i, pwd) \<in> R" if "login_request (jlib E) js i pwd" for i pwd
      using assms(2) True that \<open>parse _ _ = _\<close> \<open>int_field _ js _ = _\<close> by (auto simp: login_requests_def)
    ultimately show ?thesis using conforms_login [OF assms(1)] by blast
  next
    case False
    with map_of_SomeD [OF that(3)] show ?thesis
      by (auto simp: handler_progs_def intro: conforms_handlers [OF assms(1)] conforms_groupChat [OF assms(1)] conforms_loginout [OF assms(1)])
  qed
  then show ?thesis
    unfolding body_prog_def
    by (auto intro!: conforms_same conforms_Done split: option.split sum.split)
qed

end
