(* ===== verification/ThreadProps.thy ===== *)
theory ThreadProps
  imports ThreadFacts LoginProps
begin

section \<open>What interleaved handlers guarantee, and what they do not\<close>

text \<open>
  A handler that is not interrupted is the handler of \<open>ChatService\<close>. Under any interleaving a
  connection becomes a user's session only through a login with the stored password. Two races:
  two logins of one user can both be accepted without ending either session, and a message sent
  while its addressee logs out can be lost.
\<close>

lemma begin_prog_simps [simp]: "shared (begin_prog t p S) = shared S" "todo (begin_prog t p S) = (todo S)(t := p)"
  by (simp_all add: begin_prog_def)

lemma guarded_begin:
  assumes "guarded G S" and "conforms G (\<lambda>_. True) p"
  shows "guarded G (begin_prog t p S)"
  unfolding begin_prog_def using assms by (intro guarded_start [where P = "\<lambda>_. True"]) simp_all

lemma guarded_shared:
  assumes "guarded (sessions_only R T) S" and "userConnMap w = userConnMap (shared S)" and "dbs w = dbs (shared S)"
  shows "guarded (sessions_only R T) (S\<lparr>shared := w\<rparr>)"
proof -
  have "sessions_only R T (shared S) w" using assms(2,3) by (intro sessions_only_same) simp_all
  then have "P w" if "stable (sessions_only R T) P" "P (shared S)" for P
    using that unfolding stable_def by blast
  with assms(1) show ?thesis by (fastforce simp: guarded_def)
qed

lemma run_sessions_only:
  assumes "mysql_server (sql E) T K" and "thread_run E loop S es S'"
  shows "guarded (sessions_only R T) S \<Longrightarrow> (\<forall>c msg. Received c msg \<in> set es \<longrightarrow> login_requests E c msg \<subseteq> R) \<Longrightarrow>
    guarded (sessions_only R T) S' \<and> sessions_only R T (shared S) (shared S')"
  using assms(2)
proof (induction rule: thread_run.induct)
  case (trun_snoc S es S' e S'')
  then have g: "guarded (sessions_only R T) S'" and o: "sessions_only R T (shared S) (shared S')" by auto
  from trun_snoc.hyps(2) have "guarded (sessions_only R T) S'' \<and> sessions_only R T (shared S') (shared S'')"
  proof cases
    case (t_body c msg)
    with trun_snoc.prems(2) have "login_requests E c msg \<subseteq> R" by auto
    with t_body g show ?thesis by (simp add: guarded_begin conforms_body [OF assms(1)])
  next
    case (t_turn t)
    from guarded_step [OF g t_turn(2)] show ?thesis by blast
  next
    case (t_time dt)
    with g show ?thesis by (auto intro: guarded_shared sessions_only_same)
  qed (use g in \<open>simp_all add: guarded_begin conforms_close [OF assms(1)] conforms_handlers [OF assms(1)]\<close>)
  with o show ?case using sessions_only_trans by blast
qed simp

lemma guarded_idle [simp]: "guarded G (all_idle w)"
  by (auto simp: guarded_def all_idle_def intro: conforms_Done exI [of _ "\<lambda>_. True"])

subsection \<open>Logins in steps over libraries that keep their contracts\<close>

lemma login_prog_request:
  assumes "login_request (jlib E) js i pwd"
  shows "login_prog E c js = db_step (UserModel_query (sql E) i) (\<lambda>u.
      if uid u = i \<and> upwd u = pwd then register_prog E c i u (answer_prog E c i u)
      else reply E c (error_reply LOGIN_MSG_ACK ''id or password is invalid!'') Done)"
  using assms by (simp add: login_prog_def login_request_def)

lemma turns_upd:
  "todo S t = upd g p \<Longrightarrow> thread_step t S = Some \<lparr>shared = g (shared S), todo = (todo S)(t := p)\<rparr>"
  by (simp add: upd_def thread_step_def act_def)

lemma turns_db:
  "todo S t = db_step f k \<Longrightarrow> f (dbs (shared S)) = Some (x, d) \<Longrightarrow>
    thread_step t S = Some \<lparr>shared = (shared S)\<lparr>dbs := d\<rparr>, todo = (todo S)(t := k x)\<rparr>"
  by (simp add: db_step_def thread_step_def act_def on_db_def)

context chat_reliable begin

text \<open>The time is recorded and the user is read, and nothing more: the next step registers.\<close>

lemma login_up_to_query:
  assumes "todo S t = body_prog E c msg" and "parse (jlib E) msg = Some js"
    and "int_field (jlib E) js ''msgid'' = Inr (code LOGIN_MSG)" and "login_request (jlib E) js i pwd"
    and "ready (dbs (shared S))" and "uid (user_of (T (dbs (shared S))) i) = i" and "upwd (user_of (T (dbs (shared S))) i) = pwd"
  shows "\<exists>d. turns [t, t] S = Some \<lparr>shared = (updateConnTime c (shared S))\<lparr>dbs := d\<rparr>,
      todo = (todo S)(t := register_prog E c i (user_of (T (dbs (shared S))) i) (answer_prog E c i (user_of (T (dbs (shared S))) i)))\<rparr> \<and>
    ready d \<and> T d = T (dbs (shared S))"
proof -
  let ?u = "user_of (T (dbs (shared S))) i"
  from up.user_query_ready [OF assms(5), of i] obtain d where
    q: "UserModel_query (sql E) i (dbs (shared S)) = Some (?u, d)" "ready d" "T d = T (dbs (shared S))" by blast
  have "todo S t = upd (updateConnTime c) (login_prog E c js)"
    using assms(1-3) by (simp add: body_prog_def handler_progs_def)
  note s1 = turns_upd [OF this]
  have "thread_step t \<lparr>shared = updateConnTime c (shared S), todo = (todo S)(t := login_prog E c js)\<rparr> =
      Some \<lparr>shared = (updateConnTime c (shared S))\<lparr>dbs := d\<rparr>, todo = (todo S)(t := register_prog E c i ?u (answer_prog E c i ?u))\<rparr>"
    using turns_db [of "\<lparr>shared = updateConnTime c (shared S), todo = (todo S)(t := login_prog E c js)\<rparr>" t
        "UserModel_query (sql E) i" _ ?u d] q(1) assms(6,7)
    by (simp add: login_prog_request [OF assms(4)])
  with s1 q(2,3) show ?thesis by auto
qed

lemma login_from_register:
  assumes "ready (dbs w)" and "is_int32 i" and "uid u = i" and "ustate u \<noteq> ''online''"
  shows "\<exists>w' vec fs gs rest. run_prog (register_prog E c i u (answer_prog E c i u)) w = Some w' \<and> ready (dbs w') \<and>
    userConnMap w' = AList.update i c (userConnMap w) \<and> shut w' = shut w \<and>
    sent w' = sent w @ (c, packet (dump (jlib E) (login_response (jlib E) (u\<lparr>ustate := ''online''\<rparr>) vec fs gs))) # rest"
proof -
  have "kicked w i u = []" using assms(4) by (simp add: kicked_def)
  with login_register_some [of c i u w] obtain r where
    r: "login_register E c i u w = Some (w\<lparr>redis_st := r, userConnMap := AList.update i c (userConnMap w)\<rparr>)" by auto
  from login_answer_ready [of "w\<lparr>redis_st := r, userConnMap := AList.update i c (userConnMap w)\<rparr>" i u c] assms(1-3)
  obtain w' vec fs gs rest where
    "login_answer E c i u (w\<lparr>redis_st := r, userConnMap := AList.update i c (userConnMap w)\<rparr>) = Some w'" "ready (dbs w')"
    "quiet (w\<lparr>redis_st := r, userConnMap := AList.update i c (userConnMap w)\<rparr>) w'"
    "sent w' = sent w @ (c, packet (dump (jlib E) (login_response (jlib E) (u\<lparr>ustate := ''online''\<rparr>) vec fs gs))) # rest"
    by auto
  with r show ?thesis
    by (intro exI [of _ w'] exI [of _ vec] exI [of _ fs] exI [of _ gs] exI [of _ rest])
      (simp add: run_register run_answer quiet_def)
qed

text \<open>The whole login of a user that is not online.\<close>

lemma login_done:
  assumes "ready (dbs w)" and "parse (jlib E) msg = Some js" and "int_field (jlib E) js ''msgid'' = Inr (code LOGIN_MSG)"
    and "login_request (jlib E) js i pwd"
    and "uid (user_of (T (dbs w)) i) = i" and "upwd (user_of (T (dbs w)) i) = pwd" and "ustate (user_of (T (dbs w)) i) \<noteq> ''online''"
  shows "\<exists>w'. run_prog (body_prog E c msg) w = Some w' \<and> map_of (userConnMap w') i = Some c"
proof -
  let ?u = "user_of (T (dbs w)) i"
  from up.user_query_ready [OF assms(1), of i] obtain d where
    q: "UserModel_query (sql E) i (dbs w) = Some (?u, d)" "ready d" by blast
  from login_from_register [of "(updateConnTime c w)\<lparr>dbs := d\<rparr>" i ?u c] q(2) request_32(1) [OF assms(4)] assms(5,7)
  obtain w' where "run_prog (register_prog E c i ?u (answer_prog E c i ?u)) ((updateConnTime c w)\<lparr>dbs := d\<rparr>) = Some w'"
    "map_of (userConnMap w') i = Some c"
    by (auto simp: update_conv')
  then show ?thesis
    using q(1) assms(2-6) by (simp add: body_prog_def handler_progs_def login_prog_request db_step_def run_act on_db_def)
qed

text \<open>Left alone from there, the login answers with success and ends no session's connection.\<close>

lemma login_finishes:
  assumes "todo S t = register_prog E c i u (answer_prog E c i u)"
    and "ready (dbs (shared S))" and "is_int32 i" and "uid u = i" and "ustate u \<noteq> ''online''"
  shows "\<exists>es w r. thread_run E loop S es \<lparr>shared = w, todo = (todo S)(t := Done)\<rparr> \<and> ready (dbs w) \<and>
    userConnMap w = AList.update i c (userConnMap (shared S)) \<and> shut w = shut (shared S) \<and>
    set (sent (shared S)) \<subseteq> set (sent w) \<and> (c, packet (dump (jlib E) r)) \<in> set (sent w) \<and>
    int_field (jlib E) r ''errno'' = Inr 0"
proof -
  from login_from_register [OF assms(2-5), of c] obtain w vec fs gs rest where
    w: "run_prog (todo S t) (shared S) = Some w" "ready (dbs w)"
      "userConnMap w = AList.update i c (userConnMap (shared S))" "shut w = shut (shared S)"
      "sent w = sent (shared S) @ (c, packet (dump (jlib E) (login_response (jlib E) (u\<lparr>ustate := ''online''\<rparr>) vec fs gs))) # rest"
    unfolding assms(1) by auto
  from trun_alone [OF w(1), of E loop] obtain es where
    "thread_run E loop S es \<lparr>shared = w, todo = (todo S)(t := Done)\<rparr>" by blast
  moreover have "int_field (jlib E) (login_response (jlib E) (u\<lparr>ustate := ''online''\<rparr>) vec fs gs) ''errno'' = Inr 0"
    unfolding login_response_def by (subst int_field_jobj [of _ _ 0]) auto
  ultimately show ?thesis using w(2-4)
    by (intro exI [of _ es] exI [of _ w] exI [of _ "login_response (jlib E) (u\<lparr>ustate := ''online''\<rparr>) vec fs gs"]) (auto simp: w(5))
qed

lemma run_oneChat_cross:
  assumes "ready (dbs w)" and "ids_request (jlib E) js ''toid'' fromid toid"
    and "map_of (userConnMap w) toid = None" and "is_online (T (dbs w)) toid"
  shows "\<exists>d. run_prog (oneChat_prog E c js) w = Some (redis_publish E toid (dump (jlib E) js) (w\<lparr>dbs := d\<rparr>)) \<and>
    ready d \<and> T d = T (dbs w)"
proof -
  from up.user_query_ready [OF assms(1), of toid] obtain d where
    "UserModel_query (sql E) toid (dbs w) = Some (user_of (T (dbs w)) toid, d)" "ready d" "T d = T (dbs w)" by blast
  with assms(2-4) show ?thesis
    by (intro exI [of _ d]) (simp add: oneChat_prog_def ids_request_def on_db_def)
qed

text \<open>A logout up to the end of the subscription: the session is gone, the state is still online.\<close>

lemma logout_up_to_unsubscribe:
  assumes "todo S t = body_prog E c msg" and "parse (jlib E) msg = Some js"
    and "int_field (jlib E) js ''msgid'' = Inr (code LOGINOUT_MSG)" and "contains js ''id''" and "int_field (jlib E) js ''id'' = Inr i"
  shows "\<exists>ok r. unsubscribe (hlib E) i (redis_st (shared S)) = Some (ok, r) \<and>
    turns [t, t, t] S = Some \<lparr>shared = (updateConnTime c (shared S))\<lparr>userConnMap := AList.delete i (userConnMap (shared S)), redis_st := r\<rparr>,
      todo = (todo S)(t := upd (forget_time c) (offline_prog E i))\<rparr>"
proof -
  obtain ok r where u: "unsubscribe (hlib E) i (redis_st (shared S)) = Some (ok, r)"
    using link.unsubscribe_total [of i "redis_st (shared S)"] by (auto elim: returnsE)
  have "todo S t = upd (updateConnTime c) (upd (\<lambda>w. w\<lparr>userConnMap := AList.delete i (userConnMap w)\<rparr>)
      (redis_step (unsubscribe (hlib E) i) (upd (forget_time c) (offline_prog E i))))"
    using assms by (simp add: body_prog_def handler_progs_def loginout_prog_def)
  then have "turns [t, t, t] S = Some \<lparr>shared = (updateConnTime c (shared S))\<lparr>userConnMap := AList.delete i (userConnMap (shared S)), redis_st := r\<rparr>,
      todo = (todo S)(t := upd (forget_time c) (offline_prog E i))\<rparr>"
    using u by (simp add: thread_step_def upd_def act_def redis_step_def on_redis_def)
  with u show ?thesis by blast
qed

text \<open>From there the message is published, and the rest of the logout tells the friends.\<close>

lemma chat_published:
  assumes "todo S t = body_prog E c msg" and "parse (jlib E) msg = Some js"
    and "int_field (jlib E) js ''msgid'' = Inr (code ONE_CHAT_MSG)" and "ids_request (jlib E) js ''toid'' fromid toid"
    and "ready (dbs (shared S))" and "map_of (userConnMap (shared S)) toid = None" and "is_online (T (dbs (shared S))) toid"
  shows "\<exists>es d. thread_run E loop S es \<lparr>shared = redis_publish E toid (dump (jlib E) js) ((updateConnTime c (shared S))\<lparr>dbs := d\<rparr>),
      todo = (todo S)(t := Done)\<rparr> \<and> ready d \<and> T d = T (dbs (shared S))"
proof -
  from run_oneChat_cross [of "updateConnTime c (shared S)" js fromid toid c] assms(4-7) obtain d where
    "run_prog (oneChat_prog E c js) (updateConnTime c (shared S)) =
      Some (redis_publish E toid (dump (jlib E) js) ((updateConnTime c (shared S))\<lparr>dbs := d\<rparr>))"
    and d: "ready d" "T d = T (dbs (shared S))" by auto
  then have "run_prog (todo S t) (shared S) =
      Some (redis_publish E toid (dump (jlib E) js) ((updateConnTime c (shared S))\<lparr>dbs := d\<rparr>))"
    using assms(1-3) by (simp add: body_prog_def handler_progs_def)
  from trun_alone [OF this, of E loop] d show ?thesis by blast
qed

lemma logout_finishes:
  assumes "todo S t = upd (forget_time c) (offline_prog E i)" and "ready (dbs (shared S))" and "is_int32 i"
  shows "\<exists>es w as. thread_run E loop S es \<lparr>shared = w, todo = (todo S)(t := Done)\<rparr> \<and>
    T (dbs w) = set_state i ''offline'' (T (dbs (shared S))) \<and>
    sent w = sent (shared S) @ map (\<lambda>c. (c, packet (dump (jlib E) (state_notice i ''offline'')))) (here w as) \<and>
    redis_st w = publish_all (hlib E) (dump (jlib E) (state_notice i ''offline'')) (elsewhere w as) (redis_st (shared S))"
proof -
  let ?w = "forget_time c (shared S)"
  have "ready (dbs ?w)" using assms(2) by (simp add: forget_time_def)
  from go_offline_ready [OF this assms(3)] obtain w as where
    g: "go_offline E i ?w = Some w" and q: "quiet ?w w"
    and w: "T (dbs w) = set_state i ''offline'' (T (dbs ?w))"
      "sent w = sent ?w @ map (\<lambda>c. (c, packet (dump (jlib E) (state_notice i ''offline'')))) (here ?w as)"
      "redis_st w = publish_all (hlib E) (dump (jlib E) (state_notice i ''offline'')) (elsewhere ?w as) (redis_st ?w)" by blast
  from g have "run_prog (todo S t) (shared S) = Some w"
    using assms(1) by (simp add: offline_prog_def go_offline_def)
  from trun_alone [OF this, of E loop] obtain es where
    "thread_run E loop S es \<lparr>shared = w, todo = (todo S)(t := Done)\<rparr>" by blast
  moreover have "userConnMap ?w = userConnMap w" using q by (simp add: quiet_def)
  ultimately show ?thesis using w
    by (intro exI [of _ es] exI [of _ w] exI [of _ as]) (simp add: forget_time_def)
qed

end

text \<open>Two bodies received on idle loops.\<close>

lemma two_received:
  assumes "loop c1 \<noteq> loop c2"
  shows "thread_run E loop (all_idle w) [Received c1 m1, Received c2 m2]
    \<lparr>shared = w, todo = (\<lambda>_. Done)(loop c1 := body_prog E c1 m1, loop c2 := body_prog E c2 m2)\<rparr>"
proof -
  let ?S = "begin_prog (loop c1) (body_prog E c1 m1) (all_idle w)"
  have "thread_ev E loop (all_idle w) (Received c1 m1) ?S" by (rule t_body) (simp add: all_idle_def)
  moreover have "thread_ev E loop ?S (Received c2 m2) (begin_prog (loop c2) (body_prog E c2 m2) ?S)"
    by (rule t_body) (use assms in \<open>simp add: all_idle_def\<close>)
  moreover have "begin_prog (loop c2) (body_prog E c2 m2) ?S =
      \<lparr>shared = w, todo = (\<lambda>_. Done)(loop c1 := body_prog E c1 m1, loop c2 := body_prog E c2 m2)\<rparr>"
    by (simp add: begin_prog_def all_idle_def)
  ultimately show ?thesis using trun_snoc [OF trun_one] by force
qed

text \<open>A login request for the user with the password was received from the connection.\<close>

definition presented :: "('db, 'h) env \<Rightarrow> thread_event list \<Rightarrow> conn \<Rightarrow> int \<Rightarrow> string \<Rightarrow> bool" where
  "presented E es c i pwd \<longleftrightarrow> (\<exists>msg js. Received c msg \<in> set es \<and> parse (jlib E) msg = Some js \<and>
     int_field (jlib E) js ''msgid'' = Inr (code LOGIN_MSG) \<and> login_request (jlib E) js i pwd)"

definition demo_login_msg :: json where
  "demo_login_msg = JObj [(''id'', JInt 1), (''msgid'', JInt 1), (''password'', JStr ''a'')]"

lemma demo_login_msg:
  "login_request J demo_login_msg 1 ''a''" "int_field J demo_login_msg ''msgid'' = Inr (code LOGIN_MSG)"
  "parse (jlib (ref_chat [demo_login_msg])) (ref_dump demo_login_msg) = Some demo_login_msg"
  by (simp_all add: login_request_def demo_login_msg_def contains_def int_field_def string_field_def jindex_def get_int_def
      get_string_def ref_json_def is_int32_def)

definition demo_chat_msg :: json where
  "demo_chat_msg = JObj [(''id'', JInt 1), (''msgid'', JInt (code ONE_CHAT_MSG)), (''toid'', JInt 2)]"

definition demo_logout_msg :: json where
  "demo_logout_msg = JObj [(''id'', JInt 2), (''msgid'', JInt (code LOGINOUT_MSG))]"

lemma demo_race_msgs:
  "ids_request J demo_chat_msg ''toid'' 1 2" "int_field J demo_chat_msg ''msgid'' = Inr (code ONE_CHAT_MSG)"
  "contains demo_logout_msg ''id''" "int_field J demo_logout_msg ''id'' = Inr 2"
  "int_field J demo_logout_msg ''msgid'' = Inr (code LOGINOUT_MSG)"
  "parse (jlib (ref_chat [demo_chat_msg, demo_logout_msg])) (ref_dump demo_chat_msg) = Some demo_chat_msg"
  "parse (jlib (ref_chat [demo_chat_msg, demo_logout_msg])) (ref_dump demo_logout_msg) = Some demo_logout_msg"
  by (simp_all add: demo_chat_msg_def demo_logout_msg_def ids_request_def contains_def int_field_def jindex_def get_int_def
      ref_json_def is_int32_def dec_int_def dec_nat.simps)

text \<open>
  The steps are the handlers: run without interruption, a body received, a lost connection, a
  Redis message and the heartbeat check do what the functions of \<open>ChatService\<close> and \<open>Server\<close> do as a
  whole, with the same result or none.
\<close>
lemma handlers_uninterrupted:
  "run_prog (body_prog E c msg) w = handle_body E c msg w \<and>
   run_prog (onConnection_prog E c connected) w = onConnection E c connected w \<and>
   run_prog (redis_prog E u m) w = (case handleRedisSubscribeMessage E u m w of Some (Inr w') \<Rightarrow> Some w' | _ \<Rightarrow> None) \<and>
   run_prog check_prog w = Some (checkHeartbeat w)"
  by (simp add: run_body run_onConnection run_redis_callback run_check)

subsection \<open>Properties\<close>

text \<open>
  (C2) However the steps of the callbacks on the loops, the observer's thread and the main loop
  interleave, a user never has two sessions, and a connection that is the session of a user either
  was it at the start or has sent a login request for that user with the password that is stored
  for the user (or the request for the reserved user -1 with an empty password).
\<close>
theorem interleaved_sessions:
  assumes "mysql_server (sql E) T K" and "distinct (map fst (userConnMap w))"
    and "thread_run E loop (all_idle w) es S"
  shows "distinct (map fst (userConnMap (shared S))) \<and>
    (\<forall>(i, c) \<in> set (userConnMap (shared S)). (i, c) \<in> set (userConnMap w) \<or>
      (\<exists>pwd. presented E es c i pwd \<and>
        ((\<exists>n p st. users (T (dbs (shared S))) i = Some (n, p, st) \<and> c_str p = pwd) \<or> (i = -1 \<and> pwd = []))))"
proof -
  define R where "R = {(c, i, pwd). presented E es c i pwd}"
  have "\<forall>c msg. Received c msg \<in> set es \<longrightarrow> login_requests E c msg \<subseteq> R"
    unfolding R_def login_requests_def presented_def by blast
  from run_sessions_only [OF assms(1,3) guarded_idle this]
  have o: "sessions_only R T w (shared S)" by (simp add: all_idle_def)
  have "(i, c) \<in> set (userConnMap w) \<or> entitled R c i (T (dbs (shared S)))"
    if "(i, c) \<in> set (userConnMap (shared S))" for i c
    using o that by (force simp: sessions_only_def)
  with o assms(2) show ?thesis
    unfolding sessions_only_def entitled_def R_def by blast
qed

theorem interleaved_sessions_witness:
  "\<exists>es S. thread_run (ref_chat [demo_login_msg]) cid (all_idle demo) es S \<and>
    map_of (userConnMap (shared S)) 1 = Some (demo_conn 9) \<and>
    (\<exists>pwd. presented (ref_chat [demo_login_msg]) es (demo_conn 9) 1 pwd)"
proof -
  let ?E = "ref_chat [demo_login_msg]" and ?c = "demo_conn 9"
  let ?S1 = "begin_prog (cid ?c) (body_prog ?E ?c (ref_dump demo_login_msg)) (all_idle demo)"
  from chat.login_done [of demo "[demo_login_msg]" "ref_dump demo_login_msg" demo_login_msg 1 "''a''" ?c] obtain w' where
    w': "run_prog (todo ?S1 (cid ?c)) (shared ?S1) = Some w'" "map_of (userConnMap w') 1 = Some ?c"
    using demo_login_msg by (auto simp: all_idle_def c_str_def user_of_def)
  from trun_alone [OF w'(1), of ?E cid] obtain es where
    r: "thread_run ?E cid ?S1 es \<lparr>shared = w', todo = (todo ?S1)(cid ?c := Done)\<rparr>" by blast
  have "thread_ev ?E cid (all_idle demo) (Received ?c (ref_dump demo_login_msg)) ?S1"
    by (rule t_body) (simp add: all_idle_def)
  from trun_append [OF r trun_one [OF this]] obtain es S where
    run: "thread_run ?E cid (all_idle demo) es S" and S: "shared S = w'" by auto
  have "mysql_server (sql ?E) ref_tables (\<lambda>n. n)" using ref.mysql_server_axioms by simp
  from interleaved_sessions [OF this _ run] S w'(2) have
    "\<exists>pwd. presented ?E es ?c 1 pwd"
    by (auto simp: demo_conns dest!: map_of_SomeD)
  with run S w'(2) show ?thesis by blast
qed

text \<open>
  (C38) Two logins of one user at the same time: when both connections, on different loops, have read
  the user as offline before either is registered, both are answered with success, the second
  replaces the first in the map and the first is not shut down. A login that runs as a whole would
  have taken the session over.
\<close>
theorem double_login_race:
  assumes "chat_reliable E T K obuf wire resp ready busy" and "ready (dbs w)" and "loop c1 \<noteq> loop c2"
    and "parse (jlib E) m1 = Some js1" and "int_field (jlib E) js1 ''msgid'' = Inr (code LOGIN_MSG)" and "login_request (jlib E) js1 i pwd"
    and "parse (jlib E) m2 = Some js2" and "int_field (jlib E) js2 ''msgid'' = Inr (code LOGIN_MSG)" and "login_request (jlib E) js2 i pwd"
    and "users (T (dbs w)) i = Some (n, p, st)" and "c_str p = pwd" and "c_str st \<noteq> ''online''"
  shows "\<exists>es S r1 r2. thread_run E loop (all_idle w) (Received c1 m1 # Received c2 m2 # es) S \<and> todo S = (\<lambda>_. Done) \<and>
    (c1, packet (dump (jlib E) r1)) \<in> set (sent (shared S)) \<and> int_field (jlib E) r1 ''errno'' = Inr 0 \<and>
    (c2, packet (dump (jlib E) r2)) \<in> set (sent (shared S)) \<and> int_field (jlib E) r2 ''errno'' = Inr 0 \<and>
    map_of (userConnMap (shared S)) i = Some c2 \<and> shut (shared S) = shut w"
proof -
  let ?u = "user_of (T (dbs w)) i"
  let ?r1 = "register_prog E c1 i ?u (answer_prog E c1 i ?u)"
  let ?r2 = "register_prog E c2 i ?u (answer_prog E c2 i ?u)"
  have u: "uid ?u = i" "upwd ?u = pwd" "ustate ?u \<noteq> ''online''" using assms(10-12) by (simp_all add: user_of_def)
  have i: "is_int32 i" using request_32(1) [OF assms(6)] .
  let ?S2 = "\<lparr>shared = w, todo = (\<lambda>_. Done)(loop c1 := body_prog E c1 m1, loop c2 := body_prog E c2 m2)\<rparr>"
  have "todo ?S2 (loop c1) = body_prog E c1 m1" using assms(3) by simp
  from chat_reliable.login_up_to_query [OF assms(1) this assms(4-6)] assms(2) u obtain d3 where
    t3: "turns [loop c1, loop c1] ?S2 = Some \<lparr>shared = (updateConnTime c1 w)\<lparr>dbs := d3\<rparr>, todo = (todo ?S2)(loop c1 := ?r1)\<rparr>"
    and d3: "ready d3" "T d3 = T (dbs w)"
    by auto
  let ?S3 = "\<lparr>shared = (updateConnTime c1 w)\<lparr>dbs := d3\<rparr>, todo = (todo ?S2)(loop c1 := ?r1)\<rparr>"
  have "todo ?S3 (loop c2) = body_prog E c2 m2" using assms(3) by simp
  from chat_reliable.login_up_to_query [OF assms(1) this assms(7-9)] u d3 obtain S4 where
    t4: "turns [loop c2, loop c2] ?S3 = Some S4" and s4: "ready (dbs (shared S4))" "shut (shared S4) = shut w"
    "todo S4 = (\<lambda>_. Done)(loop c1 := ?r1, loop c2 := ?r2)"
    using assms(3) by (auto simp: fun_upd_twist)
  have p1: "todo S4 (loop c1) = ?r1" using s4(3) assms(3) by simp
  from chat_reliable.login_finishes [OF assms(1) p1 s4(1) i u(1,3), of loop] obtain es5 w5 r1 where
    r5: "thread_run E loop S4 es5 \<lparr>shared = w5, todo = (todo S4)(loop c1 := Done)\<rparr>"
    and w5: "ready (dbs w5)" "shut w5 = shut w" "(c1, packet (dump (jlib E) r1)) \<in> set (sent w5)" "int_field (jlib E) r1 ''errno'' = Inr 0"
    using s4(2) by auto
  let ?S5 = "\<lparr>shared = w5, todo = (todo S4)(loop c1 := Done)\<rparr>"
  have p2: "todo ?S5 (loop c2) = ?r2" "ready (dbs (shared ?S5))" using s4(3) assms(3) w5(1) by simp_all
  from chat_reliable.login_finishes [OF assms(1) p2 i u(1,3), of loop] obtain es6 w6 r2 where
    r6: "thread_run E loop ?S5 es6 \<lparr>shared = w6, todo = (todo ?S5)(loop c2 := Done)\<rparr>"
    and w6: "userConnMap w6 = AList.update i c2 (userConnMap w5)" "shut w6 = shut w5" "set (sent w5) \<subseteq> set (sent w6)"
      "(c2, packet (dump (jlib E) r2)) \<in> set (sent w6)" "int_field (jlib E) r2 ''errno'' = Inr 0"
    by auto
  have "(todo ?S5)(loop c2 := Done) = (\<lambda>_. Done)" using s4(3) by auto
  with r6 have r6: "thread_run E loop ?S5 es6 \<lparr>shared = w6, todo = \<lambda>_. Done\<rparr>" by simp
  have "thread_run E loop (all_idle w) (Received c1 m1 # Received c2 m2 # map Turn [loop c1, loop c1] @ map Turn [loop c2, loop c2] @ es5 @ es6)
      \<lparr>shared = w6, todo = \<lambda>_. Done\<rparr>"
    using trun_append [OF trun_append [OF trun_append [OF r6 r5] trun_turns [OF t4]] trun_append [OF trun_turns [OF t3] two_received [OF assms(3)]]]
    by simp
  moreover have "map_of (userConnMap w6) i = Some c2" "shut w6 = shut w" "(c1, packet (dump (jlib E) r1)) \<in> set (sent w6)"
    using w5(2,3) w6(1-3) by (auto simp: update_conv')
  ultimately show ?thesis using w5(4) w6(4,5)
    by (intro exI [of _ "map Turn [loop c1, loop c1] @ map Turn [loop c2, loop c2] @ es5 @ es6"]
        exI [of _ "\<lparr>shared = w6, todo = \<lambda>_. Done\<rparr>"] exI [of _ r1] exI [of _ r2]) simp
qed

theorem double_login_race_witness:
  "\<exists>es S. thread_run (ref_chat [demo_login_msg]) cid (all_idle demo)
      (Received (demo_conn 8) (ref_dump demo_login_msg) # Received (demo_conn 9) (ref_dump demo_login_msg) # es) S \<and>
    map_of (userConnMap (shared S)) 1 = Some (demo_conn 9) \<and> shut (shared S) = []"
proof -
  have "cid (demo_conn 8) \<noteq> cid (demo_conn 9)" by (simp add: demo_conn_def)
  from double_login_race [OF chat.chat_reliable_axioms [of "[demo_login_msg]"] _ this demo_login_msg(3,2,1) demo_login_msg(3,2,1),
      of demo "''ann''" "''a''" "''offline''"]
  show ?thesis by (auto simp: c_str_def demo_conns)
qed

text \<open>
  (C39) A message sent while its addressee logs out is lost: the session and the subscription are
  gone, the database still says online, so the message is published to the channel that nobody
  reads here; the run ends with the state offline and no other change of the tables, and every
  packet sent is a notice of the logout. Before the logout the message would have been sent, after it
  it would have been stored.
\<close>
theorem chat_logout_race:
  assumes "chat_reliable E T K obuf wire resp ready busy" and "ready (dbs w)" and "loop c2 \<noteq> loop c1"
    and "parse (jlib E) m1 = Some js1" and "int_field (jlib E) js1 ''msgid'' = Inr (code ONE_CHAT_MSG)"
    and "ids_request (jlib E) js1 ''toid'' fromid toid"
    and "parse (jlib E) m2 = Some js2" and "int_field (jlib E) js2 ''msgid'' = Inr (code LOGINOUT_MSG)"
    and "contains js2 ''id''" and "int_field (jlib E) js2 ''id'' = Inr toid"
    and "is_online (T (dbs w)) toid"
  shows "\<exists>es S ok r as. thread_run E loop (all_idle w) (Received c2 m2 # Received c1 m1 # es) S \<and> todo S = (\<lambda>_. Done) \<and>
    T (dbs (shared S)) = set_state toid ''offline'' (T (dbs w)) \<and>
    sent (shared S) = sent w @ map (\<lambda>c. (c, packet (dump (jlib E) (state_notice toid ''offline'')))) (here (shared S) as) \<and>
    unsubscribe (hlib E) toid (redis_st w) = Some (ok, r) \<and> (ok \<longrightarrow> toid \<notin> set (subscribed_channels r)) \<and>
    redis_st (shared S) = publish_all (hlib E) (dump (jlib E) (state_notice toid ''offline'')) (elsewhere (shared S) as)
      (snd (publish (hlib E) toid (dump (jlib E) js1) r))"
proof -
  let ?S2 = "\<lparr>shared = w, todo = (\<lambda>_. Done)(loop c2 := body_prog E c2 m2, loop c1 := body_prog E c1 m1)\<rparr>"
  let ?q = "upd (forget_time c2) (offline_prog E toid)"
  have "todo ?S2 (loop c2) = body_prog E c2 m2" using assms(3) by simp
  from chat_reliable.logout_up_to_unsubscribe [OF assms(1) this assms(7-10)] obtain ok r where
    un: "unsubscribe (hlib E) toid (redis_st w) = Some (ok, r)"
    and t3: "turns [loop c2, loop c2, loop c2] ?S2 = Some \<lparr>shared = (updateConnTime c2 w)\<lparr>userConnMap := AList.delete toid (userConnMap w), redis_st := r\<rparr>,
      todo = (todo ?S2)(loop c2 := ?q)\<rparr>"
    by auto
  let ?w3 = "(updateConnTime c2 w)\<lparr>userConnMap := AList.delete toid (userConnMap w), redis_st := r\<rparr>"
  let ?S3 = "\<lparr>shared = ?w3, todo = (todo ?S2)(loop c2 := ?q)\<rparr>"
  have "todo ?S3 (loop c1) = body_prog E c1 m1" "map_of (userConnMap (shared ?S3)) toid = None"
    using assms(3) by (simp_all add: delete_conv')
  from chat_reliable.chat_published [OF assms(1) this(1) assms(4-6) _ this(2), of loop] assms(2,11) obtain es4 w4 where
    r4: "thread_run E loop ?S3 es4 \<lparr>shared = w4, todo = (todo ?S3)(loop c1 := Done)\<rparr>"
    and w4: "ready (dbs w4)" "T (dbs w4) = T (dbs w)" "sent w4 = sent w"
      "redis_st w4 = snd (publish (hlib E) toid (dump (jlib E) js1) r)"
    by (auto simp: redis_publish_def)
  let ?S4 = "\<lparr>shared = w4, todo = (todo ?S3)(loop c1 := Done)\<rparr>"
  have "todo ?S4 (loop c2) = ?q" "ready (dbs (shared ?S4))" "is_int32 toid"
    using assms(3) w4(1) request_32(2) [OF assms(6)] by simp_all
  from chat_reliable.logout_finishes [OF assms(1) this, of loop] obtain es5 w5 as where
    r5: "thread_run E loop ?S4 es5 \<lparr>shared = w5, todo = (todo ?S4)(loop c2 := Done)\<rparr>"
    and w5: "T (dbs w5) = set_state toid ''offline'' (T (dbs w))"
      "sent w5 = sent w @ map (\<lambda>c. (c, packet (dump (jlib E) (state_notice toid ''offline'')))) (here w5 as)"
      "redis_st w5 = publish_all (hlib E) (dump (jlib E) (state_notice toid ''offline'')) (elsewhere w5 as)
        (snd (publish (hlib E) toid (dump (jlib E) js1) r))"
    using w4(2-4) by auto
  have "(todo ?S4)(loop c2 := Done) = (\<lambda>_. Done)" by auto
  with r5 have r5: "thread_run E loop ?S4 es5 \<lparr>shared = w5, todo = \<lambda>_. Done\<rparr>" by simp
  have "thread_run E loop (all_idle w) (Received c2 m2 # Received c1 m1 # map Turn [loop c2, loop c2, loop c2] @ es4 @ es5)
      \<lparr>shared = w5, todo = \<lambda>_. Done\<rparr>"
    using trun_append [OF trun_append [OF r5 r4] trun_append [OF trun_turns [OF t3] two_received [OF assms(3)]]] by simp
  moreover have "ok \<longrightarrow> toid \<notin> set (subscribed_channels r)"
    using un by (auto simp: unsubscribe_def split: option.splits if_splits bind_splits)
  ultimately show ?thesis using un w5
    by (intro exI [of _ "map Turn [loop c2, loop c2, loop c2] @ es4 @ es5"] exI [of _ "\<lparr>shared = w5, todo = \<lambda>_. Done\<rparr>"]
        exI [of _ ok] exI [of _ r] exI [of _ as]) simp
qed

theorem chat_logout_race_witness:
  "\<exists>es S. thread_run (ref_chat [demo_chat_msg, demo_logout_msg]) cid (all_idle demo_online)
      (Received (demo_conn 2) (ref_dump demo_logout_msg) # Received (demo_conn 1) (ref_dump demo_chat_msg) # es) S \<and>
    ref_tables (dbs (shared S)) = set_state 2 ''offline'' (ref_tables (dbs demo_online))"
proof -
  have "cid (demo_conn 2) \<noteq> cid (demo_conn 1)" by (simp add: demo_conn_def)
  moreover have "is_online (ref_tables (dbs demo_online)) 2" by (simp add: user_of_def c_str_def)
  ultimately show ?thesis
    using chat_logout_race [OF chat.chat_reliable_axioms [of "[demo_chat_msg, demo_logout_msg]"] demo_online_simps(1) _
        demo_race_msgs(6,2,1,7,5,3,4), where loop = cid and ?c1.0 = "demo_conn 1" and ?c2.0 = "demo_conn 2"] by blast
qed

end
