(* ===== verification/Spec2Isabelle.thy ===== *)
theory Spec2Isabelle
  imports LoginProps ChatProps Server WidgetProps LogProps Config ConsoleProps LoginUiProps StartupProps Requests ConnectionProps ThreadProps
begin

text \<open>
  A verification library for the chat system of this repository: a multi-process chat server on
  MySQL and Redis, a Qt client, and a console client.

  \<^bold>\<open>The program.\<close> A client opens a TCP connection and sends JSON documents, each behind a
  4-byte big-endian length. \<open>ChatServer\<close> (muduo callbacks) cuts the stream into bodies, parses each and
  hands it to the handler of \<open>ChatService\<close> for its \<open>msgid\<close>. The handlers keep the map from user to
  connection, ask the data models, which take a connection from \<open>DbPool\<close> for each operation, and reach
  users of other server processes through the Redis channel of the user's id. The Qt client keeps
  one connection with four timers, a login dialog and a chat window. The server's \<open>main\<close> reads a
  configuration file and logs through an asynchronous writer thread.

  \<^bold>\<open>Theories and sources\<close> (paths below \<open>src/\<close>; operations have the names of the source):
  \<^item> \<open>Prelude\<close>: 32-bit narrowing, decimal numbers and \<open>atoi\<close>, association lists.
  \<^item> \<open>Wire\<close>: \<open>sendJson\<close>'s packet and the receive loops of \<open>chatserver.cpp\<close> (\<open>onMessage\<close>) and
    \<open>chatclient.cpp\<close> (\<open>onReadyRead\<close>); both refine one stream parser (locale \<open>framed_stream\<close>).
  \<^item> \<open>Json\<close>: JSON values, the accessors of \<open>json.hpp\<close> the code calls, building of objects.
  \<^item> \<open>DbPool\<close>: \<open>db/dbpool.cpp\<close>, \<open>pooledmysql.hpp\<close>; a step relation interleaves the locked regions of
    any number of threads.
  \<^item> \<open>Connections\<close>, \<open>ConnectionProps\<close>: the class \<open>MySQL\<close> (\<open>db/db.cpp\<close>), \<open>createConnection\<close> and the pool with
    the driver's calls in place (locale \<open>client_lib\<close>): who owns a handle until it is closed.
  \<^item> \<open>Mysql\<close>, \<open>Models\<close>: the statements with their fixed buffers (\<open>db/db.cpp\<close>), and the classes of
    \<open>model/\<close>. The tables and what each statement does are the locales \<open>mysql_server\<close> and
    \<open>reliable_mysql\<close>.
  \<^item> \<open>Redis\<close>: \<open>redis/redis.cpp\<close> with its observer thread, over hiredis (locale \<open>redis_link\<close>;
    \<open>live_link\<close> for a subscriber connection that is up).
  \<^item> \<open>ChatService\<close>, \<open>ServiceFacts\<close>: \<open>chatservice.cpp\<close> handler by handler, each as the reading of its
    fields and its operation on the values (\<open>login_user\<close>, \<open>chat_to\<close>, ...); the facts
    under the contracts of the libraries (locales \<open>chat_libs\<close>, \<open>chat_reliable\<close>).
  \<^item> \<open>RefServer\<close>, \<open>RefChat\<close>: a database, a Redis link and a JSON library that satisfy all contracts;
    the locales are interpreted on the model's operations over them, and witnesses run here.
  \<^item> \<open>LoginProps\<close>, \<open>ChatProps\<close>, \<open>Server\<close>: sessions, messages, and runs of a server process.
  \<^item> \<open>Resume\<close>, \<open>Threads\<close>, \<open>ThreadFacts\<close>, \<open>ThreadProps\<close>: the handlers once more, cut into atomic steps (a
    model call, a Redis call, a region under \<open>_connMutex\<close>, a packet) that four loops, the observer
    and the timer take in any order; \<open>Resume\<close> has the programs and a rely-guarantee argument.
  \<^item> \<open>Client\<close>, \<open>ClientProps\<close>, \<open>Requests\<close>: \<open>QtClient/Client/chatclient.cpp\<close>; its runs, a message from
    client to client, and the requests with what the server does for each.
  \<^item> \<open>Widget\<close>, \<open>WidgetProps\<close>: \<open>widget.cpp\<close>; histories, counters, lists and the open chat.
  \<^item> \<open>LoginUi\<close>, \<open>LoginUiProps\<close>: \<open>logindialog.cpp\<close> and the loop of \<open>QtClient/Client/main.cpp\<close>.
  \<^item> \<open>Config\<close>: \<open>config/ConfigFileReader.cpp\<close>. \<open>AsyncLog\<close>, \<open>LogProps\<close>: \<open>asynclog/AsyncLog.cpp\<close>.
  \<^item> \<open>Startup\<close>, \<open>StartupProps\<close>: \<open>server/main.cpp\<close>.
  \<^item> \<open>Console\<close>, \<open>ConsoleProps\<close>: \<open>client/main.cpp\<close>, both threads.

  \<^bold>\<open>State and results.\<close> Each component's state is a record with the fields of its class, and each
  operation a function on it. Where the source has undefined behaviour (a \<open>sprintf\<close> past its buffer,
  a write through a null pointer) the result is \<open>None\<close>; exceptions of the JSON library are \<open>Inl\<close> values
  up to the place that catches them. Threads are step relations (\<open>pool_step\<close>, \<open>conn_step\<close>, \<open>log_step\<close>,
  \<open>thread_ev\<close>, \<open>client_step\<close>, \<open>dialog_step\<close>, \<open>console_run\<close>). The runs of \<open>Server\<close> take a handler as one
  event; the lemma \<open>handlers_uninterrupted\<close> shows that such an event is a run of the handler's steps.

  \<^bold>\<open>What the theorems show.\<close> Framing: no body is lost, doubled or invented, for any chunking. Server:
  one session per user and connection, password check, delivery to this server, another server or
  the offline table, once (an offline message only where its statement fits the buffer: a long
  message to an offline member of a group is lost); friends are told; a bad request changes no other session. The
  password check and the one session per user hold under any interleaving of the handlers' steps.
  Pool: exclusive and bounded, every acquire returns while the database answers, and no handle of
  the driver is leaked. Redis: channels survive a
  reconnection, the observer hands over the published messages and nothing else. Log: first in,
  first out on the console and, as long as no file name is opened twice, in the files; bounded files,
  no access outside a buffer. Client: a
  logout is final, a lost session dials the same host and port and
  comes back with the same credentials, a pending action of the
  dialog ends, the open chat is shown. Compositions: from one client's input to the other's
  signal, from the server's login answer to the window, from the configuration file to the
  listening server. Several theorems state defects: two logins at the same time can both be
  accepted without ending either connection, a message sent during its addressee's logout is lost,
  an idle client does not notice a silent
  server, the shutdown of the log can hang, a long name overruns a buffer at registration, the
  console client does not speak the server's protocol and spins on a failed input.

  \<^bold>\<open>Fuel and bounds.\<close> Loops over data have a measure. The retry loop of \<open>acquire\<close> has fuel; \<open>acquire_returns\<close>
  shows that one round more than the number of idle connections is enough when the database
  answers, and \<open>acquire_spins_when_db_down\<close> that no fuel is when it does not. Integers read from JSON
  are narrowed to 32 bits; the length of a packet is a 32-bit word, a port a 16-bit word.

  \<^bold>\<open>Parameters.\<close> MySQL and its driver, hiredis, parsing and printing of JSON, Qt's socket and JSON
  classes, \<open>QString::trimmed\<close> and \<open>toInt\<close>, clocks, and what a user enters. What the proofs need of them is
  named (the locales above, \<open>json_lib_ok\<close>, \<open>json_agree\<close>, \<open>qt_json\<close>, \<open>json_text\<close>) and holds of the
  concrete libraries of the witnesses. Printing is total: texts are UTF-8.

  \<^bold>\<open>Not modelled.\<close> Data races on one hiredis context, and steps inside a region under
  \<open>_connMutex\<close>; the set-up of muduo, signal handlers and sockets; the construction, layout, style and
  painting of Qt widgets (\<open>setupUI\<close>, \<open>setupStyle\<close>, the badge painter); the Windows branches and
  \<open>Platform\<close> files; the vendored \<open>json.hpp\<close> beyond the accessors. These hold calls into other
  libraries and no state of the program. The order in which \<open>clientCloseException\<close> meets the entries of
  an \<open>unordered_map\<close> is the order of the model's list, which matters only for a connection of two users.
  A run
  of the log ends where a fatal line is written by its own thread, because the process crashes behind it.
\<close>

end
